theory Spec2Isabelle
  imports Complex_Main
begin

section \<open>JavaScript values used by the connection inventory\<close>

text \<open>
  Text is a list of 8-bit characters: a JavaScript string whose UTF-16 code units are all
  below 256, the character \<open>char_of n\<close> standing for code unit \<open>n\<close>. This covers
  ASCII and the accented capitals of the French \<open>netstat\<close> vocabulary (\<open>CHR 0xC9\<close> is
  U+00C9, E with acute accent). Lengths and indices count code units, as in the source.

  A JavaScript number is \<open>NaN\<close>, an infinity, or a finite double given by its exact
  rational value; negative zero is identified with zero.
\<close>

datatype jsnum = NaN | Num rat | PosInf | NegInf

definition isFinite :: "jsnum \<Rightarrow> bool" where
  \<comment> \<open>\<open>Number.isFinite\<close>\<close>
  "isFinite x = (case x of Num q \<Rightarrow> True | _ \<Rightarrow> False)"

definition isNaN :: "jsnum \<Rightarrow> bool" where
  \<comment> \<open>\<open>Number.isNaN\<close>\<close>
  "isNaN x = (case x of NaN \<Rightarrow> True | _ \<Rightarrow> False)"

definition truthy_num :: "jsnum \<Rightarrow> bool" where
  \<comment> \<open>ToBoolean on a number: \<open>NaN\<close> and zero are falsy\<close>
  "truthy_num x = (case x of NaN \<Rightarrow> False | Num q \<Rightarrow> q \<noteq> 0 | _ \<Rightarrow> True)"

definition negate :: "jsnum \<Rightarrow> jsnum" where
  "negate x = (case x of NaN \<Rightarrow> NaN | Num q \<Rightarrow> Num (- q) | PosInf \<Rightarrow> NegInf | NegInf \<Rightarrow> PosInf)"

subsection \<open>Character classes\<close>

definition code :: "char \<Rightarrow> nat" where
  "code c = of_char c"

definition isDigit :: "char \<Rightarrow> bool" where
  \<comment> \<open>the class \<open>\d\<close>\<close>
  "isDigit c = (48 \<le> code c \<and> code c \<le> 57)"

definition isSpace :: "char \<Rightarrow> bool" where
  \<comment> \<open>the class \<open>\s\<close>, which is also what \<open>trim\<close> removes: TAB, LF, VT, FF, CR, SP, NBSP\<close>
  "isSpace c = (c = CHR 0x09 \<or> c = CHR 0x0A \<or> c = CHR 0x0B \<or> c = CHR 0x0C \<or> c = CHR 0x0D
                \<or> c = CHR '' '' \<or> c = CHR 0xA0)"

definition isLineTerminator :: "char \<Rightarrow> bool" where
  \<comment> \<open>what \<open>.\<close> refuses and what \<open>^\<close> follows under the \<open>m\<close> flag: LF, CR\<close>
  "isLineTerminator c = (c = CHR 0x0A \<or> c = CHR 0x0D)"

definition isWordChar :: "char \<Rightarrow> bool" where
  \<comment> \<open>the class \<open>\w\<close> of a pattern without the \<open>u\<close> flag: \<open>[A-Za-z0-9_]\<close>\<close>
  "isWordChar c = ((65 \<le> code c \<and> code c \<le> 90) \<or> (97 \<le> code c \<and> code c \<le> 122)
                   \<or> (48 \<le> code c \<and> code c \<le> 57) \<or> code c = 95)"

definition canonicalize :: "char \<Rightarrow> nat" where
  \<comment> \<open>the case folding of a pattern with the \<open>i\<close> flag, as a code unit: the upper-case
      code unit when there is a single one; U+00DF, U+00B5 and U+00FF are alone in their
      classes here\<close>
  "canonicalize c =
     (if (97 \<le> code c \<and> code c \<le> 122) \<or> (224 \<le> code c \<and> code c \<le> 254 \<and> code c \<noteq> 247)
      then code c - 32 else code c)"

definition toUpperCase :: "string \<Rightarrow> string" where
  \<comment> \<open>\<open>String.prototype.toUpperCase\<close>: U+00DF becomes \<open>SS\<close>; U+00B5 and U+00FF, whose
      capitals lie beyond code unit 255, are kept as they are\<close>
  "toUpperCase s =
     concat (map (\<lambda>c. if c = CHR 0xDF then ''SS'' else [char_of (canonicalize c)]) s)"

subsection \<open>String operations\<close>

definition trim :: "string \<Rightarrow> string" where
  "trim s = rev (dropWhile isSpace (rev (dropWhile isSpace s)))"

definition trimStart :: "string \<Rightarrow> string" where
  "trimStart s = dropWhile isSpace s"

fun indexOf_from :: "nat \<Rightarrow> char \<Rightarrow> string \<Rightarrow> int" where
  "indexOf_from i c [] = -1"
| "indexOf_from i c (x # xs) = (if x = c then int i else indexOf_from (Suc i) c xs)"

definition indexOf :: "string \<Rightarrow> char \<Rightarrow> int" where
  \<comment> \<open>\<open>s.indexOf(c)\<close> for a one-character \<open>c\<close>: the first index, or -1\<close>
  "indexOf s c = indexOf_from 0 c s"

fun lastIndexOf_from :: "nat \<Rightarrow> int \<Rightarrow> char \<Rightarrow> string \<Rightarrow> int" where
  "lastIndexOf_from i best c [] = best"
| "lastIndexOf_from i best c (x # xs) =
     lastIndexOf_from (Suc i) (if x = c then int i else best) c xs"

definition lastIndexOf :: "string \<Rightarrow> char \<Rightarrow> int" where
  \<comment> \<open>\<open>s.lastIndexOf(c)\<close> for a one-character \<open>c\<close>: the last index, or -1\<close>
  "lastIndexOf s c = lastIndexOf_from 0 (-1) c s"

fun split_on :: "char \<Rightarrow> string \<Rightarrow> string list" where
  \<comment> \<open>\<open>s.split(c)\<close> for a one-character separator; never the empty list\<close>
  "split_on c [] = [[]]"
| "split_on c (x # xs) =
     (if x = c then [] # split_on c xs
      else (case split_on c xs of y # ys \<Rightarrow> (x # y) # ys | [] \<Rightarrow> [[x]]))"

fun split_lines :: "string \<Rightarrow> string list" where
  \<comment> \<open>\<open>s.split(/\r?\n/)\<close>: scanning from the left, CR LF or a lone LF ends a piece\<close>
  "split_lines [] = [[]]"
| "split_lines (x # xs) =
     (if x = CHR 0x0A then [] # split_lines xs
      else if x = CHR 0x0D \<and> xs \<noteq> [] \<and> hd xs = CHR 0x0A then [] # split_lines (tl xs)
      else (case split_lines xs of y # ys \<Rightarrow> (x # y) # ys | [] \<Rightarrow> [[x]]))"

subsection \<open>Text to number\<close>

fun digits_val :: "int \<Rightarrow> int \<Rightarrow> string \<Rightarrow> int" where
  \<comment> \<open>the value of a run of digits in base \<open>b\<close>, most significant first\<close>
  "digits_val b acc [] = acc"
| "digits_val b acc (c # cs) =
     digits_val b (acc * b + (if isDigit c then int (code c) - 48
                              else if 97 \<le> code c then int (code c) - 87
                              else int (code c) - 55)) cs"

definition isDigitOf :: "int \<Rightarrow> char \<Rightarrow> bool" where
  \<comment> \<open>a digit of base 2, 8 or 16\<close>
  "isDigitOf b c =
     (if b = 16 then isDigit c \<or> (65 \<le> code c \<and> code c \<le> 70) \<or> (97 \<le> code c \<and> code c \<le> 102)
      else 48 \<le> code c \<and> int (code c) < 48 + b)"

function bit_length :: "int \<Rightarrow> int" where
  \<comment> \<open>the number of binary digits of a positive integer\<close>
  "bit_length n = (if n \<le> 0 then 0 else 1 + bit_length (n div 2))"
  by pat_completeness auto
termination
  by (relation "measure nat") auto

declare bit_length.simps [simp del]

definition pow2 :: "int \<Rightarrow> rat" where
  "pow2 e = (if 0 \<le> e then 2 ^ nat e else 1 / 2 ^ nat (- e))"

definition floor_log2 :: "rat \<Rightarrow> int" where
  \<comment> \<open>for \<open>a > 0\<close>: the \<open>e\<close> with \<open>2^e \<le> a < 2^(e+1)\<close>\<close>
  "floor_log2 a =
     (let (p, q) = quotient_of a;
          e = bit_length p - bit_length q
      in if pow2 e \<le> a then e else e - 1)"

definition round_pos :: "rat \<Rightarrow> jsnum" where
  \<comment> \<open>a positive real to the nearest double, ties to the even significand (53 bits,
      least exponent -1074), overflowing to infinity from \<open>2^1024\<close>\<close>
  "round_pos a =
     (let ulp = pow2 (max (floor_log2 a) (- 1022) - 52);
          n = a / ulp;
          f = \<lfloor>n\<rfloor>;
          r = n - of_int f;
          m = (if r > 1 / 2 \<or> (r = 1 / 2 \<and> odd f) then f + 1 else f);
          v = of_int m * ulp
      in if v \<ge> pow2 1024 then PosInf else Num v)"

definition round_double :: "rat \<Rightarrow> jsnum" where
  "round_double a =
     (if a = 0 then Num 0 else if a > 0 then round_pos a else negate (round_pos (- a)))"

definition nondecimal_literal :: "string \<Rightarrow> int option" where
  \<comment> \<open>\<open>0x\<close>, \<open>0o\<close>, \<open>0b\<close> (either case) and at least one digit of that base\<close>
  "nondecimal_literal t =
     (case t of
        z # k # ds \<Rightarrow>
          (let b = (if k = CHR ''x'' \<or> k = CHR ''X'' then 16
                    else if k = CHR ''o'' \<or> k = CHR ''O'' then 8
                    else if k = CHR ''b'' \<or> k = CHR ''B'' then 2 else (0::int))
           in if z = CHR ''0'' \<and> b \<noteq> 0 \<and> ds \<noteq> [] \<and> list_all (isDigitOf b) ds
              then Some (digits_val b 0 ds) else None)
      | _ \<Rightarrow> None)"

definition exponent_part :: "string \<Rightarrow> int option" where
  \<comment> \<open>nothing, or \<open>e\<close>/\<open>E\<close>, an optional sign and at least one digit, up to the end\<close>
  "exponent_part r =
     (case r of
        [] \<Rightarrow> Some 0
      | c # r1 \<Rightarrow>
          if c = CHR ''e'' \<or> c = CHR ''E'' then
            (let neg = (r1 \<noteq> [] \<and> hd r1 = CHR ''-'');
                 ds = (if r1 \<noteq> [] \<and> (hd r1 = CHR ''+'' \<or> hd r1 = CHR ''-'') then tl r1 else r1)
             in if ds \<noteq> [] \<and> list_all isDigit ds
                then Some (if neg then - digits_val 10 0 ds else digits_val 10 0 ds)
                else None)
          else None)"

definition decimal_mv :: "string \<Rightarrow> rat option" where
  \<comment> \<open>the mathematical value of an unsigned decimal literal: digits, an optional point
      and fraction digits (one of the two runs non-empty), an optional exponent\<close>
  "decimal_mv u =
     (let ip = takeWhile isDigit u;
          r1 = dropWhile isDigit u;
          dot = (r1 \<noteq> [] \<and> hd r1 = CHR ''.'');
          fp = (if dot then takeWhile isDigit (tl r1) else []);
          r2 = (if dot then dropWhile isDigit (tl r1) else r1)
      in if ip = [] \<and> fp = [] then None
         else (case exponent_part r2 of
                 None \<Rightarrow> None
               | Some e \<Rightarrow>
                   Some (of_int (digits_val 10 0 (ip @ fp)) *
                         (let k = e - int (length fp)
                          in if 0 \<le> k then 10 ^ nat k else 1 / 10 ^ nat (- k)))))"

definition unsigned_decimal :: "string \<Rightarrow> jsnum" where
  "unsigned_decimal u =
     (if u = ''Infinity'' then PosInf
      else (case decimal_mv u of None \<Rightarrow> NaN | Some q \<Rightarrow> round_double q))"

definition Number_js :: "string \<Rightarrow> jsnum" where
  \<comment> \<open>\<open>Number(s)\<close> on a string: white space is trimmed, the empty text is 0, then a
      literal of base 16, 8 or 2, or a signed decimal literal; anything else is \<open>NaN\<close>\<close>
  "Number_js s =
     (let t = trim s
      in if t = [] then Num 0
         else (case nondecimal_literal t of
                 Some n \<Rightarrow> round_double (of_int n)
               | None \<Rightarrow>
                   if hd t = CHR ''+'' then unsigned_decimal (tl t)
                   else if hd t = CHR ''-'' then negate (unsigned_decimal (tl t))
                   else unsigned_decimal t))"

definition parseInt10 :: "string \<Rightarrow> jsnum" where
  \<comment> \<open>\<open>parseInt(s, 10)\<close>: leading white space, an optional sign, then the longest run of
      decimal digits; \<open>NaN\<close> when that run is empty\<close>
  "parseInt10 s =
     (let t = trimStart s;
          neg = (t \<noteq> [] \<and> hd t = CHR ''-'');
          u = (if t \<noteq> [] \<and> (hd t = CHR ''+'' \<or> hd t = CHR ''-'') then tl t else t);
          ds = takeWhile isDigit u
      in if ds = [] then NaN
         else if neg then negate (round_double (of_int (digits_val 10 0 ds)))
         else round_double (of_int (digits_val 10 0 ds)))"

section \<open>Address splitter (lib/parsers.js)\<close>

definition match_bracket :: "string \<Rightarrow> (string \<times> string) option" where
  \<comment> \<open>\<open>addr.match(/^\[([^\]]+)\]:(\d+)$/)\<close>: the two groups\<close>
  "match_bracket addr =
     (case addr of
        [] \<Rightarrow> None
      | c # r \<Rightarrow>
          (let h = takeWhile (\<lambda>x. x \<noteq> CHR '']'') r;
               r2 = dropWhile (\<lambda>x. x \<noteq> CHR '']'') r;
               d = drop 2 r2
           in if c = CHR ''['' \<and> h \<noteq> [] \<and> take 2 r2 = '']:'' \<and> d \<noteq> [] \<and> list_all isDigit d
              then Some (h, d) else None))"

definition splitHostPort :: "string \<Rightarrow> string \<times> jsnum option" where
  \<comment> \<open>the pair is \<open>{host, port}\<close>; \<open>None\<close> is \<open>null\<close>\<close>
  "splitHostPort addr =
     (if addr = [] then (addr, None)
      else (case match_bracket addr of
              Some (h, d) \<Rightarrow> (h, Some (Number_js d))
            | None \<Rightarrow>
                (let lastColon = lastIndexOf addr (CHR '':'')
                 in if lastColon > - 1 \<and> indexOf addr (CHR '':'') = lastColon then
                      (let host = take (nat lastColon) addr;
                           port = Number_js (drop (nat (lastColon + 1)) addr)
                       in (host, if isFinite port then Some port else None))
                    else if addr = ''*:*'' then (''*'', None)
                    else (addr, None))))"

section \<open>Pattern matching helpers\<close>

text \<open>
  The patterns of the source are matched by hand-written scanners that make the choices
  the backtracking matcher makes. A literal pattern is a list of positions, each with the
  characters it admits; under the \<open>i\<close> flag characters are compared after
  \<open>canonicalize\<close>.
\<close>

type_synonym pattern = "char list list"

definition lit :: "string \<Rightarrow> pattern" where
  "lit s = map (\<lambda>c. [c]) s"

fun match_here :: "pattern \<Rightarrow> string \<Rightarrow> bool" where
  \<comment> \<open>the pattern, case-insensitively, at the start of the text\<close>
  "match_here [] s = True"
| "match_here (p # ps) [] = False"
| "match_here (p # ps) (c # cs) =
     (if list_ex (\<lambda>a. canonicalize a = canonicalize c) p then match_here ps cs else False)"

fun starts_with :: "string \<Rightarrow> string \<Rightarrow> bool" where
  \<comment> \<open>\<open>starts_with p s\<close>: the literal \<open>p\<close>, case-sensitively, at the start of \<open>s\<close>\<close>
  "starts_with [] s = True"
| "starts_with (p # ps) [] = False"
| "starts_with (p # ps) (c # cs) = (if p = c then starts_with ps cs else False)"

definition word_boundary :: "char option \<Rightarrow> char option \<Rightarrow> bool" where
  \<comment> \<open>the assertion \<open>\b\<close> between two neighbours, \<open>None\<close> beyond either end\<close>
  "word_boundary a b =
     ((case a of None \<Rightarrow> False | Some x \<Rightarrow> isWordChar x)
      \<noteq> (case b of None \<Rightarrow> False | Some y \<Rightarrow> isWordChar y))"

definition char_at :: "string \<Rightarrow> nat \<Rightarrow> char option" where
  "char_at s i = (if i < length s then Some (s ! i) else None)"

fun alt_here :: "pattern list \<Rightarrow> char option \<Rightarrow> string \<Rightarrow> nat option" where
  \<comment> \<open>\<open>\b(p1|p2|...)\b\<close> at the start of the text, \<open>prev\<close> being the character before
      it: the length of the first alternative that matches\<close>
  "alt_here [] prev s = None"
| "alt_here (p # ps) prev s =
     (if p = [] then alt_here ps prev s
      else if \<not> match_here p s then alt_here ps prev s
      else if word_boundary prev (char_at s 0)
              \<and> word_boundary (char_at s (length p - 1)) (char_at s (length p))
      then Some (length p) else alt_here ps prev s)"

fun search_wb :: "pattern list \<Rightarrow> char option \<Rightarrow> string \<Rightarrow> nat \<Rightarrow> (nat \<times> nat) option" where
  \<comment> \<open>the leftmost match of \<open>/\b(p1|p2|...)\b/i\<close>: its index and its length\<close>
  "search_wb ps prev [] i = None"
| "search_wb ps prev (c # cs) i =
     (case alt_here ps prev (c # cs) of
        Some n \<Rightarrow> Some (i, n)
      | None \<Rightarrow> search_wb ps (Some c) cs (Suc i))"

definition replace_wb :: "pattern \<Rightarrow> string \<Rightarrow> string \<Rightarrow> string" where
  \<comment> \<open>\<open>s.replace(/\bp\b/i, repl)\<close>: the first match only\<close>
  "replace_wb p repl s =
     (case search_wb [p] None s 0 of
        None \<Rightarrow> s
      | Some (i, n) \<Rightarrow> take i s @ repl @ drop (i + n) s)"

definition replace_prefix :: "pattern \<Rightarrow> string \<Rightarrow> string \<Rightarrow> string" where
  \<comment> \<open>\<open>s.replace(/^p/i, repl)\<close>\<close>
  "replace_prefix p repl s = (if match_here p s then repl @ drop (length p) s else s)"

function collapse_ws :: "string \<Rightarrow> string" where
  \<comment> \<open>\<open>s.replace(/\s+/g, ' ')\<close>\<close>
  "collapse_ws [] = []"
| "collapse_ws (c # cs) =
     (if isSpace c then CHR '' '' # collapse_ws (dropWhile isSpace cs) else c # collapse_ws cs)"
  by pat_completeness auto
termination
  by (relation "measure length") (auto simp: le_imp_less_Suc length_dropWhile_le)

function split_ws :: "string \<Rightarrow> string list" where
  \<comment> \<open>\<open>s.split(/\s+/)\<close>\<close>
  "split_ws [] = [[]]"
| "split_ws (c # cs) =
     (if isSpace c then [] # split_ws (dropWhile isSpace cs)
      else (case split_ws cs of y # ys \<Rightarrow> (c # y) # ys | [] \<Rightarrow> [[c]]))"
  by pat_completeness auto
termination
  by (relation "measure length") (auto simp: le_imp_less_Suc length_dropWhile_le)

section \<open>Format extractors (lib/parsers.js)\<close>

record conn =
  key :: string
  protocol :: string
  localAddress :: string
  localPort :: "jsnum option"
  remoteAddress :: string
  remotePort :: "jsnum option"
  state :: string
  pid :: "jsnum option"
  processName :: "string option"
  owner :: "string option"

subsection \<open>Windows: netstat -ano\<close>

definition E_acute :: char where
  \<comment> \<open>U+00C9\<close>
  "E_acute = CHR 0xC9"

definition normalize_line :: "string \<Rightarrow> string" where
  \<comment> \<open>the chain of \<open>replace\<close> calls, in the order of the source\<close>
  "normalize_line line =
     replace_wb (lit ''FERM'' @ [[E_acute, CHR ''E'']] @ lit ''E'') ''CLOSED''
       (replace_wb (lit ''ECOUTE'') ''LISTENING''
         (replace_wb ([[E_acute]] @ lit ''COUTE'') ''LISTENING''
           (replace_wb ([[E_acute, CHR ''E'']] @ lit ''tat'') ''State''
             (replace_wb (lit ''Adresse distante'') ''Foreign Address''
               (replace_wb (lit ''Adresse locale'') ''Local Address''
                 (replace_prefix (lit ''Connexions actives'') ''Active Connections'' line))))))"

definition has_proto_token :: "string \<Rightarrow> bool" where
  \<comment> \<open>\<open>/\b(TCP|UDP)\b/i.test(l)\<close>\<close>
  "has_proto_token l = (search_wb [lit ''TCP'', lit ''UDP''] None l 0 \<noteq> None)"

definition or_null :: "jsnum \<Rightarrow> jsnum option" where
  \<comment> \<open>\<open>n || null\<close>\<close>
  "or_null n = (if truthy_num n then Some n else None)"

definition windows_line :: "string \<Rightarrow> conn list" where
  \<comment> \<open>the body of the loop over the data lines: the records it pushes\<close>
  "windows_line line =
     (let parts = split_on (CHR '' '') (collapse_ws line);
          proto = toUpperCase (hd parts)
      in if proto = ''TCP'' \<and> length parts \<ge> 5 then
           (let local = parts ! 1; remote = parts ! 2; st = parts ! 3; pd = parts ! 4;
                (localAddress, localPort) = splitHostPort local;
                (remoteAddress, remotePort) = splitHostPort remote
            in [\<lparr> key = proto @ ''|'' @ local @ ''|'' @ remote @ ''|'' @ pd,
                  protocol = ''TCP'',
                  localAddress = localAddress, localPort = localPort,
                  remoteAddress = remoteAddress, remotePort = remotePort,
                  state = toUpperCase st,
                  pid = or_null (Number_js pd),
                  processName = None,
                  owner = None \<rparr>])
         else if proto = ''UDP'' \<and> length parts \<ge> 4 then
           (let local = parts ! 1; remote = parts ! 2; pd = parts ! 3;
                (localAddress, localPort) = splitHostPort local;
                (remoteAddress, remotePort) = splitHostPort remote
            in [\<lparr> key = proto @ ''|'' @ local @ ''|'' @ remote @ ''|'' @ pd,
                  protocol = ''UDP'',
                  localAddress = localAddress, localPort = localPort,
                  remoteAddress = remoteAddress, remotePort = remotePort,
                  state = ''UNSPECIFIED'',
                  pid = or_null (Number_js pd),
                  processName = None,
                  owner = None \<rparr>])
         else [])"

definition parseWindowsNetstat :: "string \<Rightarrow> conn list" where
  "parseWindowsNetstat text =
     (let lines = filter (\<lambda>l. l \<noteq> []) (map trim (split_lines text));
          normalized = map normalize_line lines;
          dataLines = filter has_proto_token normalized
      in concat (map windows_line dataLines))"

subsection \<open>Number to text\<close>

function dec_length :: "int \<Rightarrow> int" where
  \<comment> \<open>the number of decimal digits of a positive integer\<close>
  "dec_length n = (if n \<le> 0 then 0 else 1 + dec_length (n div 10))"
  by pat_completeness auto
termination
  by (relation "measure nat") auto

declare dec_length.simps [simp del]

function digits_of :: "int \<Rightarrow> string" where
  \<comment> \<open>the decimal digits of a natural number\<close>
  "digits_of n =
     (if n < 10 then [char_of (48 + nat n)]
      else digits_of (n div 10) @ [char_of (48 + nat (n mod 10))])"
  by pat_completeness auto
termination
  by (relation "measure nat") auto

declare digits_of.simps [simp del]

definition pow10 :: "int \<Rightarrow> rat" where
  "pow10 e = (if 0 \<le> e then 10 ^ nat e else 1 / 10 ^ nat (- e))"

definition dec_exponent :: "rat \<Rightarrow> int" where
  \<comment> \<open>for \<open>a > 0\<close>: the \<open>n\<close> with \<open>10^(n-1) \<le> a < 10^n\<close>\<close>
  "dec_exponent a =
     (let (p, q) = quotient_of a;
          e = dec_length p - dec_length q
      in if pow10 e \<le> a then e + 1 else e)"

fun shortest_digits :: "nat \<Rightarrow> int \<Rightarrow> rat \<Rightarrow> int \<Rightarrow> int \<times> int \<times> int" where
  \<comment> \<open>\<open>shortest_digits fuel k a n\<close>: the least \<open>k' \<ge> k\<close> and the \<open>s\<close> with \<open>k'\<close> digits
      for which \<open>s * 10^(n' - k')\<close> rounds to the double \<open>a\<close>, nearest to \<open>a\<close> (the even
      \<open>s\<close> on a tie), as \<open>(s, k', n')\<close>; seventeen digits always suffice\<close>
  "shortest_digits 0 k a n = (\<lfloor>a / pow10 (n - k)\<rfloor>, k, n)"
| "shortest_digits (Suc fuel) k a n =
     (let sc = pow10 (n - k);
          lo = \<lfloor>a / sc\<rfloor>;
          hi = lo + 1;
          ok_lo = (round_double (of_int lo * sc) = Num a);
          ok_hi = (round_double (of_int hi * sc) = Num a);
          pick_hi = (ok_hi \<and> (\<not> ok_lo \<or> of_int hi * sc - a < a - of_int lo * sc
                              \<or> (of_int hi * sc - a = a - of_int lo * sc \<and> odd lo)))
      in if \<not> ok_lo \<and> \<not> ok_hi then shortest_digits fuel (k + 1) a n
         else if \<not> pick_hi then (lo, k, n)
         else if hi = 10 ^ nat k then (10 ^ nat (k - 1), k, n + 1)
         else (hi, k, n))"

definition toString_pos :: "rat \<Rightarrow> string" where
  \<comment> \<open>\<open>Number::toString\<close> in radix 10 for a positive finite double\<close>
  "toString_pos a =
     (let (s, k, n) = shortest_digits 17 1 a (dec_exponent a);
          ds = digits_of s
      in if k \<le> n \<and> n \<le> 21 then ds @ replicate (nat (n - k)) (CHR ''0'')
         else if 0 < n \<and> n \<le> 21 then take (nat n) ds @ ''.'' @ drop (nat n) ds
         else if - 6 < n \<and> n \<le> 0 then ''0.'' @ replicate (nat (- n)) (CHR ''0'') @ ds
         else (if k = 1 then ds else take 1 ds @ ''.'' @ drop 1 ds)
              @ ''e'' @ (if 0 \<le> n - 1 then ''+'' else ''-'') @ digits_of \<bar>n - 1\<bar>)"

definition Number_toString :: "jsnum \<Rightarrow> string" where
  \<comment> \<open>a number inside a template literal\<close>
  "Number_toString x =
     (case x of
        NaN \<Rightarrow> ''NaN''
      | PosInf \<Rightarrow> ''Infinity''
      | NegInf \<Rightarrow> ''-Infinity''
      | Num q \<Rightarrow> if q = 0 then ''0''
                 else if q < 0 then ''-'' @ toString_pos (- q) else toString_pos q)"

subsection \<open>Linux: ss -tunap\<close>

definition notSpace :: "char \<Rightarrow> bool" where
  \<comment> \<open>the class \<open>\S\<close>\<close>
  "notSpace c = (\<not> isSpace c)"

definition is_netid_header :: "string \<Rightarrow> bool" where
  \<comment> \<open>\<open>/^\s*Netid\s+/i.test(l)\<close>\<close>
  "is_netid_header l =
     (let r = dropWhile isSpace l
      in if match_here (lit ''Netid'') r then (drop 5 r \<noteq> [] \<and> isSpace (hd (drop 5 r)))
         else False)"

definition token :: "string \<Rightarrow> (string \<times> string) option" where
  \<comment> \<open>\<open>(\S+)\s+\<close> at the start of the text: the token and what follows the white space\<close>
  "token s =
     (let t = takeWhile notSpace s; r = dropWhile notSpace s
      in if t \<noteq> [] \<and> r \<noteq> [] then Some (t, dropWhile isSpace r) else None)"

fun last_close :: "string \<Rightarrow> nat \<Rightarrow> nat option \<Rightarrow> nat option" where
  \<comment> \<open>the last index \<open>j \<ge> 1\<close> at which \<open>))\<close> stands, \<open>i\<close> being the index of the head\<close>
  "last_close [] i best = best"
| "last_close (c # cs) i best =
     last_close cs (Suc i) (if 0 < i \<and> starts_with ''))'' (c # cs) then Some i else best)"

definition users_group :: "string \<Rightarrow> string option" where
  \<comment> \<open>\<open>(?:\s+users:\(\((.+)\)\))?\<close> after the remote address: group 5. The greedy
      \<open>.+\<close> stays on the line and gives back as little as it must.\<close>
  "users_group r =
     (if r \<noteq> [] \<and> isSpace (hd r) then
        (let r1 = dropWhile isSpace r
         in if match_here (lit ''users:(('') r1 then
              (let d = takeWhile (\<lambda>c. \<not> isLineTerminator c) (drop 8 r1)
               in (case last_close d 0 None of None \<Rightarrow> None | Some j \<Rightarrow> Some (take j d)))
            else None)
      else None)"

definition ss_match :: "string \<Rightarrow> (string \<times> string \<times> string \<times> string \<times> string option) option" where
  \<comment> \<open>the groups 1 to 5 of
      \<open>/^(tcp|udp)\s+(\S+)\s+\S+\s+\S+\s+(\S+)\s+(\S+)(?:\s+users:\(\((.+)\)\))?/i\<close>\<close>
  "ss_match line =
     (if (match_here (lit ''tcp'') line \<or> match_here (lit ''udp'') line)
         \<and> drop 3 line \<noteq> [] \<and> isSpace (hd (drop 3 line)) then
        (let m1 = take 3 line; r1 = dropWhile isSpace (drop 3 line)
         in (case token r1 of
               None \<Rightarrow> None
             | Some (m2, r2) \<Rightarrow>
                (case token r2 of
                   None \<Rightarrow> None
                 | Some (recvq, r3) \<Rightarrow>
                    (case token r3 of
                       None \<Rightarrow> None
                     | Some (sendq, r4) \<Rightarrow>
                        (case token r4 of
                           None \<Rightarrow> None
                         | Some (m3, r5) \<Rightarrow>
                            (let m4 = takeWhile notSpace r5
                             in if m4 = [] then None
                                else Some (m1, m2, m3, m4,
                                           users_group (dropWhile notSpace r5))))))))
      else None)"

fun users_match :: "string \<Rightarrow> (string \<times> string) option" where
  \<comment> \<open>\<open>users.match(/"([^"]+)"[,)]\s*pid=(\d+)/)\<close>: the leftmost match, groups 1 and 2\<close>
  "users_match [] = None"
| "users_match (c # cs) =
     (let nm = takeWhile (\<lambda>x. x \<noteq> CHR 0x22) cs;
          r = dropWhile (\<lambda>x. x \<noteq> CHR 0x22) cs;
          r2 = dropWhile isSpace (drop 2 r);
          ds = takeWhile isDigit (drop 4 r2)
      in if c = CHR 0x22 \<and> nm \<noteq> [] \<and> r \<noteq> []
            \<and> (take 1 (drop 1 r) = '','' \<or> take 1 (drop 1 r) = '')'')
            \<and> starts_with ''pid='' r2 \<and> ds \<noteq> []
         then Some (nm, ds) else users_match cs)"

definition pid_text :: "jsnum option \<Rightarrow> string" where
  \<comment> \<open>\<open>${pid ?? ''}\<close>\<close>
  "pid_text p = (case p of None \<Rightarrow> [] | Some n \<Rightarrow> Number_toString n)"

definition ss_line :: "string \<Rightarrow> conn list" where
  \<comment> \<open>the body of the loop: the records it pushes\<close>
  "ss_line line =
     (case ss_match line of
        None \<Rightarrow> []
      | Some (m1, m2, m3, m4, m5) \<Rightarrow>
          (let protocol = toUpperCase m1;
               state = toUpperCase m2;
               local = m3;
               remote = m4;
               users = (case m5 of None \<Rightarrow> [] | Some u \<Rightarrow> u);
               (localAddress, localPort) = splitHostPort local;
               (remoteAddress, remotePort) = splitHostPort remote;
               u = users_match users;
               pid = (case u of None \<Rightarrow> None | Some (nm, ds) \<Rightarrow> Some (Number_js ds));
               processName = (case u of None \<Rightarrow> None | Some (nm, ds) \<Rightarrow> Some nm)
           in [\<lparr> key = protocol @ ''|'' @ local @ ''|'' @ remote @ ''|'' @ pid_text pid,
                 protocol = protocol,
                 localAddress = localAddress, localPort = localPort,
                 remoteAddress = remoteAddress, remotePort = remotePort,
                 state = state,
                 pid = pid,
                 processName = processName,
                 owner = None \<rparr>]))"

definition parseLinuxSS :: "string \<Rightarrow> conn list" where
  "parseLinuxSS text =
     (let lines = filter (\<lambda>l. l \<noteq> []) (split_lines text);
          data = filter (\<lambda>l. \<not> is_netid_header l) lines
      in concat (map ss_line data))"

subsection \<open>macOS and Linux fallback: lsof -nP -i\<close>

fun indexOf_text :: "string \<Rightarrow> string \<Rightarrow> nat \<Rightarrow> int" where
  \<comment> \<open>\<open>s.indexOf(t)\<close>: the first index at which the text \<open>t\<close> stands, or -1\<close>
  "indexOf_text t [] i = (if t = [] then int i else - 1)"
| "indexOf_text t (c # cs) i =
     (if starts_with t (c # cs) then int i else indexOf_text t cs (Suc i))"

definition head_match :: "string \<Rightarrow> (string \<times> string \<times> string) option" where
  \<comment> \<open>\<open>line.match(/^(\S+)\s+(\d+)\s+(\S+)/)\<close>: groups 1 to 3\<close>
  "head_match line =
     (case token line of
        None \<Rightarrow> None
      | Some (m1, r1) \<Rightarrow>
          (let m2 = takeWhile isDigit r1;
               r2 = dropWhile isDigit r1;
               m3 = takeWhile notSpace (dropWhile isSpace r2)
           in if m2 \<noteq> [] \<and> r2 \<noteq> [] \<and> isSpace (hd r2) \<and> m3 \<noteq> []
              then Some (m1, m2, m3) else None))"

fun state_search :: "string \<Rightarrow> nat \<Rightarrow> (nat \<times> string) option" where
  \<comment> \<open>\<open>/\(([^)]+)\)\s*$/\<close>: the index of the leftmost match and group 1\<close>
  "state_search [] i = None"
| "state_search (c # cs) i =
     (let g = takeWhile (\<lambda>x. x \<noteq> CHR 0x29) cs;
          r = dropWhile (\<lambda>x. x \<noteq> CHR 0x29) cs
      in if c = CHR 0x28 \<and> g \<noteq> [] \<and> r \<noteq> [] \<and> list_all isSpace (tl r)
         then Some (i, g) else state_search cs (Suc i))"

function split_arrow :: "string \<Rightarrow> string list" where
  \<comment> \<open>\<open>s.split('->')\<close>\<close>
  "split_arrow [] = [[]]"
| "split_arrow (c # cs) =
     (if starts_with ''->'' (c # cs) then [] # split_arrow (drop 1 cs)
      else (case split_arrow cs of y # ys \<Rightarrow> (c # y) # ys | [] \<Rightarrow> [[c]]))"
  by pat_completeness auto
termination
  by (relation "measure length") auto

definition after_proto :: "string \<Rightarrow> string \<Rightarrow> string" where
  \<comment> \<open>\<open>line.slice(line.indexOf(protoM[0]) + protoM[0].length).trim()\<close>\<close>
  "after_proto line protoM0 =
     trim (drop (nat (indexOf_text protoM0 line 0) + length protoM0) line)"

definition lsof_state :: "string \<Rightarrow> string \<Rightarrow> string" where
  \<comment> \<open>the state in parentheses at the end, or the default of the protocol\<close>
  "lsof_state proto afterProto =
     (case state_search afterProto 0 of
        Some (j, g) \<Rightarrow> toUpperCase g
      | None \<Rightarrow> if proto = ''UDP'' then ''UNSPECIFIED'' else ''UNKNOWN'')"

definition lsof_arrow :: "string \<Rightarrow> string" where
  \<comment> \<open>\<open>afterProto.replace(/\([^)]+\)\s*$/, '').trim()\<close>\<close>
  "lsof_arrow afterProto =
     trim (case state_search afterProto 0 of
             Some (j, g) \<Rightarrow> take j afterProto
           | None \<Rightarrow> afterProto)"

definition lsof_local :: "string \<Rightarrow> string" where
  "lsof_local arrow =
     (if indexOf_text ''->'' arrow 0 \<noteq> - 1 then trim (split_arrow arrow ! 0) else trim arrow)"

definition lsof_remote :: "string \<Rightarrow> string" where
  "lsof_remote arrow =
     (if indexOf_text ''->'' arrow 0 \<noteq> - 1 then trim (split_arrow arrow ! 1) else ''*:*'')"

definition lsof_line :: "string \<Rightarrow> conn list" where
  \<comment> \<open>the body of the loop: the records it pushes\<close>
  "lsof_line line =
     (case search_wb [lit ''TCP'', lit ''UDP''] None line 0 of
        None \<Rightarrow> []
      | Some (i, n) \<Rightarrow>
          (let protoM0 = take n (drop i line);
               protocol = toUpperCase protoM0;
               headM = head_match line;
               pid = (case headM of None \<Rightarrow> None | Some (m1, m2, m3) \<Rightarrow> Some (Number_js m2));
               owner = (case headM of None \<Rightarrow> None | Some (m1, m2, m3) \<Rightarrow> Some m3);
               afterProto = after_proto line protoM0;
               state = lsof_state protocol afterProto;
               arrow = lsof_arrow afterProto;
               local = lsof_local arrow;
               remote = lsof_remote arrow;
               (localAddress, localPort) = splitHostPort local;
               (remoteAddress, remotePort) = splitHostPort remote;
               processName = (if takeWhile notSpace line \<noteq> [] then Some (takeWhile notSpace line)
                              else None)
           in [\<lparr> key = protocol @ ''|'' @ local @ ''|'' @ remote @ ''|'' @ pid_text pid,
                 protocol = protocol,
                 localAddress = localAddress, localPort = localPort,
                 remoteAddress = remoteAddress, remotePort = remotePort,
                 state = state,
                 pid = pid,
                 processName = processName,
                 owner = owner \<rparr>]))"

definition parseLsof :: "string \<Rightarrow> conn list" where
  "parseLsof text =
     (let lines = filter (\<lambda>l. l \<noteq> []) (split_lines text)
      in concat (map lsof_line lines))"

section \<open>Streaming scan engine (js/syslib_ports.js)\<close>

definition ports_match_bracket :: "string \<Rightarrow> (string \<times> string) option" where
  \<comment> \<open>\<open>addr.match(/^\[(.+)\]:(\d+)$/)\<close>: the digits are the longest run at the end, and
      \<open>.+\<close> is what stands between the opening bracket and the \<open>]:\<close> before them\<close>
  "ports_match_bracket addr =
     (case addr of
        [] \<Rightarrow> None
      | c # r \<Rightarrow>
          (let d = rev (takeWhile isDigit (rev r));
               pre = take (length r - length d) r;
               x = take (length pre - 2) pre
           in if c = CHR ''['' \<and> d \<noteq> [] \<and> drop (length pre - 2) pre = '']:'' \<and> x \<noteq> []
                 \<and> list_all (\<lambda>y. \<not> isLineTerminator y) x
              then Some (x, d) else None))"

definition ports_splitHostPort :: "string \<Rightarrow> string \<times> jsnum" where
  \<comment> \<open>\<open>splitHostPort\<close> of js/syslib_ports.js: the port is a number or \<open>NaN\<close>\<close>
  "ports_splitHostPort addr =
     (if addr = [] then ([], NaN)
      else (case ports_match_bracket addr of
              Some (h, d) \<Rightarrow> (h, Number_js d)
            | None \<Rightarrow>
                (let idx = lastIndexOf addr (CHR '':'')
                 in if idx = - 1 then (addr, NaN)
                    else (let host = take (nat idx) addr;
                              port = Number_js (drop (nat (idx + 1)) addr)
                          in (host, if isFinite port then port else NaN)))))"

record entry =
  entry_protocol :: string
  entry_localAddress :: string
  entry_localPort :: jsnum
  entry_foreignAddress :: string
  entry_foreignPort :: jsnum
  entry_state :: string
  entry_pid :: "jsnum option"
  entry_processName :: string

record scan_state =
  entries :: "entry list"
  leftover :: string
  parsedCount :: nat
  estimateTotal :: nat
  progress :: "(nat \<times> nat) list"

text \<open>
  \<open>progress\<close> is the sequence of calls \<open>progressCb(current, total)\<close> made so far, for a
  scan that was given a callback. \<open>pidMap\<close> is the table that \<open>buildPidMapWindows\<close>
  resolved to before the scan started. This section has the handlers on the decoded text
  of the chunks, for what holds of the records whatever that text is; the section after
  it has them on the Buffers, with the decoding.
\<close>

definition clamp_maxPort :: "jsnum \<Rightarrow> rat" where
  \<comment> \<open>the first two statements of \<open>scanPorts\<close>\<close>
  "clamp_maxPort maxPort =
     (let m = (case maxPort of Num q \<Rightarrow> q | _ \<Rightarrow> 65535)
      in min 65535 (max 1 (of_int \<lfloor>m\<rfloor>)))"

definition part_or :: "string list \<Rightarrow> nat \<Rightarrow> string \<Rightarrow> string" where
  \<comment> \<open>\<open>parts[i] || d\<close>\<close>
  "part_or parts i d = (if i < length parts \<and> parts ! i \<noteq> [] then parts ! i else d)"

definition port_within :: "jsnum \<Rightarrow> rat \<Rightarrow> bool" where
  \<comment> \<open>\<open>Number.isFinite(localPort) && localPort <= maxPort\<close>\<close>
  "port_within p maxPort = (case p of Num q \<Rightarrow> q \<le> maxPort | _ \<Rightarrow> False)"

definition test_proto_prefix :: "string \<Rightarrow> bool" where
  \<comment> \<open>\<open>/^(TCP|UDP)\s+/i.test(line)\<close>\<close>
  "test_proto_prefix line =
     (if match_here (lit ''TCP'') line \<or> match_here (lit ''UDP'') line
      then (drop 3 line \<noteq> [] \<and> isSpace (hd (drop 3 line))) else False)"

definition parse_record :: "rat \<Rightarrow> (jsnum \<rightharpoonup> string) \<Rightarrow> string \<Rightarrow> scan_state \<Rightarrow> scan_state" where
  \<comment> \<open>from \<open>line.split(/\s+/)\<close> to the end of the UDP branch, on a trimmed line that
      passed the prefix test; the \<open>end\<close> handler repeats these statements\<close>
  "parse_record maxPort pidMap line st =
     (let parts = split_ws line;
          protocol = toUpperCase (hd parts)
      in if protocol = ''TCP'' \<and> length parts \<ge> 5 then
           (let local = part_or parts 1 [];
                foreign = part_or parts 2 [];
                state = part_or parts 3 [];
                pid = parseInt10 (parts ! 4);
                (localAddress, localPort) = ports_splitHostPort local;
                (foreignAddress, foreignPort) = ports_splitHostPort foreign;
                st1 = st\<lparr>parsedCount := parsedCount st + 1\<rparr>
            in if port_within localPort maxPort then
                 st1\<lparr>entries := entries st1 @
                   [\<lparr> entry_protocol = protocol,
                      entry_localAddress = localAddress,
                      entry_localPort = localPort,
                      entry_foreignAddress = foreignAddress,
                      entry_foreignPort = foreignPort,
                      entry_state = state,
                      entry_pid = (if isNaN pid then None else Some pid),
                      entry_processName =
                        (if isNaN pid then []
                         else (case pidMap pid of None \<Rightarrow> [] | Some nm \<Rightarrow> nm)) \<rparr>]\<rparr>
               else st1)
         else if protocol = ''UDP'' then
           (let possiblePid = last parts;
                pid = parseInt10 possiblePid;
                local = part_or parts 1 [];
                foreign = part_or parts 2 ''*:*'';
                (localAddress, localPort) = ports_splitHostPort local;
                (foreignAddress, foreignPort) = ports_splitHostPort foreign;
                st1 = st\<lparr>parsedCount := parsedCount st + 1\<rparr>
            in if port_within localPort maxPort then
                 st1\<lparr>entries := entries st1 @
                   [\<lparr> entry_protocol = protocol,
                      entry_localAddress = localAddress,
                      entry_localPort = localPort,
                      entry_foreignAddress = foreignAddress,
                      entry_foreignPort = foreignPort,
                      entry_state = [],
                      entry_pid = (if isNaN pid then None else Some pid),
                      entry_processName =
                        (if isNaN pid then []
                         else (case pidMap pid of None \<Rightarrow> [] | Some nm \<Rightarrow> nm)) \<rparr>]\<rparr>
               else st1)
         else st)"

definition maybeProgress :: "scan_state \<Rightarrow> scan_state" where
  \<comment> \<open>\<open>progressCb(parsedCount, Math.max(parsedCount + 1, estimateTotal))\<close>\<close>
  "maybeProgress st =
     st\<lparr>progress := progress st @ [(parsedCount st, max (parsedCount st + 1) (estimateTotal st))]\<rparr>"

definition data_line :: "rat \<Rightarrow> (jsnum \<rightharpoonup> string) \<Rightarrow> scan_state \<Rightarrow> string \<Rightarrow> scan_state" where
  \<comment> \<open>the body of the loop over the complete lines of a chunk\<close>
  "data_line maxPort pidMap st raw =
     (let line = trim raw
      in if line = [] \<or> \<not> test_proto_prefix line then st
         else (let st1 = parse_record maxPort pidMap line st
               in if parsedCount st1 mod 25 = 0 then
                    maybeProgress
                      (st1\<lparr>estimateTotal := max (estimateTotal st1) (parsedCount st1 + 50)\<rparr>)
                  else st1))"

definition on_data :: "rat \<Rightarrow> (jsnum \<rightharpoonup> string) \<Rightarrow> scan_state \<Rightarrow> string \<Rightarrow> scan_state" where
  \<comment> \<open>the \<open>data\<close> handler on the text of a chunk, \<open>buf\<close> being the chunk once decoded;
      \<open>on_data16\<close> below is the handler on the Buffer itself\<close>
  "on_data maxPort pidMap st buf =
     (let chunk = leftover st @ buf;
          lines = split_lines chunk
      in foldl (data_line maxPort pidMap) (st\<lparr>leftover := last lines\<rparr>) (butlast lines))"

definition localeCompare_le :: "string \<Rightarrow> string \<Rightarrow> bool" where
  \<comment> \<open>\<open>a.localeCompare(b) <= 0\<close> for the two protocol names, the only values compared\<close>
  "localeCompare_le a b = (a = b \<or> (a = ''TCP'' \<and> b = ''UDP''))"

definition entry_le :: "entry \<Rightarrow> entry \<Rightarrow> bool" where
  \<comment> \<open>the comparator \<open>(a.localPort - b.localPort) || a.protocol.localeCompare(b.protocol)\<close>
      is not positive; both ports are finite\<close>
  "entry_le a b =
     (case (entry_localPort a, entry_localPort b) of
        (Num p, Num q) \<Rightarrow>
          p < q \<or> (p = q \<and> localeCompare_le (entry_protocol a) (entry_protocol b))
      | _ \<Rightarrow> True)"

fun insert_entry :: "entry \<Rightarrow> entry list \<Rightarrow> entry list" where
  "insert_entry x [] = [x]"
| "insert_entry x (y # ys) = (if entry_le x y then x # y # ys else y # insert_entry x ys)"

fun sort_entries :: "entry list \<Rightarrow> entry list" where
  \<comment> \<open>\<open>entries.sort(...)\<close>, a stable sort\<close>
  "sort_entries [] = []"
| "sort_entries (x # xs) = insert_entry x (sort_entries xs)"

definition on_end :: "rat \<Rightarrow> (jsnum \<rightharpoonup> string) \<Rightarrow> scan_state \<Rightarrow> scan_state" where
  \<comment> \<open>the \<open>end\<close> handler: the left-over line, the last notification, the sort\<close>
  "on_end maxPort pidMap st =
     (let st1 = (if trim (leftover st) \<noteq> [] then
                   (let line = trim (leftover st)
                    in if test_proto_prefix line then parse_record maxPort pidMap line st else st)
                 else st);
          st2 = st1\<lparr>progress := progress st1 @ [(parsedCount st1, parsedCount st1)]\<rparr>
      in st2\<lparr>entries := sort_entries (entries st2)\<rparr>)"

definition scan_init :: scan_state where
  "scan_init = \<lparr> entries = [], leftover = [], parsedCount = 0, estimateTotal = 200, progress = [] \<rparr>"

definition scanPorts :: "jsnum \<Rightarrow> (jsnum \<rightharpoonup> string) \<Rightarrow> string list \<Rightarrow> scan_state" where
  \<comment> \<open>the state when the promise resolves, the subprocess output having arrived as the
      chunks given, each already decoded: \<open>entries\<close> is the resolved list\<close>
  "scanPorts maxPort pidMap chunks =
     (let mp = clamp_maxPort maxPort
      in on_end mp pidMap (foldl (on_data mp pidMap) scan_init chunks))"

section \<open>The scan engine on the byte stream (js/syslib_ports.js)\<close>

text \<open>
  The \<open>data\<close> handler receives a Buffer and decodes it on its own, by
  \<open>buf.toString('utf8')\<close>, before the left-over text is put in front of it. Here a Buffer
  is a list of bytes and a decoded text is the list of its UTF-16 code units, so that the
  replacement character U+FFFD, which the decoder gives for a sequence that is ill-formed
  or cut short, can be written. The handlers are those of the section before, on such
  texts.
\<close>

type_synonym buffer = "char list"

type_synonym utf16 = "nat list"

fun utf8_decode :: "nat list \<Rightarrow> nat list" where
  \<comment> \<open>the code points of a sequence of bytes. A sequence that is ill-formed, or that the
      end cuts short, gives one U+FFFD for its longest well-formed start, and decoding goes
      on at the byte that broke it.\<close>
  "utf8_decode [] = []"
| "utf8_decode (b # bs) =
     (if b < 0x80 then b # utf8_decode bs
      else if 0xC2 \<le> b \<and> b \<le> 0xDF then
        (case bs of
           [] \<Rightarrow> [0xFFFD]
         | c1 # r1 \<Rightarrow>
             if 0x80 \<le> c1 \<and> c1 \<le> 0xBF
             then ((b - 0xC0) * 64 + (c1 - 0x80)) # utf8_decode r1
             else 0xFFFD # utf8_decode bs)
      else if 0xE0 \<le> b \<and> b \<le> 0xEF then
        (case bs of
           [] \<Rightarrow> [0xFFFD]
         | c1 # r1 \<Rightarrow>
             if (if b = 0xE0 then 0xA0 else 0x80) \<le> c1
                \<and> c1 \<le> (if b = 0xED then 0x9F else 0xBF) then
               (case r1 of
                  [] \<Rightarrow> [0xFFFD]
                | c2 # r2 \<Rightarrow>
                    if 0x80 \<le> c2 \<and> c2 \<le> 0xBF
                    then ((b - 0xE0) * 4096 + (c1 - 0x80) * 64 + (c2 - 0x80)) # utf8_decode r2
                    else 0xFFFD # utf8_decode r1)
             else 0xFFFD # utf8_decode bs)
      else if 0xF0 \<le> b \<and> b \<le> 0xF4 then
        (case bs of
           [] \<Rightarrow> [0xFFFD]
         | c1 # r1 \<Rightarrow>
             if (if b = 0xF0 then 0x90 else 0x80) \<le> c1
                \<and> c1 \<le> (if b = 0xF4 then 0x8F else 0xBF) then
               (case r1 of
                  [] \<Rightarrow> [0xFFFD]
                | c2 # r2 \<Rightarrow>
                    if 0x80 \<le> c2 \<and> c2 \<le> 0xBF then
                      (case r2 of
                         [] \<Rightarrow> [0xFFFD]
                       | c3 # r3 \<Rightarrow>
                           if 0x80 \<le> c3 \<and> c3 \<le> 0xBF
                           then ((b - 0xF0) * 262144 + (c1 - 0x80) * 4096 + (c2 - 0x80) * 64
                                 + (c3 - 0x80)) # utf8_decode r3
                           else 0xFFFD # utf8_decode r2)
                    else 0xFFFD # utf8_decode r1)
             else 0xFFFD # utf8_decode bs)
      else 0xFFFD # utf8_decode bs)"

definition utf16_units :: "nat \<Rightarrow> utf16" where
  \<comment> \<open>a code point as one code unit, or as a surrogate pair from U+10000 on\<close>
  "utf16_units cp =
     (if cp < 0x10000 then [cp]
      else [0xD800 + (cp - 0x10000) div 0x400, 0xDC00 + (cp - 0x10000) mod 0x400])"

definition toString_utf8 :: "buffer \<Rightarrow> utf16" where
  \<comment> \<open>\<open>buf.toString('utf8')\<close>\<close>
  "toString_utf8 buf = concat (map utf16_units (utf8_decode (map code buf)))"

definition str16 :: "string \<Rightarrow> utf16" where
  \<comment> \<open>a literal of the source as a text\<close>
  "str16 s = map code s"

definition isSpace16 :: "nat \<Rightarrow> bool" where
  \<comment> \<open>the class \<open>\s\<close>, which is also what \<open>trim\<close> removes: the white space and the line
      terminators of the language\<close>
  "isSpace16 u =
     (u = 0x09 \<or> u = 0x0A \<or> u = 0x0B \<or> u = 0x0C \<or> u = 0x0D \<or> u = 0x20 \<or> u = 0xA0
      \<or> u = 0x1680 \<or> (0x2000 \<le> u \<and> u \<le> 0x200A) \<or> u = 0x2028 \<or> u = 0x2029
      \<or> u = 0x202F \<or> u = 0x205F \<or> u = 0x3000 \<or> u = 0xFEFF)"

definition isLineTerminator16 :: "nat \<Rightarrow> bool" where
  \<comment> \<open>what \<open>.\<close> refuses: LF, CR, LS, PS\<close>
  "isLineTerminator16 u = (u = 0x0A \<or> u = 0x0D \<or> u = 0x2028 \<or> u = 0x2029)"

definition isDigit16 :: "nat \<Rightarrow> bool" where
  "isDigit16 u = (0x30 \<le> u \<and> u \<le> 0x39)"

definition isAscii :: "nat \<Rightarrow> bool" where
  "isAscii u = (u < 0x80)"

definition trim16 :: "utf16 \<Rightarrow> utf16" where
  "trim16 s = rev (dropWhile isSpace16 (rev (dropWhile isSpace16 s)))"

fun split_lines16 :: "utf16 \<Rightarrow> utf16 list" where
  \<comment> \<open>\<open>s.split(/\r?\n/)\<close>\<close>
  "split_lines16 [] = [[]]"
| "split_lines16 (x # xs) =
     (if x = 0x0A then [] # split_lines16 xs
      else if x = 0x0D \<and> xs \<noteq> [] \<and> hd xs = 0x0A then [] # split_lines16 (tl xs)
      else (case split_lines16 xs of y # ys \<Rightarrow> (x # y) # ys | [] \<Rightarrow> [[x]]))"

function split_ws16 :: "utf16 \<Rightarrow> utf16 list" where
  \<comment> \<open>\<open>s.split(/\s+/)\<close>\<close>
  "split_ws16 [] = [[]]"
| "split_ws16 (c # cs) =
     (if isSpace16 c then [] # split_ws16 (dropWhile isSpace16 cs)
      else (case split_ws16 cs of y # ys \<Rightarrow> (c # y) # ys | [] \<Rightarrow> [[c]]))"
  by pat_completeness auto
termination
  by (relation "measure length") (auto simp: le_imp_less_Suc length_dropWhile_le)

definition upper_ascii :: "nat \<Rightarrow> nat" where
  \<comment> \<open>the capital of an ASCII letter; any other unit below 128 is left as it is\<close>
  "upper_ascii u = (if 0x61 \<le> u \<and> u \<le> 0x7A then u - 0x20 else u)"

definition toUpperCase16 :: "utf16 \<Rightarrow> utf16" where
  \<comment> \<open>\<open>s.toUpperCase()\<close> for a text of ASCII units, which the protocol token is: the
      prefix test has matched its three letters. Units from 128 on are left as they
      are.\<close>
  "toUpperCase16 s = map upper_ascii s"

definition test_proto_prefix16 :: "utf16 \<Rightarrow> bool" where
  \<comment> \<open>\<open>/^(TCP|UDP)\s+/i.test(line)\<close>: under the \<open>i\<close> flag a letter of the pattern
      matches itself and its small letter, and no unit from 128 on\<close>
  "test_proto_prefix16 line =
     (if map upper_ascii (take 3 line) = str16 ''TCP'' \<or> map upper_ascii (take 3 line) = str16 ''UDP''
      then (drop 3 line \<noteq> [] \<and> isSpace16 (hd (drop 3 line))) else False)"

definition Number16 :: "utf16 \<Rightarrow> jsnum" where
  \<comment> \<open>\<open>Number(s)\<close>: white space is trimmed; a numeric literal has ASCII units only\<close>
  "Number16 s =
     (let t = trim16 s
      in if list_all isAscii t then Number_js (map char_of t) else NaN)"

definition parseInt16 :: "utf16 \<Rightarrow> jsnum" where
  \<comment> \<open>\<open>parseInt(s, 10)\<close>: leading white space, an optional sign, then the longest run of
      decimal digits, all of them ASCII units\<close>
  "parseInt16 s = parseInt10 (map char_of (takeWhile isAscii (dropWhile isSpace16 s)))"

fun lastIndexOf16_from :: "nat \<Rightarrow> int \<Rightarrow> nat \<Rightarrow> utf16 \<Rightarrow> int" where
  "lastIndexOf16_from i best c [] = best"
| "lastIndexOf16_from i best c (x # xs) =
     lastIndexOf16_from (Suc i) (if x = c then int i else best) c xs"

definition lastIndexOf16 :: "utf16 \<Rightarrow> nat \<Rightarrow> int" where
  \<comment> \<open>\<open>s.lastIndexOf(c)\<close> for a one-unit \<open>c\<close>: the last index, or -1\<close>
  "lastIndexOf16 s c = lastIndexOf16_from 0 (-1) c s"

definition ports_match_bracket16 :: "utf16 \<Rightarrow> (utf16 \<times> utf16) option" where
  \<comment> \<open>\<open>addr.match(/^\[(.+)\]:(\d+)$/)\<close>\<close>
  "ports_match_bracket16 addr =
     (case addr of
        [] \<Rightarrow> None
      | c # r \<Rightarrow>
          (let d = rev (takeWhile isDigit16 (rev r));
               pre = take (length r - length d) r;
               x = take (length pre - 2) pre
           in if c = 0x5B \<and> d \<noteq> [] \<and> drop (length pre - 2) pre = str16 '']:'' \<and> x \<noteq> []
                 \<and> list_all (\<lambda>y. \<not> isLineTerminator16 y) x
              then Some (x, d) else None))"

definition ports_splitHostPort16 :: "utf16 \<Rightarrow> utf16 \<times> jsnum" where
  \<comment> \<open>\<open>splitHostPort\<close> of js/syslib_ports.js\<close>
  "ports_splitHostPort16 addr =
     (if addr = [] then ([], NaN)
      else (case ports_match_bracket16 addr of
              Some (h, d) \<Rightarrow> (h, Number16 d)
            | None \<Rightarrow>
                (let idx = lastIndexOf16 addr 0x3A
                 in if idx = - 1 then (addr, NaN)
                    else (let host = take (nat idx) addr;
                              port = Number16 (drop (nat (idx + 1)) addr)
                          in (host, if isFinite port then port else NaN)))))"

record entry16 =
  protocol16 :: utf16
  localAddress16 :: utf16
  localPort16 :: jsnum
  foreignAddress16 :: utf16
  foreignPort16 :: jsnum
  state16 :: utf16
  pid16 :: "jsnum option"
  processName16 :: utf16

record scan_state16 =
  entries16 :: "entry16 list"
  leftover16 :: utf16
  parsedCount16 :: nat
  estimateTotal16 :: nat
  progress16 :: "(nat \<times> nat) list"

definition part_or16 :: "utf16 list \<Rightarrow> nat \<Rightarrow> utf16 \<Rightarrow> utf16" where
  \<comment> \<open>\<open>parts[i] || d\<close>\<close>
  "part_or16 parts i d = (if i < length parts \<and> parts ! i \<noteq> [] then parts ! i else d)"

definition parse_record16 ::
  "rat \<Rightarrow> (jsnum \<rightharpoonup> utf16) \<Rightarrow> utf16 \<Rightarrow> scan_state16 \<Rightarrow> scan_state16" where
  \<comment> \<open>from \<open>line.split(/\s+/)\<close> to the end of the UDP branch, on a trimmed line that
      passed the prefix test; the \<open>end\<close> handler repeats these statements\<close>
  "parse_record16 maxPort pidMap line st =
     (let parts = split_ws16 line;
          protocol = toUpperCase16 (hd parts)
      in if protocol = str16 ''TCP'' \<and> length parts \<ge> 5 then
           (let local = part_or16 parts 1 [];
                foreign = part_or16 parts 2 [];
                state = part_or16 parts 3 [];
                pid = parseInt16 (parts ! 4);
                (localAddress, localPort) = ports_splitHostPort16 local;
                (foreignAddress, foreignPort) = ports_splitHostPort16 foreign;
                st1 = st\<lparr>parsedCount16 := parsedCount16 st + 1\<rparr>
            in if port_within localPort maxPort then
                 st1\<lparr>entries16 := entries16 st1 @
                   [\<lparr> protocol16 = protocol,
                      localAddress16 = localAddress,
                      localPort16 = localPort,
                      foreignAddress16 = foreignAddress,
                      foreignPort16 = foreignPort,
                      state16 = state,
                      pid16 = (if isNaN pid then None else Some pid),
                      processName16 =
                        (if isNaN pid then []
                         else (case pidMap pid of None \<Rightarrow> [] | Some nm \<Rightarrow> nm)) \<rparr>]\<rparr>
               else st1)
         else if protocol = str16 ''UDP'' then
           (let possiblePid = last parts;
                pid = parseInt16 possiblePid;
                local = part_or16 parts 1 [];
                foreign = part_or16 parts 2 (str16 ''*:*'');
                (localAddress, localPort) = ports_splitHostPort16 local;
                (foreignAddress, foreignPort) = ports_splitHostPort16 foreign;
                st1 = st\<lparr>parsedCount16 := parsedCount16 st + 1\<rparr>
            in if port_within localPort maxPort then
                 st1\<lparr>entries16 := entries16 st1 @
                   [\<lparr> protocol16 = protocol,
                      localAddress16 = localAddress,
                      localPort16 = localPort,
                      foreignAddress16 = foreignAddress,
                      foreignPort16 = foreignPort,
                      state16 = [],
                      pid16 = (if isNaN pid then None else Some pid),
                      processName16 =
                        (if isNaN pid then []
                         else (case pidMap pid of None \<Rightarrow> [] | Some nm \<Rightarrow> nm)) \<rparr>]\<rparr>
               else st1)
         else st)"

definition maybeProgress16 :: "scan_state16 \<Rightarrow> scan_state16" where
  \<comment> \<open>\<open>progressCb(parsedCount, Math.max(parsedCount + 1, estimateTotal))\<close>\<close>
  "maybeProgress16 st =
     st\<lparr>progress16 := progress16 st
          @ [(parsedCount16 st, max (parsedCount16 st + 1) (estimateTotal16 st))]\<rparr>"

definition data_line16 ::
  "rat \<Rightarrow> (jsnum \<rightharpoonup> utf16) \<Rightarrow> scan_state16 \<Rightarrow> utf16 \<Rightarrow> scan_state16" where
  \<comment> \<open>the body of the loop over the complete lines of a chunk\<close>
  "data_line16 maxPort pidMap st raw =
     (let line = trim16 raw
      in if line = [] \<or> \<not> test_proto_prefix16 line then st
         else (let st1 = parse_record16 maxPort pidMap line st
               in if parsedCount16 st1 mod 25 = 0 then
                    maybeProgress16
                      (st1\<lparr>estimateTotal16 := max (estimateTotal16 st1) (parsedCount16 st1 + 50)\<rparr>)
                  else st1))"

definition on_data16 ::
  "rat \<Rightarrow> (jsnum \<rightharpoonup> utf16) \<Rightarrow> scan_state16 \<Rightarrow> buffer \<Rightarrow> scan_state16" where
  \<comment> \<open>the \<open>data\<close> handler of the subprocess output, on the Buffer it is given\<close>
  "on_data16 maxPort pidMap st buf =
     (let chunk = leftover16 st @ toString_utf8 buf;
          lines = split_lines16 chunk
      in foldl (data_line16 maxPort pidMap) (st\<lparr>leftover16 := last lines\<rparr>) (butlast lines))"

definition entry_le16 :: "entry16 \<Rightarrow> entry16 \<Rightarrow> bool" where
  \<comment> \<open>the comparator \<open>(a.localPort - b.localPort) || a.protocol.localeCompare(b.protocol)\<close>
      is not positive; both ports are finite, both protocols are \<open>TCP\<close> or \<open>UDP\<close>\<close>
  "entry_le16 a b =
     (case (localPort16 a, localPort16 b) of
        (Num p, Num q) \<Rightarrow>
          p < q \<or> (p = q \<and> (protocol16 a = protocol16 b
                             \<or> (protocol16 a = str16 ''TCP'' \<and> protocol16 b = str16 ''UDP'')))
      | _ \<Rightarrow> True)"

fun insert_entry16 :: "entry16 \<Rightarrow> entry16 list \<Rightarrow> entry16 list" where
  "insert_entry16 x [] = [x]"
| "insert_entry16 x (y # ys) =
     (if entry_le16 x y then x # y # ys else y # insert_entry16 x ys)"

fun sort_entries16 :: "entry16 list \<Rightarrow> entry16 list" where
  \<comment> \<open>\<open>entries.sort(...)\<close>, a stable sort\<close>
  "sort_entries16 [] = []"
| "sort_entries16 (x # xs) = insert_entry16 x (sort_entries16 xs)"

definition on_end16 ::
  "rat \<Rightarrow> (jsnum \<rightharpoonup> utf16) \<Rightarrow> scan_state16 \<Rightarrow> scan_state16" where
  \<comment> \<open>the \<open>end\<close> handler: the left-over line, the last notification, the sort\<close>
  "on_end16 maxPort pidMap st =
     (let st1 = (if trim16 (leftover16 st) \<noteq> [] then
                   (let line = trim16 (leftover16 st)
                    in if test_proto_prefix16 line then parse_record16 maxPort pidMap line st
                       else st)
                 else st);
          st2 = st1\<lparr>progress16 := progress16 st1 @ [(parsedCount16 st1, parsedCount16 st1)]\<rparr>
      in st2\<lparr>entries16 := sort_entries16 (entries16 st2)\<rparr>)"

definition scan_init16 :: scan_state16 where
  "scan_init16 =
     \<lparr> entries16 = [], leftover16 = [], parsedCount16 = 0, estimateTotal16 = 200,
       progress16 = [] \<rparr>"

definition scanPorts16 ::
  "jsnum \<Rightarrow> (jsnum \<rightharpoonup> utf16) \<Rightarrow> buffer list \<Rightarrow> scan_state16" where
  \<comment> \<open>the state when the promise resolves, the subprocess output having arrived as the
      Buffers given: \<open>entries16\<close> is the resolved list\<close>
  "scanPorts16 maxPort pidMap chunks =
     (let mp = clamp_maxPort maxPort
      in on_end16 mp pidMap (foldl (on_data16 mp pidMap) scan_init16 chunks))"

section \<open>Linux owner resolver (lib/owners.js)\<close>

text \<open>
  The file system is a partial map from paths to contents, \<open>None\<close> where the read throws,
  and the listing of \<open>/proc\<close>, \<open>None\<close> where it throws. An object used as a table is a
  partial map from the number that indexes it.
\<close>

record filesystem =
  files :: "string \<rightharpoonup> string"
  proc_dir :: "string list option"

definition readPasswd :: "filesystem \<Rightarrow> string" where
  "readPasswd fs = (case files fs ''/etc/passwd'' of Some txt \<Rightarrow> txt | None \<Rightarrow> [])"

fun split_backslash_nl :: "string \<Rightarrow> string list" where
  \<comment> \<open>\<open>s.split(/\\r?\\n/)\<close>, as the source escapes it: the separator is a backslash, an
      optional letter \<open>r\<close>, a backslash and the letter \<open>n\<close>\<close>
  "split_backslash_nl [] = [[]]"
| "split_backslash_nl (x # xs) =
     (if starts_with [CHR 0x5C, CHR ''r'', CHR 0x5C, CHR ''n''] (x # xs)
      then [] # split_backslash_nl (drop 3 xs)
      else if starts_with [CHR 0x5C, CHR 0x5C, CHR ''n''] (x # xs)
      then [] # split_backslash_nl (drop 2 xs)
      else (case split_backslash_nl xs of y # ys \<Rightarrow> (x # y) # ys | [] \<Rightarrow> [[x]]))"

definition passwd_line :: "(jsnum \<rightharpoonup> string) \<Rightarrow> string \<Rightarrow> (jsnum \<rightharpoonup> string)" where
  \<comment> \<open>the body of the loop of \<open>buildUidNameMap\<close>\<close>
  "passwd_line m line =
     (if line = [] \<or> starts_with ''#'' line then m
      else (let parts = split_on (CHR '':'') line
            in if length parts \<ge> 3 then
                 (let name = parts ! 0; uid = Number_js (parts ! 2)
                  in if isFinite uid then m(uid \<mapsto> name) else m)
               else m))"

definition buildUidNameMap :: "filesystem \<Rightarrow> (jsnum \<rightharpoonup> string)" where
  "buildUidNameMap fs = foldl passwd_line Map.empty (split_backslash_nl (readPasswd fs))"

fun uid_search :: "bool \<Rightarrow> string \<Rightarrow> string option" where
  \<comment> \<open>\<open>txt.match(/^Uid:\\s+(\\d+)/m)\<close>, as the source escapes it: at the start of a
      line, \<open>Uid:\<close>, a backslash, letters \<open>s\<close>, then group 1: a backslash and letters
      \<open>d\<close>. The flag says whether a line starts here.\<close>
  "uid_search bol [] = None"
| "uid_search bol (c # cs) =
     (let r = drop 5 (c # cs);
          r1 = dropWhile (\<lambda>x. x = CHR ''s'') r;
          ds = takeWhile (\<lambda>x. x = CHR ''d'') (drop 1 r1)
      in if bol \<and> starts_with (''Uid:'' @ [CHR 0x5C, CHR ''s'']) (c # cs)
            \<and> starts_with [CHR 0x5C, CHR ''d''] r1
         then Some (CHR 0x5C # ds)
         else uid_search (isLineTerminator c) cs)"

definition pidToUid :: "filesystem \<Rightarrow> jsnum \<Rightarrow> jsnum option" where
  \<comment> \<open>\<open>None\<close> is \<open>null\<close>\<close>
  "pidToUid fs p =
     (case files fs (''/proc/'' @ Number_toString p @ ''/status'') of
        None \<Rightarrow> None
      | Some txt \<Rightarrow> (case uid_search True txt of Some m1 \<Rightarrow> Some (Number_js m1) | None \<Rightarrow> None))"

definition owners_entry ::
  "filesystem \<Rightarrow> (jsnum \<rightharpoonup> string) \<Rightarrow> (jsnum \<rightharpoonup> string) \<Rightarrow> string \<Rightarrow> (jsnum \<rightharpoonup> string)" where
  \<comment> \<open>the body of the loop of \<open>ownersLinux\<close>\<close>
  "owners_entry fs uidName m name =
     (let pid = Number_js name
      in if \<not> isFinite pid then m
         else (case pidToUid fs pid of
                 None \<Rightarrow> m
               | Some uid \<Rightarrow>
                   (case uidName uid of
                      None \<Rightarrow> m
                    | Some nm \<Rightarrow> if nm \<noteq> [] then m(pid \<mapsto> nm) else m)))"

definition ownersLinux :: "filesystem \<Rightarrow> (jsnum \<rightharpoonup> string)" where
  "ownersLinux fs =
     (let uidName = buildUidNameMap fs;
          entries = (case proc_dir fs of Some es \<Rightarrow> es | None \<Rightarrow> [])
      in foldl (owners_entry fs uidName) Map.empty entries)"

section \<open>Auxiliary notions\<close>

definition clean :: "string \<Rightarrow> bool" where
  \<comment> \<open>a non-empty text with no white space at either end\<close>
  "clean s = (s \<noteq> [] \<and> \<not> isSpace (hd s) \<and> \<not> isSpace (last s))"

definition good_entry :: "rat \<Rightarrow> entry \<Rightarrow> bool" where
  \<comment> \<open>what the scan engine keeps: a finite local port within the bound, and no state
      for UDP\<close>
  "good_entry mp e =
     (port_within (entry_localPort e) mp
      \<and> (entry_protocol e = ''TCP'' \<or> (entry_protocol e = ''UDP'' \<and> entry_state e = [])))"

definition progress_ok :: "scan_state \<Rightarrow> bool" where
  \<comment> \<open>the notifications so far never decrease and none is ahead of the running count\<close>
  "progress_ok st =
     (sorted (map fst (progress st)) \<and> list_all (\<lambda>p. fst p \<le> parsedCount st) (progress st))"

section \<open>Facts about the JavaScript primitives\<close>

subsection \<open>Rounding keeps the integers below \<open>2^53\<close>\<close>

lemma bit_length_le: "n < 2 ^ k \<Longrightarrow> bit_length n \<le> int k"
proof (induction k arbitrary: n)
  case 0
  then show ?case by (simp add: bit_length.simps)
next
  case (Suc k)
  show ?case
  proof (cases "n \<le> 0")
    case True
    then show ?thesis by (simp add: bit_length.simps)
  next
    case False
    from Suc.prems have "n div 2 < 2 ^ k" by simp
    from Suc.IH [OF this] False show ?thesis
      by (subst bit_length.simps) simp
  qed
qed

lemma bit_length_pos: "0 < n \<Longrightarrow> 1 \<le> bit_length n"
proof -
  assume "0 < n"
  moreover have "0 \<le> bit_length m" for m
    by (induction m rule: bit_length.induct) (subst bit_length.simps, simp)
  ultimately show ?thesis
    by (subst bit_length.simps) (simp add: add_increasing)
qed

lemma bit_length_1: "bit_length 1 = 1"
  by (simp add: bit_length.simps)

lemma floor_log2_int:
  assumes "0 < n" "n < 2 ^ 53"
  shows "floor_log2 (of_int n) \<le> 52" "- 1 \<le> floor_log2 (of_int n)"
proof -
  have q: "quotient_of (of_int n) = (n, 1)" by simp
  have b: "bit_length n \<le> 53" using bit_length_le [OF assms(2)] by simp
  have p: "1 \<le> bit_length n" using bit_length_pos [OF assms(1)] .
  show "floor_log2 (of_int n) \<le> 52" "- 1 \<le> floor_log2 (of_int n)"
    using b p by (auto simp: floor_log2_def q bit_length_1 Let_def)
qed

lemma round_pos_int:
  assumes "0 < n" "n < 2 ^ 53"
  shows "round_pos (of_int n) = Num (of_int n)"
proof -
  define e where "e = floor_log2 (of_int n)"
  have e: "e \<le> 52" "- 1 \<le> e" using floor_log2_int [OF assms] by (simp_all add: e_def)
  define k where "k = nat (52 - e)"
  have ulp: "pow2 (max e (- 1022) - 52) = 1 / 2 ^ k"
    using e by (cases "e = 52") (auto simp: pow2_def k_def max_def)
  have n: "of_int n / (1 / 2 ^ k) = (of_int (n * 2 ^ k) :: rat)" by simp
  have v: "(of_int n :: rat) < pow2 1024"
  proof -
    have "(of_int n :: rat) < of_int (2 ^ 53)" using assms(2) by (simp only: of_int_less_iff)
    also have "\<dots> \<le> pow2 1024" by (simp add: pow2_def)
    finally show ?thesis .
  qed
  show ?thesis
    unfolding round_pos_def e_def [symmetric] ulp Let_def n
    using v by (simp add: not_le)
qed

lemma round_double_small_int:
  assumes "a \<in> \<int>" "\<bar>a\<bar> < 2 ^ 53"
  shows "round_double a = Num a"
proof -
  from assms(1) obtain n where a: "a = of_int n" by (auto elim: Ints_cases)
  from assms(2) have n: "\<bar>n\<bar> < 2 ^ 53" unfolding a
    by (metis of_int_abs of_int_less_iff of_int_numeral of_int_power)
  show ?thesis
  proof (cases "n = 0")
    case True
    then show ?thesis by (simp add: a round_double_def)
  next
    case False
    show ?thesis
    proof (cases "0 < n")
      case True
      then show ?thesis using n round_pos_int [of n] by (simp add: a round_double_def)
    next
      case neg: False
      with False have "0 < - n" "- n < 2 ^ 53" using n by auto
      from round_pos_int [OF this] neg False show ?thesis
        by (simp add: a round_double_def negate_def)
    qed
  qed
qed

subsection \<open>Unfolding rules for evaluating the model on a given text\<close>

lemmas char_defs = code_def isDigit_def isSpace_def isLineTerminator_def isWordChar_def
  canonicalize_def notSpace_def E_acute_def char_of_def bit_Suc_0_iff

lemmas number_defs = Number_js_def unsigned_decimal_def decimal_mv_def exponent_part_def
  nondecimal_literal_def isDigitOf_def parseInt10_def trimStart_def trim_def
  isFinite_def isNaN_def truthy_num_def negate_def or_null_def round_double_small_int

lemmas pattern_defs = lit_def word_boundary_def char_at_def replace_wb_def
  replace_prefix_def normalize_line_def has_proto_token_def toUpperCase_def

text \<open>A pattern whose first position, or first two positions, occur nowhere in the text
  does not match; this settles most searches of a long line at once.\<close>

lemma search_wb_no_first:
  "list_all (\<lambda>c. \<not> list_ex (\<lambda>a. canonicalize a = canonicalize c) p0) s
   \<Longrightarrow> search_wb [p0 # p] prev s i = None"
  by (induction s arbitrary: prev i) simp_all

lemma search_wb_no_pair:
  "list_all (\<lambda>(x, y). \<not> (list_ex (\<lambda>a. canonicalize a = canonicalize x) p0
                         \<and> list_ex (\<lambda>a. canonicalize a = canonicalize y) p1)) (zip s (tl s))
   \<Longrightarrow> search_wb [p0 # p1 # p] prev s i = None"
proof (induction s arbitrary: prev i)
  case Nil
  then show ?case by simp
next
  case (Cons c cs)
  then show ?case by (cases cs) auto
qed

subsection \<open>Trimmed text and tokens\<close>

lemma trim_no_space:
  assumes "trim s \<noteq> []"
  shows "\<not> isSpace (hd (trim s))" "\<not> isSpace (last (trim s))"
proof -
  define t where "t = dropWhile isSpace s"
  define u where "u = dropWhile isSpace (rev t)"
  have tr: "trim s = rev u" by (simp add: trim_def t_def u_def)
  with assms have u: "u \<noteq> []" by simp
  then have ht: "\<not> isSpace (hd u)" unfolding u_def by (rule hd_dropWhile)
  from u have t: "t \<noteq> []" by (auto simp: u_def)
  have "\<not> isSpace (hd t)" using t unfolding t_def by (rule hd_dropWhile)
  moreover have "last u = last (rev t)"
  proof -
    have "rev t = takeWhile isSpace (rev t) @ u" by (simp add: u_def)
    then show ?thesis using u by (metis last_appendR)
  qed
  ultimately have "\<not> isSpace (last u)" using t by (simp add: last_rev)
  then show "\<not> isSpace (hd (trim s))" using u by (simp add: tr hd_rev)
  show "\<not> isSpace (last (trim s))" using ht u by (simp add: tr last_rev)
qed

lemma trim_clean: "trim s \<noteq> [] \<Longrightarrow> clean (trim s)"
  by (simp add: clean_def trim_no_space)

lemma clean_splice:
  assumes "clean s" "clean r"
  shows "clean (take i s @ r @ drop j s)"
proof -
  from assms have s: "s \<noteq> []" and r: "r \<noteq> []" by (auto simp: clean_def)
  have h: "hd (take i s @ r @ drop j s) = (if take i s = [] then hd r else hd s)"
    using s r by (cases s; cases i) auto
  have l: "last (take i s @ r @ drop j s) = (if drop j s = [] then last r else last s)"
    using r by (auto simp: last_drop)
  show ?thesis unfolding clean_def h l using assms r by (auto simp: clean_def)
qed

lemma clean_replace_wb: "clean s \<Longrightarrow> clean r \<Longrightarrow> clean (replace_wb p r s)"
  by (auto simp: replace_wb_def clean_splice split: option.splits)

lemma clean_replace_prefix: "clean s \<Longrightarrow> clean r \<Longrightarrow> clean (replace_prefix p r s)"
  using clean_splice [of s r 0 "length p"] by (simp add: replace_prefix_def)

lemma clean_literals:
  "clean ''CLOSED''" "clean ''LISTENING''" "clean ''State''" "clean ''Foreign Address''"
  "clean ''Local Address''" "clean ''Active Connections''"
  by (simp_all add: clean_def isSpace_def)

lemma clean_normalize_line: "clean s \<Longrightarrow> clean (normalize_line s)"
  unfolding normalize_line_def
  by (intro clean_replace_wb clean_replace_prefix clean_literals)

lemma split_on_not_Nil [simp]: "split_on c s \<noteq> []"
  by (induction s) (auto split: list.splits)

lemma space_is_space [simp]: "isSpace (CHR '' '')"
  by (simp add: isSpace_def)

lemma tokens_of_collapsed:
  "s \<noteq> [] \<Longrightarrow> \<not> isSpace (last s) \<Longrightarrow>
     [] \<notin> set (tl (split_on (CHR '' '') (collapse_ws s)))
     \<and> (hd (split_on (CHR '' '') (collapse_ws s)) = [] \<longleftrightarrow> isSpace (hd s))"
proof (induction s rule: collapse_ws.induct)
  case 1
  then show ?case by simp
next
  case (2 c cs)
  show ?case
  proof (cases "isSpace c")
    case True
    define d where "d = dropWhile isSpace cs"
    from True "2.prems" have cs: "cs \<noteq> []" by auto
    with "2.prems" have lc: "\<not> isSpace (last cs)" by simp
    have d: "d \<noteq> []" unfolding d_def using cs lc
      by (metis dropWhile_eq_Nil_conv last_in_set)
    have ld: "last d = last cs"
    proof -
      have "cs = takeWhile isSpace cs @ d" by (simp add: d_def)
      then show ?thesis using d by (metis last_appendR)
    qed
    have hd: "\<not> isSpace (hd d)" using d unfolding d_def by (rule hd_dropWhile)
    from "2.IH"(1) [OF True] d ld lc hd
    have ih: "[] \<notin> set (tl (split_on (CHR '' '') (collapse_ws d)))"
      "hd (split_on (CHR '' '') (collapse_ws d)) \<noteq> []"
      by (simp_all add: d_def)
    have "[] \<notin> set (split_on (CHR '' '') (collapse_ws d))"
      using ih by (cases "split_on (CHR '' '') (collapse_ws d)") auto
    then show ?thesis using True by (simp add: d_def)
  next
    case False
    then have ne: "c \<noteq> CHR '' ''" by auto
    show ?thesis
    proof (cases "cs = []")
      case True
      then show ?thesis using False ne by simp
    next
      case nonempty: False
      with "2.prems" have "\<not> isSpace (last cs)" by simp
      from "2.IH"(2) [OF False nonempty this]
      have "[] \<notin> set (tl (split_on (CHR '' '') (collapse_ws cs)))" by simp
      then show ?thesis using False ne
        by (cases "split_on (CHR '' '') (collapse_ws cs)") auto
    qed
  qed
qed

lemma tokens_nonempty:
  assumes "clean s"
  shows "[] \<notin> set (split_on (CHR '' '') (collapse_ws s))"
proof -
  from assms have "s \<noteq> []" "\<not> isSpace (last s)" "\<not> isSpace (hd s)"
    by (auto simp: clean_def)
  from tokens_of_collapsed [OF this(1,2)] this(3) show ?thesis
    by (cases "split_on (CHR '' '') (collapse_ws s)") auto
qed

subsection \<open>Upper case\<close>

lemma toUpperCase_Nil [simp]: "toUpperCase [] = []"
  by (simp add: toUpperCase_def)

lemma toUpperCase_Cons: "toUpperCase (c # s) = toUpperCase [c] @ toUpperCase s"
  by (simp add: toUpperCase_def)

lemma toUpperCase_nonempty: "s \<noteq> [] \<Longrightarrow> toUpperCase s \<noteq> []"
  by (cases s) (auto simp: toUpperCase_def)

lemma code_inj: "code a = code b \<Longrightarrow> a = b"
  unfolding code_def by (metis char_of_char)

lemma toUpperCase_of_canon:
  assumes "canonicalize c = n" "n \<noteq> 223"
  shows "toUpperCase [c] = [char_of n]"
proof -
  have "c \<noteq> CHR 0xDF"
  proof
    assume "c = CHR 0xDF"
    then have "canonicalize c = 223" by (simp add: canonicalize_def code_def)
    with assms show False by simp
  qed
  then show ?thesis using assms by (simp add: toUpperCase_def)
qed

lemma match_here_lit3:
  assumes "match_here (lit [x, y, z]) s"
  shows "\<exists>a b c r. s = a # b # c # r \<and> canonicalize a = canonicalize x
           \<and> canonicalize b = canonicalize y \<and> canonicalize c = canonicalize z"
proof -
  from assms obtain a s1 where s: "s = a # s1" by (cases s) (auto simp: lit_def)
  with assms obtain b s2 where s1: "s1 = b # s2"
    by (cases s1) (auto simp: lit_def split: if_splits)
  with s assms obtain c r where s2: "s2 = c # r"
    by (cases s2) (auto simp: lit_def split: if_splits)
  from assms show ?thesis unfolding s s1 s2
    by (auto simp: lit_def split: if_splits)
qed

lemma upper_of_tcp:
  assumes "match_here (lit ''TCP'') s \<or> match_here (lit ''tcp'') s"
  shows "toUpperCase (take 3 s) = ''TCP''"
proof -
  from assms obtain a b c r where s: "s = a # b # c # r"
    and c: "canonicalize a = 84" "canonicalize b = 67" "canonicalize c = 80"
    by (auto dest!: match_here_lit3 simp: canonicalize_def code_def)
  have "toUpperCase [a, b, c] = toUpperCase [a] @ toUpperCase [b] @ toUpperCase [c]"
    by (simp add: toUpperCase_def)
  also have "\<dots> = [char_of (84::nat), char_of (67::nat), char_of (80::nat)]"
    using c by (simp add: toUpperCase_of_canon)
  also have "\<dots> = ''TCP''" by (simp add: char_of_def bit_Suc_0_iff)
  finally show ?thesis by (simp add: s)
qed

lemma upper_of_udp:
  assumes "match_here (lit ''UDP'') s \<or> match_here (lit ''udp'') s"
  shows "toUpperCase (take 3 s) = ''UDP''"
proof -
  from assms obtain a b c r where s: "s = a # b # c # r"
    and c: "canonicalize a = 85" "canonicalize b = 68" "canonicalize c = 80"
    by (auto dest!: match_here_lit3 simp: canonicalize_def code_def)
  have "toUpperCase [a, b, c] = toUpperCase [a] @ toUpperCase [b] @ toUpperCase [c]"
    by (simp add: toUpperCase_def)
  also have "\<dots> = [char_of (85::nat), char_of (68::nat), char_of (80::nat)]"
    using c by (simp add: toUpperCase_of_canon)
  also have "\<dots> = ''UDP''" by (simp add: char_of_def bit_Suc_0_iff)
  finally show ?thesis by (simp add: s)
qed

subsection \<open>Numbers read from digits\<close>

lemma round_pos_not_NaN: "round_pos a \<noteq> NaN"
  by (simp add: round_pos_def Let_def)

lemma round_double_not_NaN: "round_double a \<noteq> NaN"
  using round_pos_not_NaN [of a] round_pos_not_NaN [of "- a"]
  by (auto simp: round_double_def negate_def split: jsnum.splits)

lemma digit_not_space: "isDigit c \<Longrightarrow> \<not> isSpace c"
  by (auto simp: isDigit_def isSpace_def code_def)

lemma trim_digits:
  assumes "list_all isDigit d"
  shows "trim d = d"
proof (cases "d = []")
  case True
  then show ?thesis by (simp add: trim_def)
next
  case False
  from assms have ns: "\<not> isSpace c" if "c \<in> set d" for c
    using that by (auto simp: list_all_iff digit_not_space)
  have "\<not> isSpace (hd d)" "\<not> isSpace (last d)"
    using False by (simp_all add: ns)
  then have "dropWhile isSpace d = d" "dropWhile isSpace (rev d) = rev d"
    using False by (simp_all add: dropWhile_eq_self_iff hd_rev)
  then show ?thesis by (simp add: trim_def)
qed

lemma nondecimal_literal_digits:
  assumes "list_all isDigit d"
  shows "nondecimal_literal d = None"
proof (cases d)
  case Nil
  then show ?thesis by (simp add: nondecimal_literal_def)
next
  case (Cons z r)
  show ?thesis
  proof (cases r)
    case Nil
    with Cons show ?thesis by (simp add: nondecimal_literal_def)
  next
    case (Cons k ds)
    with assms \<open>d = z # r\<close> have "isDigit k" by simp
    then have "k \<noteq> CHR ''x''" "k \<noteq> CHR ''X''" "k \<noteq> CHR ''o''" "k \<noteq> CHR ''O''"
      "k \<noteq> CHR ''b''" "k \<noteq> CHR ''B''"
      by (auto simp: isDigit_def code_def)
    then show ?thesis using Cons \<open>d = z # r\<close> by (simp add: nondecimal_literal_def)
  qed
qed

lemma Number_js_digits:
  assumes "d \<noteq> []" "list_all isDigit d"
  shows "Number_js d = round_double (of_int (digits_val 10 0 d))"
proof -
  have t: "trim d = d" using assms(2) by (rule trim_digits)
  from assms obtain c r where d: "d = c # r" and c: "isDigit c" by (cases d) auto
  have sign: "hd d \<noteq> CHR ''+''" "hd d \<noteq> CHR ''-''"
    using c by (auto simp: d isDigit_def code_def)
  have inf: "d \<noteq> ''Infinity''" using c by (auto simp: d isDigit_def code_def)
  have tk: "takeWhile isDigit d = d" "dropWhile isDigit d = []"
    using assms(2) by (simp_all add: list_all_iff)
  have mv: "decimal_mv d = Some (of_int (digits_val 10 0 d))"
    using assms(1) by (simp add: decimal_mv_def tk exponent_part_def Let_def)
  have "Number_js d = unsigned_decimal d"
    unfolding Number_js_def t Let_def nondecimal_literal_digits [OF assms(2)]
    using assms(1) sign by simp
  then show ?thesis by (simp add: unsigned_decimal_def inf mv)
qed

lemma Number_js_digits_not_NaN:
  "d \<noteq> [] \<Longrightarrow> list_all isDigit d \<Longrightarrow> Number_js d \<noteq> NaN"
  by (simp add: Number_js_digits round_double_not_NaN)

lemma isFinite_not_NaN: "isFinite x \<Longrightarrow> x \<noteq> NaN"
  by (auto simp: isFinite_def)

lemma match_bracket_digits:
  "match_bracket a = Some (h, d) \<Longrightarrow> d \<noteq> [] \<and> list_all isDigit d"
  by (auto simp: match_bracket_def Let_def split: list.splits if_splits)

lemma splitHostPort_not_NaN: "snd (splitHostPort a) \<noteq> Some NaN"
proof (cases "match_bracket a")
  case None
  then show ?thesis
    by (simp add: splitHostPort_def Let_def isFinite_not_NaN)
next
  case (Some hd)
  obtain h d where hd: "hd = (h, d)" by (cases hd)
  from match_bracket_digits [OF Some [unfolded hd]] have "Number_js d \<noteq> NaN"
    by (simp add: Number_js_digits_not_NaN)
  then show ?thesis by (simp add: splitHostPort_def Some hd)
qed

subsection \<open>What each extractor puts in a record\<close>

lemma windows_line_record:
  assumes "r \<in> set (windows_line line)"
  shows "\<exists>parts. parts = split_on (CHR '' '') (collapse_ws line)
           \<and> localPort r = snd (splitHostPort (parts ! 1))
           \<and> remotePort r = snd (splitHostPort (parts ! 2))
           \<and> ((protocol r = ''TCP'' \<and> 5 \<le> length parts \<and> state r = toUpperCase (parts ! 3))
              \<or> (protocol r = ''UDP'' \<and> state r = ''UNSPECIFIED''))"
  using assms
  by (auto simp: windows_line_def Let_def split_beta split: if_splits)

lemma parseWindowsNetstat_lines:
  assumes "r \<in> set (parseWindowsNetstat text)"
  shows "\<exists>line. clean line \<and> r \<in> set (windows_line line)"
proof -
  from assms obtain raw where raw: "trim raw \<noteq> []"
    and r: "r \<in> set (windows_line (normalize_line (trim raw)))"
    by (auto simp: parseWindowsNetstat_def Let_def)
  from raw have "clean (normalize_line (trim raw))"
    by (intro clean_normalize_line trim_clean)
  with r show ?thesis by blast
qed

lemma token_nonempty: "token s = Some (t, r) \<Longrightarrow> t \<noteq> []"
  by (auto simp: token_def Let_def split: if_splits)

lemma ss_match_groups:
  assumes "ss_match line = Some (m1, m2, m3, m4, m5)"
  shows "(toUpperCase m1 = ''TCP'' \<or> toUpperCase m1 = ''UDP'') \<and> m2 \<noteq> []"
proof -
  from assms have pre: "match_here (lit ''tcp'') line \<or> match_here (lit ''udp'') line"
    and m1: "m1 = take 3 line"
    by (auto simp: ss_match_def Let_def split: if_splits option.splits)
  from assms obtain r1 r2 where "token r1 = Some (m2, r2)"
    by (auto simp: ss_match_def Let_def split: if_splits option.splits)
  then have "m2 \<noteq> []" by (rule token_nonempty)
  moreover have "toUpperCase m1 = ''TCP'' \<or> toUpperCase m1 = ''UDP''"
    using pre upper_of_tcp [of line] upper_of_udp [of line] by (auto simp: m1)
  ultimately show ?thesis by simp
qed

lemma ss_line_record:
  assumes "r \<in> set (ss_line line)"
  shows "\<exists>m1 m2 m3 m4 m5. ss_match line = Some (m1, m2, m3, m4, m5)
           \<and> protocol r = toUpperCase m1 \<and> state r = toUpperCase m2
           \<and> localPort r = snd (splitHostPort m3) \<and> remotePort r = snd (splitHostPort m4)"
proof (cases "ss_match line")
  case None
  with assms show ?thesis by (simp add: ss_line_def)
next
  case (Some m)
  obtain m1 m2 m3 m4 m5 where m: "m = (m1, m2, m3, m4, m5)" by (cases m)
  from assms show ?thesis
    unfolding ss_line_def Some m by (simp add: Let_def split_beta)
qed

lemma parseLinuxSS_lines:
  "r \<in> set (parseLinuxSS text) \<Longrightarrow> \<exists>line. r \<in> set (ss_line line)"
  by (auto simp: parseLinuxSS_def Let_def)

lemma alt_here_Some:
  "alt_here ps prev s = Some n \<Longrightarrow> \<exists>p\<in>set ps. n = length p \<and> match_here p s"
  by (induction ps) (auto split: if_splits)

lemma search_wb_Some:
  "search_wb ps prev s k = Some (i, n) \<Longrightarrow>
     k \<le> i \<and> (\<exists>p\<in>set ps. n = length p \<and> match_here p (drop (i - k) s))"
proof (induction s arbitrary: prev k)
  case Nil
  then show ?case by simp
next
  case (Cons c cs)
  show ?case
  proof (cases "alt_here ps prev (c # cs)")
    case None
    with Cons.prems have "search_wb ps (Some c) cs (Suc k) = Some (i, n)" by simp
    from Cons.IH [OF this] obtain p where k: "Suc k \<le> i" and p: "p \<in> set ps" "n = length p"
      "match_here p (drop (i - Suc k) cs)" by blast
    from k have "i - k = Suc (i - Suc k)" by simp
    with k p show ?thesis by auto
  next
    case (Some m)
    with Cons.prems have "i = k" "n = m" by simp_all
    with alt_here_Some [OF Some] show ?thesis by auto
  qed
qed

lemma proto_token_upper:
  assumes "search_wb [lit ''TCP'', lit ''UDP''] None line 0 = Some (i, n)"
  shows "toUpperCase (take n (drop i line)) = ''TCP'' \<or> toUpperCase (take n (drop i line)) = ''UDP''"
proof -
  from search_wb_Some [OF assms]
  have "(n = 3 \<and> match_here (lit ''TCP'') (drop i line))
        \<or> (n = 3 \<and> match_here (lit ''UDP'') (drop i line))"
    by (auto simp: lit_def)
  then show ?thesis using upper_of_tcp [of "drop i line"] upper_of_udp [of "drop i line"]
    by auto
qed

lemma state_search_Some: "state_search s i = Some (j, g) \<Longrightarrow> g \<noteq> []"
  by (induction s arbitrary: i) (auto simp: Let_def split: if_splits)

lemma state_search_None: "CHR 0x28 \<notin> set s \<Longrightarrow> state_search s i = None"
  by (induction s arbitrary: i) (auto simp: Let_def)

lemma set_trim: "set (trim s) \<subseteq> set s"
proof -
  have "set (dropWhile isSpace (rev (dropWhile isSpace s))) \<subseteq> set (rev (dropWhile isSpace s))"
    by (rule set_dropWhileD [THEN subsetI])
  also have "\<dots> \<subseteq> set s" using set_dropWhileD by fastforce
  finally show ?thesis by (simp add: trim_def)
qed

lemma set_after_proto: "set (after_proto line m) \<subseteq> set line"
  unfolding after_proto_def using set_trim set_drop_subset by (metis subset_trans)

lemma lsof_line_record:
  assumes "r \<in> set (lsof_line line)"
  shows "\<exists>i n. search_wb [lit ''TCP'', lit ''UDP''] None line 0 = Some (i, n)
           \<and> protocol r = toUpperCase (take n (drop i line))
           \<and> state r = lsof_state (protocol r) (after_proto line (take n (drop i line)))
           \<and> localPort r =
               snd (splitHostPort (lsof_local (lsof_arrow (after_proto line (take n (drop i line))))))
           \<and> remotePort r =
               snd (splitHostPort (lsof_remote (lsof_arrow (after_proto line (take n (drop i line))))))"
proof (cases "search_wb [lit ''TCP'', lit ''UDP''] None line 0")
  case None
  with assms show ?thesis by (simp add: lsof_line_def)
next
  case (Some m)
  obtain i n where m: "m = (i, n)" by (cases m)
  from assms show ?thesis
    unfolding lsof_line_def Some m by (simp add: Let_def split_beta)
qed

lemma lsof_state_nonempty: "lsof_state p a \<noteq> []"
  by (auto simp: lsof_state_def toUpperCase_nonempty split: option.splits dest: state_search_Some)

lemma lsof_state_default:
  "CHR 0x28 \<notin> set a \<Longrightarrow>
     lsof_state p a = (if p = ''UDP'' then ''UNSPECIFIED'' else ''UNKNOWN'')"
  by (simp add: lsof_state_def state_search_None)

lemma parseLsof_lines:
  "r \<in> set (parseLsof text) \<Longrightarrow> \<exists>line. line \<in> set (split_lines text) \<and> r \<in> set (lsof_line line)"
  by (auto simp: parseLsof_def Let_def)

subsection \<open>Lines of a text\<close>

lemma split_lines_not_Nil [simp]: "split_lines s \<noteq> []"
  by (induction s rule: split_lines.induct) (auto split: list.splits)

subsection \<open>The scan state\<close>

lemma parse_record_form:
  "\<exists>k es. (\<forall>st. parse_record mp pm line st
                   = st\<lparr>entries := entries st @ es, parsedCount := parsedCount st + k\<rparr>)
          \<and> list_all (good_entry mp) es"
proof -
  define parts where "parts = split_ws line"
  define tcp where "tcp = (toUpperCase (hd parts) = ''TCP'' \<and> 5 \<le> length parts)"
  define udp where "udp = (toUpperCase (hd parts) = ''UDP'')"
  define lp1 where "lp1 = snd (ports_splitHostPort (part_or parts 1 []))"
  consider (a) "tcp" "port_within lp1 mp" | (b) "tcp" "\<not> port_within lp1 mp"
    | (c) "\<not> tcp" "udp" "port_within lp1 mp" | (d) "\<not> tcp" "udp" "\<not> port_within lp1 mp"
    | (e) "\<not> tcp" "\<not> udp" by blast
  then show ?thesis
  proof cases
    case a
    show ?thesis
      apply (rule exI [of _ 1])
      apply (rule exI [of _ "[\<lparr> entry_protocol = toUpperCase (hd parts),
                      entry_localAddress = fst (ports_splitHostPort (part_or parts 1 [])),
                      entry_localPort = lp1,
                      entry_foreignAddress = fst (ports_splitHostPort (part_or parts 2 [])),
                      entry_foreignPort = snd (ports_splitHostPort (part_or parts 2 [])),
                      entry_state = part_or parts 3 [],
                      entry_pid = (if isNaN (parseInt10 (parts ! 4)) then None
                                   else Some (parseInt10 (parts ! 4))),
                      entry_processName =
                        (if isNaN (parseInt10 (parts ! 4)) then []
                         else (case pm (parseInt10 (parts ! 4)) of None \<Rightarrow> [] | Some nm \<Rightarrow> nm)) \<rparr>]"])
      using a
      by (simp add: parse_record_def Let_def split_beta parts_def [symmetric] tcp_def
          lp1_def good_entry_def)
  next
    case b
    show ?thesis
      apply (rule exI [of _ 1])
      apply (rule exI [of _ "[]"])
      using b
      by (simp add: parse_record_def Let_def split_beta parts_def [symmetric] tcp_def lp1_def)
  next
    case c
    show ?thesis
      apply (rule exI [of _ 1])
      apply (rule exI [of _ "[\<lparr> entry_protocol = toUpperCase (hd parts),
                      entry_localAddress = fst (ports_splitHostPort (part_or parts 1 [])),
                      entry_localPort = lp1,
                      entry_foreignAddress = fst (ports_splitHostPort (part_or parts 2 ''*:*'')),
                      entry_foreignPort = snd (ports_splitHostPort (part_or parts 2 ''*:*'')),
                      entry_state = [],
                      entry_pid = (if isNaN (parseInt10 (last parts)) then None
                                   else Some (parseInt10 (last parts))),
                      entry_processName =
                        (if isNaN (parseInt10 (last parts)) then []
                         else (case pm (parseInt10 (last parts)) of None \<Rightarrow> [] | Some nm \<Rightarrow> nm)) \<rparr>]"])
      using c
      by (simp add: parse_record_def Let_def split_beta parts_def [symmetric] tcp_def udp_def
          lp1_def good_entry_def)
  next
    case d
    show ?thesis
      apply (rule exI [of _ 1])
      apply (rule exI [of _ "[]"])
      using d
      by (simp add: parse_record_def Let_def split_beta parts_def [symmetric] tcp_def udp_def
          lp1_def)
  next
    case e
    show ?thesis
      apply (rule exI [of _ 0])
      apply (rule exI [of _ "[]"])
      using e
      by (simp add: parse_record_def Let_def split_beta parts_def [symmetric] tcp_def udp_def)
  qed
qed

lemma parse_record_fields:
  "leftover (parse_record mp pm line st) = leftover st"
  "progress (parse_record mp pm line st) = progress st"
  "estimateTotal (parse_record mp pm line st) = estimateTotal st"
  "parsedCount st \<le> parsedCount (parse_record mp pm line st)"
  "parse_record mp pm line (st\<lparr>leftover := x\<rparr>) = (parse_record mp pm line st)\<lparr>leftover := x\<rparr>"
proof -
  from parse_record_form [of mp pm line] obtain k es where
    f: "\<And>st. parse_record mp pm line st
          = st\<lparr>entries := entries st @ es, parsedCount := parsedCount st + k\<rparr>"
    by blast
  show "leftover (parse_record mp pm line st) = leftover st"
    "progress (parse_record mp pm line st) = progress st"
    "estimateTotal (parse_record mp pm line st) = estimateTotal st"
    "parsedCount st \<le> parsedCount (parse_record mp pm line st)"
    "parse_record mp pm line (st\<lparr>leftover := x\<rparr>) = (parse_record mp pm line st)\<lparr>leftover := x\<rparr>"
    by (simp_all add: f)
qed

lemma parse_record_entries:
  "list_all (good_entry mp) (entries st) \<Longrightarrow>
     list_all (good_entry mp) (entries (parse_record mp pm line st))"
proof -
  assume a: "list_all (good_entry mp) (entries st)"
  from parse_record_form [of mp pm line] obtain k es where
    f: "\<And>st. parse_record mp pm line st
          = st\<lparr>entries := entries st @ es, parsedCount := parsedCount st + k\<rparr>"
    and g: "list_all (good_entry mp) es"
    by blast
  show ?thesis using a g by (simp add: f)
qed

lemma data_line_leftover_upd:
  "data_line mp pm (st\<lparr>leftover := x\<rparr>) raw = (data_line mp pm st raw)\<lparr>leftover := x\<rparr>"
  by (simp add: data_line_def Let_def parse_record_fields maybeProgress_def)

lemma foldl_data_line_leftover_upd:
  "foldl (data_line mp pm) (st\<lparr>leftover := x\<rparr>) ls = (foldl (data_line mp pm) st ls)\<lparr>leftover := x\<rparr>"
  by (induction ls arbitrary: st) (simp_all add: data_line_leftover_upd)

lemma on_data_lines:
  "on_data mp pm st buf =
     (foldl (data_line mp pm) st (butlast (split_lines (leftover st @ buf))))
       \<lparr>leftover := last (split_lines (leftover st @ buf))\<rparr>"
  by (simp add: on_data_def Let_def foldl_data_line_leftover_upd)

subsection \<open>What the scan keeps\<close>

lemma data_line_entries:
  "list_all (good_entry mp) (entries st) \<Longrightarrow>
     list_all (good_entry mp) (entries (data_line mp pm st raw))"
  by (simp add: data_line_def Let_def parse_record_entries maybeProgress_def)

lemma foldl_data_line_entries:
  "list_all (good_entry mp) (entries st) \<Longrightarrow>
     list_all (good_entry mp) (entries (foldl (data_line mp pm) st ls))"
  by (induction ls arbitrary: st) (simp_all add: data_line_entries)

lemma on_data_entries:
  "list_all (good_entry mp) (entries st) \<Longrightarrow>
     list_all (good_entry mp) (entries (on_data mp pm st buf))"
  by (simp add: on_data_lines foldl_data_line_entries)

lemma foldl_on_data_entries:
  "list_all (good_entry mp) (entries st) \<Longrightarrow>
     list_all (good_entry mp) (entries (foldl (on_data mp pm) st chunks))"
  by (induction chunks arbitrary: st) (simp_all add: on_data_entries)

lemma set_insert_entry [simp]: "set (insert_entry x xs) = insert x (set xs)"
  by (induction xs) auto

lemma set_sort_entries [simp]: "set (sort_entries xs) = set xs"
  by (induction xs) auto

lemma on_end_entries:
  "list_all (good_entry mp) (entries st) \<Longrightarrow>
     list_all (good_entry mp) (entries (on_end mp pm st))"
  using parse_record_entries [of mp st pm "trim (leftover st)"]
  by (auto simp: on_end_def Let_def list_all_iff)

lemma scanPorts_entries:
  "list_all (good_entry (clamp_maxPort maxPort)) (entries (scanPorts maxPort pidMap chunks))"
  unfolding scanPorts_def Let_def
  by (intro on_end_entries foldl_on_data_entries) (simp add: scan_init_def)

lemma clamp_maxPort_le: "1 \<le> q \<Longrightarrow> clamp_maxPort (Num q) \<le> q"
proof -
  assume "1 \<le> q"
  then have "max 1 (of_int \<lfloor>q\<rfloor>) \<le> q" by (simp add: max_def)
  then show ?thesis by (simp add: clamp_maxPort_def min_def)
qed

subsection \<open>Progress notifications\<close>

lemma progress_ok_parse_record:
  assumes "progress_ok st"
  shows "progress_ok (parse_record mp pm line st)"
proof -
  have le: "parsedCount st \<le> parsedCount (parse_record mp pm line st)"
    by (rule parse_record_fields)
  have "fst p \<le> parsedCount (parse_record mp pm line st)" if "p \<in> set (progress st)" for p
  proof -
    from assms that have "fst p \<le> parsedCount st" by (auto simp: progress_ok_def list_all_iff)
    with le show ?thesis by (rule order_trans [rotated])
  qed
  with assms show ?thesis
    by (simp add: progress_ok_def parse_record_fields list_all_iff)
qed

lemma progress_ok_snoc:
  assumes "progress_ok st" "progress st' = progress st @ [(parsedCount st, t)]"
    "parsedCount st' = parsedCount st"
  shows "progress_ok st'"
  using assms by (auto simp: progress_ok_def sorted_append list_all_iff)

lemma progress_ok_data_line: "progress_ok st \<Longrightarrow> progress_ok (data_line mp pm st raw)"
proof -
  assume a: "progress_ok st"
  define st1 where "st1 = parse_record mp pm (trim raw) st"
  have st1: "progress_ok st1" unfolding st1_def using a by (rule progress_ok_parse_record)
  define st2 where "st2 = st1\<lparr>estimateTotal := max (estimateTotal st1) (parsedCount st1 + 50)\<rparr>"
  have "progress_ok st2" using st1 by (simp add: st2_def progress_ok_def)
  then have "progress_ok (maybeProgress st2)"
    by (rule progress_ok_snoc) (simp_all add: maybeProgress_def)
  with a st1 show ?thesis
    by (simp add: data_line_def Let_def st1_def [symmetric] st2_def [symmetric])
qed

lemma progress_ok_foldl_data_line:
  "progress_ok st \<Longrightarrow> progress_ok (foldl (data_line mp pm) st ls)"
  by (induction ls arbitrary: st) (simp_all add: progress_ok_data_line)

lemma progress_ok_on_data: "progress_ok st \<Longrightarrow> progress_ok (on_data mp pm st buf)"
proof -
  assume "progress_ok st"
  then have "progress_ok (foldl (data_line mp pm) st (butlast (split_lines (leftover st @ buf))))"
    by (rule progress_ok_foldl_data_line)
  then show ?thesis by (simp add: on_data_lines progress_ok_def)
qed

lemma progress_ok_foldl_on_data:
  "progress_ok st \<Longrightarrow> progress_ok (foldl (on_data mp pm) st chunks)"
  by (induction chunks arbitrary: st) (simp_all add: progress_ok_on_data)

lemma on_end_progress:
  assumes "progress_ok st"
  shows "\<exists>n ps. progress (on_end mp pm st) = ps @ [(n, n)]
           \<and> sorted (map fst (ps @ [(n, n)])) \<and> parsedCount (on_end mp pm st) = n"
proof -
  define st1 where "st1 = (if trim (leftover st) \<noteq> [] then
       (if test_proto_prefix (trim (leftover st))
        then parse_record mp pm (trim (leftover st)) st else st) else st)"
  have ok: "progress_ok st1" unfolding st1_def using assms by (simp add: progress_ok_parse_record)
  have p: "progress (on_end mp pm st) = progress st1 @ [(parsedCount st1, parsedCount st1)]"
    and c: "parsedCount (on_end mp pm st) = parsedCount st1"
    by (simp_all add: on_end_def Let_def st1_def)
  from ok have "sorted (map fst (progress st1 @ [(parsedCount st1, parsedCount st1)]))"
    by (auto simp: progress_ok_def sorted_append list_all_iff)
  with p c show ?thesis by blast
qed

lemma scanPorts_progress:
  "\<exists>n ps. progress (scanPorts maxPort pidMap chunks) = ps @ [(n, n)]
     \<and> sorted (map fst (ps @ [(n, n)]))"
proof -
  have "progress_ok scan_init" by (simp add: progress_ok_def scan_init_def)
  then have "progress_ok (foldl (on_data (clamp_maxPort maxPort) pidMap) scan_init chunks)"
    by (rule progress_ok_foldl_on_data)
  from on_end_progress [OF this] show ?thesis
    unfolding scanPorts_def Let_def by blast
qed

subsection \<open>The scan engine on a small output\<close>

lemmas scan_defs = part_or_def port_within_def ports_splitHostPort_def ports_match_bracket_def
  lastIndexOf_def

lemma parse_record_tcp_135:
  "parse_record 1024 Map.empty ''TCP 0.0.0.0:135 0.0.0.0:0 LISTENING 900'' st =
   st\<lparr>entries := entries st @
     [\<lparr> entry_protocol = ''TCP'', entry_localAddress = ''0.0.0.0'', entry_localPort = Num 135,
         entry_foreignAddress = ''0.0.0.0'', entry_foreignPort = Num 0,
         entry_state = ''LISTENING'', entry_pid = Some (Num 900), entry_processName = [] \<rparr>],
     parsedCount := parsedCount st + 1\<rparr>"
proof -
  have parts: "split_ws ''TCP 0.0.0.0:135 0.0.0.0:0 LISTENING 900''
     = [''TCP'', ''0.0.0.0:135'', ''0.0.0.0:0'', ''LISTENING'', ''900'']"
    by (simp add: isSpace_def)
  have up: "toUpperCase ''TCP'' = ''TCP''"
    by (simp add: toUpperCase_def char_defs)
  have a1: "ports_splitHostPort ''0.0.0.0:135'' = (''0.0.0.0'', Num 135)"
    by (simp add: scan_defs number_defs char_defs Let_def)
  have a2: "ports_splitHostPort ''0.0.0.0:0'' = (''0.0.0.0'', Num 0)"
    by (simp add: scan_defs number_defs char_defs Let_def)
  have n: "parseInt10 ''900'' = Num 900"
    by (simp add: number_defs char_defs Let_def)
  show ?thesis
    unfolding parse_record_def parts
    by (simp add: up a1 a2 n part_or_def port_within_def isNaN_def)
qed

lemma parse_record_udp_500:
  "parse_record 1024 Map.empty ''UDP 0.0.0.0:500 *:* 4'' st =
   st\<lparr>entries := entries st @
     [\<lparr> entry_protocol = ''UDP'', entry_localAddress = ''0.0.0.0'', entry_localPort = Num 500,
         entry_foreignAddress = ''*'', entry_foreignPort = NaN,
         entry_state = [], entry_pid = Some (Num 4), entry_processName = [] \<rparr>],
     parsedCount := parsedCount st + 1\<rparr>"
proof -
  have parts: "split_ws ''UDP 0.0.0.0:500 *:* 4'' = [''UDP'', ''0.0.0.0:500'', ''*:*'', ''4'']"
    by (simp add: isSpace_def)
  have up: "toUpperCase ''UDP'' = ''UDP''"
    by (simp add: toUpperCase_def char_defs)
  have a1: "ports_splitHostPort ''0.0.0.0:500'' = (''0.0.0.0'', Num 500)"
    by (simp add: scan_defs number_defs char_defs Let_def)
  have a2: "ports_splitHostPort ''*:*'' = (''*'', NaN)"
    by (simp add: scan_defs number_defs char_defs Let_def)
  have n: "parseInt10 ''4'' = Num 4"
    by (simp add: number_defs char_defs Let_def)
  show ?thesis
    unfolding parse_record_def parts
    by (simp add: up a1 a2 n part_or_def port_within_def isNaN_def)
qed

lemma parse_record_tcp_5000:
  "parse_record 1024 Map.empty ''TCP 1.1.1.1:5000 2.2.2.2:80 ESTABLISHED 7'' st =
   st\<lparr>parsedCount := parsedCount st + 1\<rparr>"
proof -
  have parts: "split_ws ''TCP 1.1.1.1:5000 2.2.2.2:80 ESTABLISHED 7''
     = [''TCP'', ''1.1.1.1:5000'', ''2.2.2.2:80'', ''ESTABLISHED'', ''7'']"
    by (simp add: isSpace_def)
  have up: "toUpperCase ''TCP'' = ''TCP''"
    by (simp add: toUpperCase_def char_defs)
  have a1: "ports_splitHostPort ''1.1.1.1:5000'' = (''1.1.1.1'', Num 5000)"
    by (simp add: scan_defs number_defs char_defs Let_def)
  show ?thesis
    unfolding parse_record_def parts
    by (simp add: up a1 part_or_def port_within_def split_beta)
qed

lemma parse_record_udp_wildcard:
  "parse_record 1024 Map.empty ''UDP *:* *:* 8'' st = st\<lparr>parsedCount := parsedCount st + 1\<rparr>"
proof -
  have parts: "split_ws ''UDP *:* *:* 8'' = [''UDP'', ''*:*'', ''*:*'', ''8'']"
    by (simp add: isSpace_def)
  have up: "toUpperCase ''UDP'' = ''UDP''"
    by (simp add: toUpperCase_def char_defs)
  have a1: "ports_splitHostPort ''*:*'' = (''*'', NaN)"
    by (simp add: scan_defs number_defs char_defs Let_def)
  show ?thesis
    unfolding parse_record_def parts
    by (simp add: up a1 part_or_def port_within_def split_beta)
qed

lemma scan_example:
  "entries (scanPorts (Num 1024) Map.empty
     [''TCP 0.0.0.0:13'',
      ''5 0.0.0.0:0 LISTENING 900'' @ [CHR 0x0D, CHR 0x0A]
      @ ''TCP 1.1.1.1:5000 2.2.2.2:80 ESTABLISHED 7'' @ [CHR 0x0D, CHR 0x0A]
      @ ''UDP *:* *:* 8'' @ [CHR 0x0D, CHR 0x0A]
      @ ''UDP 0.0.0.0:500 *:* 4''])
   = [\<lparr> entry_protocol = ''TCP'', entry_localAddress = ''0.0.0.0'', entry_localPort = Num 135,
         entry_foreignAddress = ''0.0.0.0'', entry_foreignPort = Num 0,
         entry_state = ''LISTENING'', entry_pid = Some (Num 900), entry_processName = [] \<rparr>,
      \<lparr> entry_protocol = ''UDP'', entry_localAddress = ''0.0.0.0'', entry_localPort = Num 500,
         entry_foreignAddress = ''*'', entry_foreignPort = NaN,
         entry_state = [], entry_pid = Some (Num 4), entry_processName = [] \<rparr>]"
proof -
  have mp: "clamp_maxPort (Num 1024) = 1024"
    by (simp add: clamp_maxPort_def)
  have pre: "test_proto_prefix ''TCP 0.0.0.0:135 0.0.0.0:0 LISTENING 900''"
    "test_proto_prefix ''TCP 1.1.1.1:5000 2.2.2.2:80 ESTABLISHED 7''"
    "test_proto_prefix ''UDP *:* *:* 8''"
    "test_proto_prefix ''UDP 0.0.0.0:500 *:* 4''"
    by (simp_all add: test_proto_prefix_def lit_def canonicalize_def code_def isSpace_def)
  have tr: "trim ''TCP 0.0.0.0:135 0.0.0.0:0 LISTENING 900'' = ''TCP 0.0.0.0:135 0.0.0.0:0 LISTENING 900''"
    "trim ''TCP 1.1.1.1:5000 2.2.2.2:80 ESTABLISHED 7'' = ''TCP 1.1.1.1:5000 2.2.2.2:80 ESTABLISHED 7''"
    "trim ''UDP *:* *:* 8'' = ''UDP *:* *:* 8''"
    "trim ''UDP 0.0.0.0:500 *:* 4'' = ''UDP 0.0.0.0:500 *:* 4''"
    by (simp_all add: trim_def isSpace_def)
  have s1: "on_data 1024 Map.empty scan_init ''TCP 0.0.0.0:13'' = scan_init\<lparr>leftover := ''TCP 0.0.0.0:13''\<rparr>"
    by (simp add: on_data_def scan_init_def)
  have s2: "on_data 1024 Map.empty (scan_init\<lparr>leftover := ''TCP 0.0.0.0:13''\<rparr>)
      (''5 0.0.0.0:0 LISTENING 900'' @ [CHR 0x0D, CHR 0x0A]
      @ ''TCP 1.1.1.1:5000 2.2.2.2:80 ESTABLISHED 7'' @ [CHR 0x0D, CHR 0x0A]
      @ ''UDP *:* *:* 8'' @ [CHR 0x0D, CHR 0x0A]
      @ ''UDP 0.0.0.0:500 *:* 4'')
    = \<lparr> entries = [\<lparr> entry_protocol = ''TCP'', entry_localAddress = ''0.0.0.0'',
          entry_localPort = Num 135, entry_foreignAddress = ''0.0.0.0'', entry_foreignPort = Num 0,
          entry_state = ''LISTENING'', entry_pid = Some (Num 900), entry_processName = [] \<rparr>],
        leftover = ''UDP 0.0.0.0:500 *:* 4'', parsedCount = 3, estimateTotal = 200,
        progress = [] \<rparr>"
    by (simp add: on_data_def scan_init_def data_line_def tr pre parse_record_tcp_135
        parse_record_tcp_5000 parse_record_udp_wildcard)
  show ?thesis
    unfolding scanPorts_def mp Let_def foldl.simps s1 s2
    by (simp add: on_end_def tr pre parse_record_udp_500 entry_le_def localeCompare_le_def)
qed

subsection \<open>Evaluating the extractors on a single line\<close>

lemma parseWindowsNetstat_single:
  assumes "split_lines text = [text]" "trim text = l" "l \<noteq> []" "normalize_line l = l'"
    "has_proto_token l'"
  shows "parseWindowsNetstat text = windows_line l'"
  using assms by (simp add: parseWindowsNetstat_def)

lemma windows_line_tcp:
  assumes "split_on (CHR '' '') (collapse_ws line) = p0 # local # remote # st # pd # rest"
    "toUpperCase p0 = ''TCP''"
  shows "windows_line line =
     [\<lparr> key = ''TCP|'' @ local @ ''|'' @ remote @ ''|'' @ pd, protocol = ''TCP'',
        localAddress = fst (splitHostPort local), localPort = snd (splitHostPort local),
        remoteAddress = fst (splitHostPort remote), remotePort = snd (splitHostPort remote),
        state = toUpperCase st, pid = or_null (Number_js pd), processName = None,
        owner = None \<rparr>]"
  unfolding windows_line_def assms(1) by (simp add: assms(2) split_beta)

lemma windows_line_udp:
  assumes "split_on (CHR '' '') (collapse_ws line) = p0 # local # remote # pd # rest"
    "toUpperCase p0 = ''UDP''"
  shows "windows_line line =
     [\<lparr> key = ''UDP|'' @ local @ ''|'' @ remote @ ''|'' @ pd, protocol = ''UDP'',
        localAddress = fst (splitHostPort local), localPort = snd (splitHostPort local),
        remoteAddress = fst (splitHostPort remote), remotePort = snd (splitHostPort remote),
        state = ''UNSPECIFIED'', pid = or_null (Number_js pd), processName = None,
        owner = None \<rparr>]"
  unfolding windows_line_def assms(1) by (simp add: assms(2) split_beta)

lemmas search_defs = replace_wb_def replace_prefix_def normalize_line_def has_proto_token_def
  lit_def word_boundary_def char_at_def canonicalize_def isWordChar_def code_def E_acute_def

lemmas address_defs = splitHostPort_def match_bracket_def indexOf_def lastIndexOf_def

lemma upper_literals:
  "toUpperCase ''TCP'' = ''TCP''" "toUpperCase ''UDP'' = ''UDP''"
  "toUpperCase ''tcp'' = ''TCP''" "toUpperCase ''udp'' = ''UDP''"
  "toUpperCase ''LISTENING'' = ''LISTENING''" "toUpperCase ''ESTABLISHED'' = ''ESTABLISHED''"
  "toUpperCase ''UNCONN'' = ''UNCONN''"
  "toUpperCase (CHR 0xC9 # ''TABLIE'') = CHR 0xC9 # ''TABLIE''"
  "toUpperCase (CHR 0xC9 # ''COUTE'') = CHR 0xC9 # ''COUTE''"
  by (simp_all add: toUpperCase_def char_defs)

lemma windows_port_99999:
  "parseWindowsNetstat ''TCP 1.2.3.4:99999 0.0.0.0:0 LISTENING 4'' =
     [\<lparr> key = ''TCP|1.2.3.4:99999|0.0.0.0:0|4'', protocol = ''TCP'',
        localAddress = ''1.2.3.4'', localPort = Some (Num 99999),
        remoteAddress = ''0.0.0.0'', remotePort = Some (Num 0),
        state = ''LISTENING'', pid = Some (Num 4), processName = None, owner = None \<rparr>]"
proof -
  let ?l = "''TCP 1.2.3.4:99999 0.0.0.0:0 LISTENING 4''"
  have lines: "split_lines ?l = [?l]" by simp
  have tr: "trim ?l = ?l" by (simp add: trim_def isSpace_def)
  have norm: "normalize_line ?l = ?l" by (simp add: search_defs)
  have tok: "has_proto_token ?l" by (simp add: search_defs)
  have parts: "split_on (CHR '' '') (collapse_ws ?l)
      = [''TCP'', ''1.2.3.4:99999'', ''0.0.0.0:0'', ''LISTENING'', ''4'']"
    by (simp add: isSpace_def)
  have a: "splitHostPort ''1.2.3.4:99999'' = (''1.2.3.4'', Some (Num 99999))"
    "splitHostPort ''0.0.0.0:0'' = (''0.0.0.0'', Some (Num 0))"
    by (simp_all add: address_defs number_defs char_defs Let_def)
  have n: "or_null (Number_js ''4'') = Some (Num 4)"
    by (simp add: number_defs char_defs Let_def)
  have pw: "parseWindowsNetstat ?l = windows_line ?l"
    by (rule parseWindowsNetstat_single [OF lines tr _ norm tok]) simp
  show ?thesis
    unfolding pw windows_line_tcp [OF parts upper_literals(1)]
    by (simp add: a n upper_literals)
qed

lemma windows_etablie:
  "parseWindowsNetstat (''TCP 10.0.0.5:50000 1.1.1.1:443 '' @ [E_acute] @ ''TABLIE 1234'') =
     [\<lparr> key = ''TCP|10.0.0.5:50000|1.1.1.1:443|1234'', protocol = ''TCP'',
        localAddress = ''10.0.0.5'', localPort = Some (Num 50000),
        remoteAddress = ''1.1.1.1'', remotePort = Some (Num 443),
        state = [E_acute] @ ''TABLIE'', pid = Some (Num 1234), processName = None, owner = None \<rparr>]"
proof -
  let ?l = "''TCP 10.0.0.5:50000 1.1.1.1:443 '' @ [E_acute] @ ''TABLIE 1234''"
  have lines: "split_lines ?l = [?l]" by (simp add: E_acute_def)
  have tr: "trim ?l = ?l" by (simp add: trim_def isSpace_def E_acute_def)
  have norm: "normalize_line ?l = ?l" by (simp add: search_defs)
  have tok: "has_proto_token ?l" by (simp add: search_defs)
  have parts: "split_on (CHR '' '') (collapse_ws ?l)
      = [''TCP'', ''10.0.0.5:50000'', ''1.1.1.1:443'', [E_acute] @ ''TABLIE'', ''1234'']"
    by (simp add: isSpace_def E_acute_def)
  have a: "splitHostPort ''10.0.0.5:50000'' = (''10.0.0.5'', Some (Num 50000))"
    "splitHostPort ''1.1.1.1:443'' = (''1.1.1.1'', Some (Num 443))"
    by (simp_all add: address_defs number_defs char_defs Let_def)
  have n: "or_null (Number_js ''1234'') = Some (Num 1234)"
    by (simp add: number_defs char_defs Let_def)
  have pw: "parseWindowsNetstat ?l = windows_line ?l"
    by (rule parseWindowsNetstat_single [OF lines tr _ norm tok]) simp
  show ?thesis
    unfolding pw windows_line_tcp [OF parts upper_literals(1)]
    by (simp add: a n upper_literals E_acute_def)
qed

lemma windows_established:
  "parseWindowsNetstat ''TCP 10.0.0.5:50000 1.1.1.1:443 ESTABLISHED 1234'' =
     [\<lparr> key = ''TCP|10.0.0.5:50000|1.1.1.1:443|1234'', protocol = ''TCP'',
        localAddress = ''10.0.0.5'', localPort = Some (Num 50000),
        remoteAddress = ''1.1.1.1'', remotePort = Some (Num 443),
        state = ''ESTABLISHED'', pid = Some (Num 1234), processName = None, owner = None \<rparr>]"
proof -
  let ?l = "''TCP 10.0.0.5:50000 1.1.1.1:443 ESTABLISHED 1234''"
  have lines: "split_lines ?l = [?l]" by (simp add: E_acute_def)
  have tr: "trim ?l = ?l" by (simp add: trim_def isSpace_def E_acute_def)
  have norm: "normalize_line ?l = ?l" by (simp add: search_defs)
  have tok: "has_proto_token ?l" by (simp add: search_defs)
  have parts: "split_on (CHR '' '') (collapse_ws ?l)
      = [''TCP'', ''10.0.0.5:50000'', ''1.1.1.1:443'', ''ESTABLISHED'', ''1234'']"
    by (simp add: isSpace_def E_acute_def)
  have a: "splitHostPort ''10.0.0.5:50000'' = (''10.0.0.5'', Some (Num 50000))"
    "splitHostPort ''1.1.1.1:443'' = (''1.1.1.1'', Some (Num 443))"
    by (simp_all add: address_defs number_defs char_defs Let_def)
  have n: "or_null (Number_js ''1234'') = Some (Num 1234)"
    by (simp add: number_defs char_defs Let_def)
  have pw: "parseWindowsNetstat ?l = windows_line ?l"
    by (rule parseWindowsNetstat_single [OF lines tr _ norm tok]) simp
  show ?thesis
    unfolding pw windows_line_tcp [OF parts upper_literals(1)]
    by (simp add: a n upper_literals E_acute_def)
qed

lemma windows_ecoute:
  "parseWindowsNetstat (''TCP 0.0.0.0:135 0.0.0.0:0 '' @ [E_acute] @ ''COUTE 900'') =
     [\<lparr> key = ''TCP|0.0.0.0:135|0.0.0.0:0|900'', protocol = ''TCP'',
        localAddress = ''0.0.0.0'', localPort = Some (Num 135),
        remoteAddress = ''0.0.0.0'', remotePort = Some (Num 0),
        state = [E_acute] @ ''COUTE'', pid = Some (Num 900), processName = None, owner = None \<rparr>]"
proof -
  let ?l = "''TCP 0.0.0.0:135 0.0.0.0:0 '' @ [E_acute] @ ''COUTE 900''"
  have lines: "split_lines ?l = [?l]" by (simp add: E_acute_def)
  have tr: "trim ?l = ?l" by (simp add: trim_def isSpace_def E_acute_def)
  have norm: "normalize_line ?l = ?l" by (simp add: search_defs)
  have tok: "has_proto_token ?l" by (simp add: search_defs)
  have parts: "split_on (CHR '' '') (collapse_ws ?l)
      = [''TCP'', ''0.0.0.0:135'', ''0.0.0.0:0'', [E_acute] @ ''COUTE'', ''900'']"
    by (simp add: isSpace_def E_acute_def)
  have a: "splitHostPort ''0.0.0.0:135'' = (''0.0.0.0'', Some (Num 135))"
    "splitHostPort ''0.0.0.0:0'' = (''0.0.0.0'', Some (Num 0))"
    by (simp_all add: address_defs number_defs char_defs Let_def)
  have n: "or_null (Number_js ''900'') = Some (Num 900)"
    by (simp add: number_defs char_defs Let_def)
  have pw: "parseWindowsNetstat ?l = windows_line ?l"
    by (rule parseWindowsNetstat_single [OF lines tr _ norm tok]) simp
  show ?thesis
    unfolding pw windows_line_tcp [OF parts upper_literals(1)]
    by (simp add: a n upper_literals E_acute_def)
qed

lemma windows_udp_500:
  "parseWindowsNetstat ''UDP 0.0.0.0:500 *:* 4'' =
     [\<lparr> key = ''UDP|0.0.0.0:500|*:*|4'', protocol = ''UDP'',
        localAddress = ''0.0.0.0'', localPort = Some (Num 500),
        remoteAddress = ''*'', remotePort = None,
        state = ''UNSPECIFIED'', pid = Some (Num 4), processName = None, owner = None \<rparr>]"
proof -
  let ?l = "''UDP 0.0.0.0:500 *:* 4''"
  have lines: "split_lines ?l = [?l]" by simp
  have tr: "trim ?l = ?l" by (simp add: trim_def isSpace_def)
  have norm: "normalize_line ?l = ?l" by (simp add: search_defs)
  have tok: "has_proto_token ?l" by (simp add: search_defs)
  have parts: "split_on (CHR '' '') (collapse_ws ?l) = [''UDP'', ''0.0.0.0:500'', ''*:*'', ''4'']"
    by (simp add: isSpace_def)
  have a: "splitHostPort ''0.0.0.0:500'' = (''0.0.0.0'', Some (Num 500))"
    "splitHostPort ''*:*'' = (''*'', None)"
    by (simp_all add: address_defs number_defs char_defs Let_def)
  have n: "or_null (Number_js ''4'') = Some (Num 4)"
    by (simp add: number_defs char_defs Let_def)
  have pw: "parseWindowsNetstat ?l = windows_line ?l"
    by (rule parseWindowsNetstat_single [OF lines tr _ norm tok]) simp
  show ?thesis
    unfolding pw windows_line_udp [OF parts upper_literals(2)]
    by (simp add: a n)
qed

subsection \<open>The address splitter on a token with one colon and a decimal port\<close>

lemma digits_val_nonneg:
  "0 \<le> acc \<Longrightarrow> list_all isDigit d \<Longrightarrow> 0 \<le> digits_val 10 acc d"
proof (induction d arbitrary: acc)
  case Nil
  then show ?case by simp
next
  case (Cons c cs)
  from Cons.prems have "48 \<le> code c" by (simp add: isDigit_def)
  with Cons.prems have "0 \<le> acc * 10 + (int (code c) - 48)" by simp
  with Cons.IH [of "acc * 10 + (int (code c) - 48)"] Cons.prems show ?case by simp
qed

lemma takeWhile_until: "c \<notin> set x \<Longrightarrow> takeWhile (\<lambda>z. z \<noteq> c) (x @ c # y) = x"
  by (induction x) auto

lemma one_colon_split:
  assumes "x @ c # y = x' @ c # y'" "c \<notin> set x" "c \<notin> set x'"
  shows "x = x' \<and> y = y'"
proof -
  have "takeWhile (\<lambda>z. z \<noteq> c) (x @ c # y) = x" "takeWhile (\<lambda>z. z \<noteq> c) (x' @ c # y') = x'"
    using assms(2,3) by (simp_all add: takeWhile_until)
  with assms(1) have "x = x'" by simp
  with assms(1) show ?thesis by simp
qed

lemma indexOf_from_colon:
  "c \<notin> set x \<Longrightarrow> indexOf_from i c (x @ c # y) = int (i + length x)"
  by (induction x arbitrary: i) auto

lemma lastIndexOf_from_colon:
  "c \<notin> set x \<Longrightarrow> c \<notin> set y \<Longrightarrow>
     lastIndexOf_from i b c (x @ c # y) = int (i + length x)"
proof (induction x arbitrary: i b)
  case Nil
  have "lastIndexOf_from j b' c y = b'" if "c \<notin> set y" for j b'
    using that by (induction y arbitrary: j) auto
  with Nil show ?case by simp
next
  case (Cons z zs)
  then show ?case by simp
qed

lemma digit_not_colon: "isDigit c \<Longrightarrow> c \<noteq> CHR '':''"
  by (auto simp: isDigit_def code_def)

lemma splitHostPort_decimal:
  assumes "d \<noteq> []" "list_all isDigit d" "digits_val 10 0 d \<le> 65535" "CHR '':'' \<notin> set h"
  shows "snd (splitHostPort (h @ '':'' @ d)) = Some (Num (of_int (digits_val 10 0 d)))"
proof -
  let ?a = "h @ CHR '':'' # d"
  let ?v = "digits_val 10 0 d"
  have norm: "h @ '':'' @ d = ?a" by simp
  have dc: "CHR '':'' \<notin> set d" using assms(2) by (auto simp: list_all_iff dest: digit_not_colon)
  have v0: "0 \<le> ?v" using assms(2) by (simp add: digits_val_nonneg)
  have "\<bar>of_int ?v :: rat\<bar> < 2 ^ 53"
  proof -
    have "\<bar>?v\<bar> < 2 ^ 53" using v0 assms(3) by simp
    then have "(of_int \<bar>?v\<bar> :: rat) < of_int (2 ^ 53)" by (simp only: of_int_less_iff)
    then show ?thesis by simp
  qed
  then have num: "Number_js d = Num (of_int ?v)"
    using assms(1,2) by (simp add: Number_js_digits round_double_small_int)
  show ?thesis
  proof (cases "match_bracket ?a")
    case None
    have i: "indexOf ?a (CHR '':'') = int (length h)" "lastIndexOf ?a (CHR '':'') = int (length h)"
      using assms(4) dc by (simp_all add: indexOf_def lastIndexOf_def indexOf_from_colon
          lastIndexOf_from_colon)
    have k: "nat (int (length h) + 1) = Suc (length h)" by simp
    show ?thesis
      unfolding norm splitHostPort_def None i Let_def k
      by (simp add: num isFinite_def)
  next
    case (Some m)
    obtain h' d' where m: "m = (h', d')" by (cases m)
    from Some [unfolded m] obtain r where a: "?a = CHR ''['' # r"
      and h': "h' = takeWhile (\<lambda>x. x \<noteq> CHR '']'') r"
      and r2: "take 2 (dropWhile (\<lambda>x. x \<noteq> CHR '']'') r) = '']:''"
      and d': "d' = drop 2 (dropWhile (\<lambda>x. x \<noteq> CHR '']'') r)"
      by (auto simp: match_bracket_def Let_def split: list.splits if_splits)
    have dd: "list_all isDigit d'" using match_bracket_digits [OF Some [unfolded m]] by simp
    have r: "r = h' @ dropWhile (\<lambda>x. x \<noteq> CHR '']'') r" by (simp add: h')
    have "dropWhile (\<lambda>x. x \<noteq> CHR '']'') r = '']:'' @ d'"
      using r2 d' by (metis append_take_drop_id)
    with r have r': "r = h' @ '']:'' @ d'" by simp
    have eq: "h @ CHR '':'' # d = (CHR ''['' # h' @ '']'') @ CHR '':'' # d'"
      using a r' by simp
    have "CHR '':'' \<notin> set (CHR ''['' # h' @ '']'')"
    proof
      assume "CHR '':'' \<in> set (CHR ''['' # h' @ '']'')"
      then have "CHR '':'' \<in> set h'" by simp
      then obtain u w where h'': "h' = u @ CHR '':'' # w" "CHR '':'' \<notin> set u"
        by (meson split_list_first)
      have "h @ CHR '':'' # d = (CHR ''['' # u) @ CHR '':'' # (w @ '']:'' @ d')"
        using eq h'' by simp
      from one_colon_split [OF this assms(4)] h''(2) have "d = w @ '']:'' @ d'" by simp
      with dc show False by simp
    qed
    from one_colon_split [OF eq assms(4) this] have "d' = d" by simp
    with Some m num show ?thesis unfolding norm by (simp add: splitHostPort_def)
  qed
qed

subsection \<open>The Linux owner resolver\<close>

lemma trim_head:
  assumes "\<not> isSpace c"
  shows "\<exists>r. trim (c # ds) = c # r"
proof -
  have d: "dropWhile isSpace (c # ds) = c # ds"
    using assms by simp
  have "dropWhile isSpace (rev ds @ [c]) = [c]
        \<or> dropWhile isSpace (rev ds @ [c]) = dropWhile isSpace (rev ds) @ [c]"
    using assms by (simp add: dropWhile_append)
  then have "\<exists>r. rev (dropWhile isSpace (rev ds @ [c])) = c # r"
    by (auto intro: exI [of _ "rev (dropWhile isSpace (rev ds))"])
  then show ?thesis
    unfolding trim_def d by simp
qed

lemma Number_js_backslash: "Number_js (CHR 0x5C # ds) = NaN"
proof -
  have ns: "\<not> isSpace (CHR 0x5C)"
    by (simp add: char_defs)
  obtain r where t: "trim (CHR 0x5C # ds) = CHR 0x5C # r"
    using trim_head [OF ns] by blast
  have nd: "nondecimal_literal (CHR 0x5C # r) = None"
    by (simp add: nondecimal_literal_def split: list.splits)
  have dg: "\<not> isDigit (CHR 0x5C)"
    by (simp add: char_defs)
  have mv: "decimal_mv (CHR 0x5C # r) = None"
    using dg by (simp add: decimal_mv_def Let_def)
  have "unsigned_decimal (CHR 0x5C # r) = NaN"
    by (simp add: unsigned_decimal_def mv)
  then show ?thesis
    unfolding Number_js_def t Let_def nd by simp
qed

lemma uid_search_backslash:
  "uid_search bol s = Some m \<Longrightarrow> \<exists>ds. m = CHR 0x5C # ds"
proof (induction s arbitrary: bol)
  case Nil
  then show ?case by simp
next
  case (Cons c cs)
  then show ?case
    by (auto simp: Let_def split: if_splits)
qed

lemma pidToUid_NaN: "pidToUid fs p = Some u \<Longrightarrow> u = NaN"
  unfolding pidToUid_def
  by (auto split: option.splits dest!: uid_search_backslash simp: Number_js_backslash)

lemma passwd_line_NaN: "passwd_line m line NaN = m NaN"
  unfolding passwd_line_def Let_def
  by (auto simp: isFinite_def)

lemma foldl_passwd_line_NaN: "foldl passwd_line m ls NaN = m NaN"
  by (induction ls arbitrary: m) (simp_all add: passwd_line_NaN)

lemma buildUidNameMap_NaN: "buildUidNameMap fs NaN = None"
  unfolding buildUidNameMap_def by (simp add: foldl_passwd_line_NaN)

lemma owners_entry_unchanged:
  assumes "uidName NaN = None"
  shows "owners_entry fs uidName m name = m"
proof (cases "pidToUid fs (Number_js name)")
  case None
  then show ?thesis
    unfolding owners_entry_def Let_def by simp
next
  case (Some u)
  then have "u = NaN"
    by (rule pidToUid_NaN)
  then show ?thesis
    unfolding owners_entry_def Let_def using Some assms by simp
qed

lemma foldl_owners_entry:
  "uidName NaN = None \<Longrightarrow> foldl (owners_entry fs uidName) m es = m"
  by (induction es arbitrary: m) (simp_all add: owners_entry_unchanged)

lemma ownersLinux_empty: "ownersLinux fs = Map.empty"
  unfolding ownersLinux_def Let_def
  by (rule foldl_owners_entry) (rule buildUidNameMap_NaN)

subsection \<open>Evaluation of the Linux and macOS extractors\<close>

lemma toString_77: "Number_toString (Num 77) = ''77''"
proof -
  have de: "dec_exponent 77 = 2"
    by (simp add: dec_exponent_def dec_length.simps pow10_def)
  have fl: "\<lfloor>77 / 10 :: rat\<rfloor> = 7"
    by (simp add: floor_eq_iff)
  have r70: "round_double 70 = Num 70" and r80: "round_double 80 = Num 80"
    and r77: "round_double 77 = Num 77" and r78: "round_double 78 = Num 78"
    by (simp_all add: round_double_small_int)
  have "shortest_digits (Suc 15) 2 77 2 = (77, 2, 2)"
    by (subst shortest_digits.simps(2)) (simp add: pow10_def Let_def r77 r78)
  then have s2: "shortest_digits 16 2 77 2 = (77, 2, 2)"
    by simp
  have "shortest_digits (Suc 16) 1 77 2 = (77, 2, 2)"
    by (subst shortest_digits.simps(2)) (simp add: pow10_def Let_def fl r70 r80 s2)
  then have s1: "shortest_digits 17 1 77 2 = (77, 2, 2)"
    by simp
  have dg: "digits_of 77 = ''77''"
    by (simp add: digits_of.simps char_of_def bit_Suc_0_iff)
  show ?thesis
    by (simp add: Number_toString_def toString_pos_def de s1 dg)
qed

lemma ss_udp_unconn:
  "parseLinuxSS ''udp UNCONN 0 0 0.0.0.0:68 0.0.0.0:*'' =
     [\<lparr> key = ''UDP|0.0.0.0:68|0.0.0.0:*|'', protocol = ''UDP'',
        localAddress = ''0.0.0.0'', localPort = Some (Num 68),
        remoteAddress = ''0.0.0.0'', remotePort = None,
        state = ''UNCONN'', pid = None, processName = None, owner = None \<rparr>]"
proof -
  let ?l = "''udp UNCONN 0 0 0.0.0.0:68 0.0.0.0:*''"
  have lines: "split_lines ?l = [?l]" by simp
  have hd: "\<not> is_netid_header ?l"
    by (simp add: is_netid_header_def lit_def isSpace_def canonicalize_def code_def)
  have m: "ss_match ?l = Some (''udp'', ''UNCONN'', ''0.0.0.0:68'', ''0.0.0.0:*'', None)"
    by (simp add: ss_match_def token_def users_group_def lit_def notSpace_def isSpace_def
        canonicalize_def code_def)
  have a: "splitHostPort ''0.0.0.0:68'' = (''0.0.0.0'', Some (Num 68))"
    by (simp add: address_defs number_defs char_defs Let_def)
  have b: "splitHostPort ''0.0.0.0:*'' = (''0.0.0.0'', None)"
    by (simp add: address_defs number_defs char_defs Let_def)
  have l: "ss_line ?l =
     [\<lparr> key = ''UDP|0.0.0.0:68|0.0.0.0:*|'', protocol = ''UDP'',
        localAddress = ''0.0.0.0'', localPort = Some (Num 68),
        remoteAddress = ''0.0.0.0'', remotePort = None,
        state = ''UNCONN'', pid = None, processName = None, owner = None \<rparr>]"
    unfolding ss_line_def m by (simp add: a b upper_literals pid_text_def)
  show ?thesis
    unfolding parseLinuxSS_def lines Let_def using hd l by simp
qed

lemma lsof_line_eval:
  assumes "search_wb [lit ''TCP'', lit ''UDP''] None line 0 = Some (i, n)"
    and "take n (drop i line) = m0"
    and "toUpperCase m0 = proto"
    and "head_match line = Some (m1, m2, m3)"
    and "lsof_state proto (after_proto line m0) = st"
    and "lsof_arrow (after_proto line m0) = arrow"
    and "lsof_local arrow = local"
    and "lsof_remote arrow = remote"
    and "takeWhile notSpace line = m1"
    and "m1 \<noteq> []"
  shows "lsof_line line =
     [\<lparr> key = proto @ ''|'' @ local @ ''|'' @ remote @ ''|'' @ Number_toString (Number_js m2),
        protocol = proto,
        localAddress = fst (splitHostPort local), localPort = snd (splitHostPort local),
        remoteAddress = fst (splitHostPort remote), remotePort = snd (splitHostPort remote),
        state = st, pid = Some (Number_js m2), processName = Some m1, owner = Some m3 \<rparr>]"
  unfolding lsof_line_def assms(1) using assms(2-)
  by (simp add: split_beta pid_text_def)

lemma lsof_tcp_3000:
  "parseLsof ''node 77 bob 12u IPv4 0x1 0t0 TCP *:3000'' =
     [\<lparr> key = ''TCP|*:3000|*:*|77'', protocol = ''TCP'',
        localAddress = ''*'', localPort = Some (Num 3000),
        remoteAddress = ''*'', remotePort = None,
        state = ''UNKNOWN'', pid = Some (Num 77), processName = Some ''node'',
        owner = Some ''bob'' \<rparr>]"
proof -
  let ?l = "''node 77 bob 12u IPv4 0x1 0t0 TCP *:3000''"
  have lines: "split_lines ?l = [?l]" by simp
  have s: "search_wb [lit ''TCP'', lit ''UDP''] None ?l 0 = Some (29, 3)"
    by (simp add: lit_def word_boundary_def char_at_def canonicalize_def isWordChar_def code_def)
  have m0: "take 3 (drop 29 ?l) = ''TCP''" by simp
  have h: "head_match ?l = Some (''node'', ''77'', ''bob'')"
    by (simp add: head_match_def token_def notSpace_def isSpace_def isDigit_def code_def)
  have ap: "after_proto ?l ''TCP'' = ''*:3000''"
    by (simp add: after_proto_def trim_def isSpace_def)
  have st: "lsof_state ''TCP'' ''*:3000'' = ''UNKNOWN''"
    by (simp add: lsof_state_def)
  have ar: "lsof_arrow ''*:3000'' = ''*:3000''"
    by (simp add: lsof_arrow_def trim_def isSpace_def)
  have lo: "lsof_local ''*:3000'' = ''*:3000''"
    by (simp add: lsof_local_def trim_def isSpace_def)
  have re: "lsof_remote ''*:3000'' = ''*:*''"
    by (simp add: lsof_remote_def)
  have nm: "takeWhile notSpace ?l = ''node''"
    by (simp add: notSpace_def isSpace_def)
  have a: "splitHostPort ''*:3000'' = (''*'', Some (Num 3000))"
    by (simp add: address_defs number_defs char_defs Let_def)
  have b: "splitHostPort ''*:*'' = (''*'', None)"
    by (simp add: address_defs number_defs char_defs Let_def)
  have p: "Number_js ''77'' = Num 77"
    by (simp add: number_defs char_defs Let_def)
  have l: "lsof_line ?l =
     [\<lparr> key = ''TCP|*:3000|*:*|77'', protocol = ''TCP'',
        localAddress = ''*'', localPort = Some (Num 3000),
        remoteAddress = ''*'', remotePort = None,
        state = ''UNKNOWN'', pid = Some (Num 77), processName = Some ''node'',
        owner = Some ''bob'' \<rparr>]"
    using lsof_line_eval [OF s m0 upper_literals(1) h, unfolded ap, OF st ar lo re nm]
    by (simp add: a b p toString_77)
  show ?thesis
    unfolding parseLsof_def lines Let_def using l by simp
qed

subsection \<open>Protocol and state of the extractor records\<close>

lemma split_lines_chars: "l \<in> set (split_lines s) \<Longrightarrow> set l \<subseteq> set s"
proof (induction s arbitrary: l rule: split_lines.induct)
  case 1
  then show ?case by simp
next
  case (2 x xs)
  show ?case
  proof (cases "x = CHR 0x0A")
    case True
    with "2.prems" "2.IH"(1) show ?thesis by auto
  next
    case nl: False
    show ?thesis
    proof (cases "x = CHR 0x0D \<and> xs \<noteq> [] \<and> hd xs = CHR 0x0A")
      case True
      with nl "2.prems" have "l = [] \<or> l \<in> set (split_lines (tl xs))" by auto
      then show ?thesis
      proof
        assume "l = []"
        then show ?thesis by simp
      next
        assume "l \<in> set (split_lines (tl xs))"
        with "2.IH"(2) [OF nl True] have "set l \<subseteq> set (tl xs)" by blast
        moreover have "set (tl xs) \<subseteq> set xs" using True by (cases xs) auto
        ultimately show ?thesis by auto
      qed
    next
      case False
      obtain y ys where y: "split_lines xs = y # ys"
        by (cases "split_lines xs") auto
      with nl False "2.prems" have "l = x # y \<or> l \<in> set ys" by auto
      moreover have "set y \<subseteq> set xs" "\<And>z. z \<in> set ys \<Longrightarrow> set z \<subseteq> set xs"
        using "2.IH"(3) [OF nl False] y by auto
      ultimately show ?thesis by auto
    qed
  qed
qed

lemma windows_record_shape:
  assumes "r \<in> set (parseWindowsNetstat text)"
  shows "(protocol r = ''TCP'' \<and> state r \<noteq> []) \<or> (protocol r = ''UDP'' \<and> state r = ''UNSPECIFIED'')"
proof -
  obtain line where cl: "clean line" and r: "r \<in> set (windows_line line)"
    using parseWindowsNetstat_lines [OF assms] by blast
  let ?parts = "split_on (CHR '' '') (collapse_ws line)"
  from windows_line_record [OF r]
  have "(protocol r = ''TCP'' \<and> 5 \<le> length ?parts \<and> state r = toUpperCase (?parts ! 3))
        \<or> (protocol r = ''UDP'' \<and> state r = ''UNSPECIFIED'')"
    by auto
  then show ?thesis
  proof
    assume t: "protocol r = ''TCP'' \<and> 5 \<le> length ?parts \<and> state r = toUpperCase (?parts ! 3)"
    then have "?parts ! 3 \<in> set ?parts"
      by (intro nth_mem) simp
    with tokens_nonempty [OF cl] have "?parts ! 3 \<noteq> []"
      by metis
    with t show ?thesis
      by (simp add: toUpperCase_nonempty)
  next
    assume "protocol r = ''UDP'' \<and> state r = ''UNSPECIFIED''"
    then show ?thesis by simp
  qed
qed

lemma ss_record_shape:
  assumes "r \<in> set (parseLinuxSS text)"
  shows "(protocol r = ''TCP'' \<or> protocol r = ''UDP'') \<and> state r \<noteq> []"
proof -
  obtain line where "r \<in> set (ss_line line)"
    using parseLinuxSS_lines [OF assms] by blast
  then obtain m1 m2 m3 m4 m5 where m: "ss_match line = Some (m1, m2, m3, m4, m5)"
    and p: "protocol r = toUpperCase m1" and s: "state r = toUpperCase m2"
    using ss_line_record by blast
  from ss_match_groups [OF m] p s show ?thesis
    by (simp add: toUpperCase_nonempty)
qed

lemma lsof_record_shape:
  assumes "r \<in> set (parseLsof text)"
  shows "(protocol r = ''TCP'' \<or> protocol r = ''UDP'') \<and> state r \<noteq> []
         \<and> (CHR 0x28 \<notin> set text \<longrightarrow>
              state r = (if protocol r = ''UDP'' then ''UNSPECIFIED'' else ''UNKNOWN''))"
proof -
  obtain line where ln: "line \<in> set (split_lines text)" and r: "r \<in> set (lsof_line line)"
    using parseLsof_lines [OF assms] by blast
  obtain i n where sw: "search_wb [lit ''TCP'', lit ''UDP''] None line 0 = Some (i, n)"
    and p: "protocol r = toUpperCase (take n (drop i line))"
    and s: "state r = lsof_state (protocol r) (after_proto line (take n (drop i line)))"
    using lsof_line_record [OF r] by blast
  have a: "protocol r = ''TCP'' \<or> protocol r = ''UDP''"
    using proto_token_upper [OF sw] p by simp
  have b: "state r \<noteq> []"
    using s by (simp add: lsof_state_nonempty)
  have c: "state r = (if protocol r = ''UDP'' then ''UNSPECIFIED'' else ''UNKNOWN'')"
    if "CHR 0x28 \<notin> set text"
  proof -
    have "set (after_proto line (take n (drop i line))) \<subseteq> set text"
      using set_after_proto split_lines_chars [OF ln] by blast
    with that have "CHR 0x28 \<notin> set (after_proto line (take n (drop i line)))"
      by blast
    then show ?thesis
      using s by (simp add: lsof_state_default)
  qed
  from a b c show ?thesis by blast
qed

subsection \<open>The state of UDP records\<close>

lemma lsof_udp_53:
  "parseLsof ''dnsmasq 77 root 4u IPv4 0x1 0t0 UDP *:53'' =
     [\<lparr> key = ''UDP|*:53|*:*|77'', protocol = ''UDP'',
        localAddress = ''*'', localPort = Some (Num 53),
        remoteAddress = ''*'', remotePort = None,
        state = ''UNSPECIFIED'', pid = Some (Num 77), processName = Some ''dnsmasq'',
        owner = Some ''root'' \<rparr>]"
proof -
  let ?l = "''dnsmasq 77 root 4u IPv4 0x1 0t0 UDP *:53''"
  have lines: "split_lines ?l = [?l]" by simp
  have s: "search_wb [lit ''TCP'', lit ''UDP''] None ?l 0 = Some (32, 3)"
    by (simp add: lit_def word_boundary_def char_at_def canonicalize_def isWordChar_def code_def)
  have m0: "take 3 (drop 32 ?l) = ''UDP''" by simp
  have h: "head_match ?l = Some (''dnsmasq'', ''77'', ''root'')"
    by (simp add: head_match_def token_def notSpace_def isSpace_def isDigit_def code_def)
  have ap: "after_proto ?l ''UDP'' = ''*:53''"
    by (simp add: after_proto_def trim_def isSpace_def)
  have st: "lsof_state ''UDP'' ''*:53'' = ''UNSPECIFIED''"
    by (simp add: lsof_state_def)
  have ar: "lsof_arrow ''*:53'' = ''*:53''"
    by (simp add: lsof_arrow_def trim_def isSpace_def)
  have lo: "lsof_local ''*:53'' = ''*:53''"
    by (simp add: lsof_local_def trim_def isSpace_def)
  have re: "lsof_remote ''*:53'' = ''*:*''"
    by (simp add: lsof_remote_def)
  have nm: "takeWhile notSpace ?l = ''dnsmasq''"
    by (simp add: notSpace_def isSpace_def)
  have a: "splitHostPort ''*:53'' = (''*'', Some (Num 53))"
    by (simp add: address_defs number_defs char_defs Let_def)
  have b: "splitHostPort ''*:*'' = (''*'', None)"
    by (simp add: address_defs number_defs char_defs Let_def)
  have p: "Number_js ''77'' = Num 77"
    by (simp add: number_defs char_defs Let_def)
  have l: "lsof_line ?l =
     [\<lparr> key = ''UDP|*:53|*:*|77'', protocol = ''UDP'',
        localAddress = ''*'', localPort = Some (Num 53),
        remoteAddress = ''*'', remotePort = None,
        state = ''UNSPECIFIED'', pid = Some (Num 77), processName = Some ''dnsmasq'',
        owner = Some ''root'' \<rparr>]"
    using lsof_line_eval [OF s m0 upper_literals(2) h, unfolded ap, OF st ar lo re nm]
    by (simp add: a b p toString_77)
  show ?thesis
    unfolding parseLsof_def lines Let_def using l by simp
qed

lemma scan_udp_500:
  "entries (scanPorts (Num 1024) Map.empty [''UDP 0.0.0.0:500 *:* 4'']) =
     [\<lparr> entry_protocol = ''UDP'', entry_localAddress = ''0.0.0.0'', entry_localPort = Num 500,
         entry_foreignAddress = ''*'', entry_foreignPort = NaN,
         entry_state = [], entry_pid = Some (Num 4), entry_processName = [] \<rparr>]"
proof -
  have mp: "clamp_maxPort (Num 1024) = 1024"
    by (simp add: clamp_maxPort_def)
  have pre: "test_proto_prefix ''UDP 0.0.0.0:500 *:* 4''"
    by (simp add: test_proto_prefix_def lit_def canonicalize_def code_def isSpace_def)
  have tr: "trim ''UDP 0.0.0.0:500 *:* 4'' = ''UDP 0.0.0.0:500 *:* 4''"
    by (simp add: trim_def isSpace_def)
  have s1: "on_data 1024 Map.empty scan_init ''UDP 0.0.0.0:500 *:* 4''
      = scan_init\<lparr>leftover := ''UDP 0.0.0.0:500 *:* 4''\<rparr>"
    by (simp add: on_data_def scan_init_def)
  show ?thesis
    unfolding scanPorts_def mp Let_def foldl.simps s1
    by (simp add: on_end_def tr pre parse_record_udp_500 scan_init_def)
qed

lemma ss_match_Nil: "ss_match [] = None"
  by (simp add: ss_match_def lit_def)

lemma ss_match_header:
  assumes "is_netid_header l"
  shows "ss_match l = None"
proof (cases l)
  case Nil
  then show ?thesis by (simp add: ss_match_Nil)
next
  case (Cons c cs)
  have k: "canonicalize (CHR ''N'') = 78" "canonicalize (CHR ''t'') = 84"
    "canonicalize (CHR ''u'') = 85"
    by (simp_all add: canonicalize_def code_def)
  have "canonicalize c \<noteq> 84 \<and> canonicalize c \<noteq> 85"
  proof (cases "isSpace c")
    case True
    then show ?thesis
      by (auto simp: isSpace_def canonicalize_def code_def)
  next
    case False
    with assms Cons have "match_here (lit ''Netid'') (c # cs)"
      by (simp add: is_netid_header_def Let_def split: if_splits)
    then have "canonicalize (CHR ''N'') = canonicalize c"
      by (simp add: lit_def split: if_splits)
    with k show ?thesis by simp
  qed
  then have "\<not> match_here (lit ''tcp'') (c # cs)" "\<not> match_here (lit ''udp'') (c # cs)"
    by (simp_all add: lit_def k)
  then show ?thesis
    unfolding Cons ss_match_def by simp
qed

lemma concat_map_filter_Nil:
  "(\<And>x. x \<in> set xs \<Longrightarrow> \<not> P x \<Longrightarrow> f x = []) \<Longrightarrow>
   concat (map f (filter P xs)) = concat (map f xs)"
  by (induction xs) auto

lemma parseLinuxSS_concat: "parseLinuxSS s = concat (map ss_line (split_lines s))"
proof -
  have a: "concat (map ss_line (filter (\<lambda>l. \<not> is_netid_header l) xs)) = concat (map ss_line xs)"
    for xs
    by (rule concat_map_filter_Nil) (simp add: ss_line_def ss_match_header)
  have b: "concat (map ss_line (filter (\<lambda>l. l \<noteq> []) xs)) = concat (map ss_line xs)" for xs
    by (rule concat_map_filter_Nil) (simp add: ss_line_def ss_match_Nil)
  show ?thesis
    unfolding parseLinuxSS_def Let_def a b ..
qed

lemma lsof_line_Nil: "lsof_line [] = []"
  by (simp add: lsof_line_def)

lemma parseLsof_concat: "parseLsof l = concat (map lsof_line (split_lines l))"
  unfolding parseLsof_def Let_def
  by (rule concat_map_filter_Nil) (simp add: lsof_line_Nil)

lemma lsof_udp_record:
  assumes "r \<in> set (lsof_line line)" "protocol r = ''UDP''"
  shows "\<exists>i n. search_wb [lit ''TCP'', lit ''UDP''] None line 0 = Some (i, n)
           \<and> state r = (case state_search (after_proto line (take n (drop i line))) 0 of
                          None \<Rightarrow> ''UNSPECIFIED''
                        | Some (j, g) \<Rightarrow> toUpperCase g)"
proof -
  obtain i n where sw: "search_wb [lit ''TCP'', lit ''UDP''] None line 0 = Some (i, n)"
    and s: "state r = lsof_state (protocol r) (after_proto line (take n (drop i line)))"
    using lsof_line_record [OF assms(1)] by blast
  from s assms(2)
  have "state r = (case state_search (after_proto line (take n (drop i line))) 0 of
                          None \<Rightarrow> ''UNSPECIFIED''
                        | Some (j, g) \<Rightarrow> toUpperCase g)"
    by (simp add: lsof_state_def split: option.splits)
  with sw show ?thesis by blast
qed

lemma lsof_udp_plain:
  assumes "r \<in> set (lsof_line line)" "protocol r = ''UDP''" "CHR 0x28 \<notin> set line"
  shows "state r = ''UNSPECIFIED''"
proof -
  obtain i n where s: "state r = lsof_state (protocol r) (after_proto line (take n (drop i line)))"
    using lsof_line_record [OF assms(1)] by blast
  have "CHR 0x28 \<notin> set (after_proto line (take n (drop i line)))"
    using set_after_proto assms(3) by blast
  then show ?thesis
    using s assms(2) by (simp add: lsof_state_default)
qed

lemma lsof_udp_closed:
  "parseLsof ''nc 77 bob 3u IPv4 0x1 0t0 UDP 1.1.1.1:5->2.2.2.2:6 (CLOSED)'' =
     [\<lparr> key = ''UDP|1.1.1.1:5|2.2.2.2:6|77'', protocol = ''UDP'',
        localAddress = ''1.1.1.1'', localPort = Some (Num 5),
        remoteAddress = ''2.2.2.2'', remotePort = Some (Num 6),
        state = ''CLOSED'', pid = Some (Num 77), processName = Some ''nc'',
        owner = Some ''bob'' \<rparr>]"
proof -
  let ?l = "''nc 77 bob 3u IPv4 0x1 0t0 UDP 1.1.1.1:5->2.2.2.2:6 (CLOSED)''"
  have lines: "split_lines ?l = [?l]" by simp
  have s: "search_wb [lit ''TCP'', lit ''UDP''] None ?l 0 = Some (26, 3)"
    by (simp add: lit_def word_boundary_def char_at_def canonicalize_def isWordChar_def code_def)
  have m0: "take 3 (drop 26 ?l) = ''UDP''" by simp
  have h: "head_match ?l = Some (''nc'', ''77'', ''bob'')"
    by (simp add: head_match_def token_def notSpace_def isSpace_def isDigit_def code_def)
  have ap: "after_proto ?l ''UDP'' = ''1.1.1.1:5->2.2.2.2:6 (CLOSED)''"
    by (simp add: after_proto_def trim_def isSpace_def)
  have ss: "state_search ''1.1.1.1:5->2.2.2.2:6 (CLOSED)'' 0 = Some (21, ''CLOSED'')"
    by (simp add: isSpace_def)
  have up: "toUpperCase ''CLOSED'' = ''CLOSED''"
    by (simp add: toUpperCase_def char_defs)
  have st: "lsof_state ''UDP'' ''1.1.1.1:5->2.2.2.2:6 (CLOSED)'' = ''CLOSED''"
    unfolding lsof_state_def ss by (simp add: up)
  have ar: "lsof_arrow ''1.1.1.1:5->2.2.2.2:6 (CLOSED)'' = ''1.1.1.1:5->2.2.2.2:6''"
    unfolding lsof_arrow_def ss by (simp add: trim_def isSpace_def)
  have sa: "split_arrow ''1.1.1.1:5->2.2.2.2:6'' = [''1.1.1.1:5'', ''2.2.2.2:6'']"
    by simp
  have ix: "indexOf_text ''->'' ''1.1.1.1:5->2.2.2.2:6'' 0 = 9"
    by simp
  have lo: "lsof_local ''1.1.1.1:5->2.2.2.2:6'' = ''1.1.1.1:5''"
    unfolding lsof_local_def ix sa by (simp add: trim_def isSpace_def)
  have re: "lsof_remote ''1.1.1.1:5->2.2.2.2:6'' = ''2.2.2.2:6''"
    unfolding lsof_remote_def ix sa by (simp add: trim_def isSpace_def)
  have nm: "takeWhile notSpace ?l = ''nc''"
    by (simp add: notSpace_def isSpace_def)
  have a: "splitHostPort ''1.1.1.1:5'' = (''1.1.1.1'', Some (Num 5))"
    by (simp add: address_defs number_defs char_defs Let_def)
  have b: "splitHostPort ''2.2.2.2:6'' = (''2.2.2.2'', Some (Num 6))"
    by (simp add: address_defs number_defs char_defs Let_def)
  have p: "Number_js ''77'' = Num 77"
    by (simp add: number_defs char_defs Let_def)
  have l: "lsof_line ?l =
     [\<lparr> key = ''UDP|1.1.1.1:5|2.2.2.2:6|77'', protocol = ''UDP'',
        localAddress = ''1.1.1.1'', localPort = Some (Num 5),
        remoteAddress = ''2.2.2.2'', remotePort = Some (Num 6),
        state = ''CLOSED'', pid = Some (Num 77), processName = Some ''nc'',
        owner = Some ''bob'' \<rparr>]"
    using lsof_line_eval [OF s m0 upper_literals(2) h, unfolded ap, OF st ar lo re nm]
    by (simp add: a b p toString_77)
  show ?thesis
    unfolding parseLsof_def lines Let_def using l by simp
qed

lemma lsof_line_udp_closed:
  "lsof_line ''nc 77 bob 3u IPv4 0x1 0t0 UDP 1.1.1.1:5->2.2.2.2:6 (CLOSED)'' =
     [\<lparr> key = ''UDP|1.1.1.1:5|2.2.2.2:6|77'', protocol = ''UDP'',
        localAddress = ''1.1.1.1'', localPort = Some (Num 5),
        remoteAddress = ''2.2.2.2'', remotePort = Some (Num 6),
        state = ''CLOSED'', pid = Some (Num 77), processName = Some ''nc'',
        owner = Some ''bob'' \<rparr>]"
  using lsof_udp_closed unfolding parseLsof_concat by simp

lemma lsof_line_udp_53:
  "lsof_line ''dnsmasq 77 root 4u IPv4 0x1 0t0 UDP *:53'' =
     [\<lparr> key = ''UDP|*:53|*:*|77'', protocol = ''UDP'',
        localAddress = ''*'', localPort = Some (Num 53),
        remoteAddress = ''*'', remotePort = None,
        state = ''UNSPECIFIED'', pid = Some (Num 77), processName = Some ''dnsmasq'',
        owner = Some ''root'' \<rparr>]"
  using lsof_udp_53 unfolding parseLsof_concat by simp

lemma ss_line_udp_unconn:
  "ss_line ''udp UNCONN 0 0 0.0.0.0:68 0.0.0.0:*'' =
     [\<lparr> key = ''UDP|0.0.0.0:68|0.0.0.0:*|'', protocol = ''UDP'',
        localAddress = ''0.0.0.0'', localPort = Some (Num 68),
        remoteAddress = ''0.0.0.0'', remotePort = None,
        state = ''UNCONN'', pid = None, processName = None, owner = None \<rparr>]"
  using ss_udp_unconn unfolding parseLinuxSS_concat by simp

subsection \<open>The scan engine on the byte stream\<close>

text \<open>The left-over buffer puts the decoded texts of the Buffers together again: the scan
  depends on the Buffers through the concatenation of their decoded texts only.\<close>

lemma split_lines16_not_Nil [simp]: "split_lines16 s \<noteq> []"
  by (induction s rule: split_lines16.induct) (auto split: list.splits)

lemma split_lines16_single: "split_lines16 s = [y] \<Longrightarrow> y = s"
proof (induction s arbitrary: y rule: split_lines16.induct)
  case 1
  then show ?case by simp
next
  case (2 x xs)
  show ?case
  proof (cases "x = 0x0A \<or> (x = 0x0D \<and> xs \<noteq> [] \<and> hd xs = 0x0A)")
    case True
    with "2.prems" show ?thesis by (auto split: if_splits)
  next
    case False
    obtain z zs where z: "split_lines16 xs = z # zs" by (cases "split_lines16 xs") auto
    with False "2.prems" have "zs = []" "y = x # z" by (auto split: if_splits)
    with "2.IH"(3) [of z] False z show ?thesis by auto
  qed
qed

lemma split_lines16_last: "split_lines16 (last (split_lines16 s)) = [last (split_lines16 s)]"
proof (induction s rule: split_lines16.induct)
  case 1
  then show ?case by simp
next
  case (2 x xs)
  show ?case
  proof (cases "x = 0x0A")
    case True
    with "2.IH"(1) show ?thesis by simp
  next
    case nl: False
    show ?thesis
    proof (cases "x = 0x0D \<and> xs \<noteq> [] \<and> hd xs = 0x0A")
      case True
      with nl "2.IH"(2) show ?thesis by simp
    next
      case False
      obtain z zs where z: "split_lines16 xs = z # zs" by (cases "split_lines16 xs") auto
      show ?thesis
      proof (cases "zs = []")
        case True
        with z have "z = xs" by (simp add: split_lines16_single)
        with nl False z True show ?thesis by auto
      next
        case ne: False
        with nl False z "2.IH"(3) show ?thesis by auto
      qed
    qed
  qed
qed

lemma split_lines16_append:
  "split_lines16 (a @ b) = butlast (split_lines16 a) @ split_lines16 (last (split_lines16 a) @ b)"
proof (induction a rule: split_lines16.induct)
  case 1
  then show ?case by simp
next
  case (2 x xs)
  show ?case
  proof (cases "x = 0x0A")
    case True
    with "2.IH"(1) show ?thesis by simp
  next
    case nl: False
    show ?thesis
    proof (cases "x = 0x0D \<and> xs \<noteq> [] \<and> hd xs = 0x0A")
      case True
      then have "tl (xs @ b) = tl xs @ b" by (cases xs) auto
      with True nl "2.IH"(2) show ?thesis by simp
    next
      case False
      obtain z zs where z: "split_lines16 xs = z # zs" by (cases "split_lines16 xs") auto
      show ?thesis
      proof (cases "zs = []")
        case True
        with z have "z = xs" by (simp add: split_lines16_single)
        with nl False z True have sx: "split_lines16 (x # xs) = [x # xs]" by simp
        show ?thesis unfolding sx by simp
      next
        case ne: False
        then have xs: "xs \<noteq> []" using z by (cases xs) auto
        then have h: "hd (xs @ b) = hd xs" by simp
        have "split_lines16 (x # xs @ b) =
              (case split_lines16 (xs @ b) of y # ys \<Rightarrow> (x # y) # ys | [] \<Rightarrow> [[x]])"
          using nl False xs h by auto
        also have "split_lines16 (xs @ b) = z # butlast zs @ split_lines16 (last zs @ b)"
          using "2.IH"(3) nl False z ne by simp
        finally show ?thesis using nl False z ne by simp
      qed
    qed
  qed
qed

lemma parse_record16_leftover:
  "parse_record16 mp pm line (st\<lparr>leftover16 := x\<rparr>) = (parse_record16 mp pm line st)\<lparr>leftover16 := x\<rparr>"
  by (simp add: parse_record16_def Let_def split_beta)

lemma data_line16_leftover_upd:
  "data_line16 mp pm (st\<lparr>leftover16 := x\<rparr>) raw = (data_line16 mp pm st raw)\<lparr>leftover16 := x\<rparr>"
  by (simp add: data_line16_def Let_def parse_record16_leftover maybeProgress16_def)

lemma foldl_data_line16_leftover_upd:
  "foldl (data_line16 mp pm) (st\<lparr>leftover16 := x\<rparr>) ls = (foldl (data_line16 mp pm) st ls)\<lparr>leftover16 := x\<rparr>"
  by (induction ls arbitrary: st) (simp_all add: data_line16_leftover_upd)

lemma on_data16_lines:
  "on_data16 mp pm st buf =
     (foldl (data_line16 mp pm) st (butlast (split_lines16 (leftover16 st @ toString_utf8 buf))))
       \<lparr>leftover16 := last (split_lines16 (leftover16 st @ toString_utf8 buf))\<rparr>"
  by (simp add: on_data16_def Let_def foldl_data_line16_leftover_upd)

lemma foldl_on_data16:
  assumes "split_lines16 (leftover16 st) = [leftover16 st]"
  shows "foldl (on_data16 mp pm) st chunks =
     (foldl (data_line16 mp pm) st (butlast (split_lines16 (leftover16 st @ concat (map toString_utf8 chunks)))))
       \<lparr>leftover16 := last (split_lines16 (leftover16 st @ concat (map toString_utf8 chunks)))\<rparr>"
  using assms
proof (induction chunks arbitrary: st)
  case Nil
  then show ?case by simp
next
  case (Cons b bs)
  define A where "A = butlast (split_lines16 (leftover16 st @ toString_utf8 b))"
  define l where "l = last (split_lines16 (leftover16 st @ toString_utf8 b))"
  define st' where "st' = on_data16 mp pm st b"
  have st': "st' = (foldl (data_line16 mp pm) st A)\<lparr>leftover16 := l\<rparr>"
    by (simp add: st'_def on_data16_lines A_def l_def)
  then have lo: "leftover16 st' = l" by simp
  have single: "split_lines16 (leftover16 st') = [leftover16 st']"
    unfolding lo l_def by (rule split_lines16_last)
  have sp: "split_lines16 (leftover16 st @ toString_utf8 b @ concat (map toString_utf8 bs)) = A @ split_lines16 (l @ concat (map toString_utf8 bs))"
    using split_lines16_append [of "leftover16 st @ toString_utf8 b" "concat (map toString_utf8 bs)"] by (simp add: A_def l_def)
  have "foldl (on_data16 mp pm) st (b # bs) = foldl (on_data16 mp pm) st' bs"
    by (simp add: st'_def)
  also have "\<dots> = (foldl (data_line16 mp pm) st' (butlast (split_lines16 (l @ concat (map toString_utf8 bs)))))
       \<lparr>leftover16 := last (split_lines16 (l @ concat (map toString_utf8 bs)))\<rparr>"
    using Cons.IH [OF single] by (simp add: lo)
  also have "\<dots> = (foldl (data_line16 mp pm) st (A @ butlast (split_lines16 (l @ concat (map toString_utf8 bs)))))
       \<lparr>leftover16 := last (split_lines16 (l @ concat (map toString_utf8 bs)))\<rparr>"
    by (simp add: st' foldl_data_line16_leftover_upd)
  finally show ?case by (simp add: sp butlast_append)
qed

lemma scanPorts16_decoded:
  "scanPorts16 maxPort pidMap chunks =
     on_end16 (clamp_maxPort maxPort) pidMap
       ((foldl (data_line16 (clamp_maxPort maxPort) pidMap) scan_init16
           (butlast (split_lines16 (concat (map toString_utf8 chunks)))))
         \<lparr>leftover16 := last (split_lines16 (concat (map toString_utf8 chunks)))\<rparr>)"
proof -
  have i: "split_lines16 (leftover16 scan_init16) = [leftover16 scan_init16]"
    by (simp add: scan_init16_def)
  have l: "leftover16 scan_init16 = []"
    by (simp add: scan_init16_def)
  show ?thesis
    unfolding scanPorts16_def Let_def foldl_on_data16 [OF i] l by simp
qed

lemma scanPorts16_reassembly:
  "concat (map toString_utf8 chunks) = concat (map toString_utf8 chunks') \<Longrightarrow>
     scanPorts16 maxPort pidMap chunks = scanPorts16 maxPort pidMap chunks'"
  by (simp add: scanPorts16_decoded)

text \<open>The protocol token of a line that passed the prefix test is made of ASCII letters,
  on which \<open>toUpperCase16\<close> is exact.\<close>

lemma upper_ascii_letter:
  assumes "upper_ascii u = 0x54 \<or> upper_ascii u = 0x43 \<or> upper_ascii u = 0x50
           \<or> upper_ascii u = 0x55 \<or> upper_ascii u = 0x44"
  shows "isAscii u \<and> \<not> isSpace16 u"
  using assms by (auto simp: upper_ascii_def isAscii_def isSpace16_def split: if_splits)

lemma protocol_token_ascii:
  assumes "test_proto_prefix16 line"
  shows "hd (split_ws16 line) = take 3 line \<and> list_all isAscii (take 3 line)"
proof -
  from assms have m: "map upper_ascii (take 3 line) = str16 ''TCP''
      \<or> map upper_ascii (take 3 line) = str16 ''UDP''"
    and r: "drop 3 line \<noteq> []" "isSpace16 (hd (drop 3 line))"
    by (auto simp: test_proto_prefix16_def split: if_splits)
  from r obtain a b c s t where line: "line = a # b # c # s # t"
    by (cases line; cases "tl line"; cases "tl (tl line)"; cases "tl (tl (tl line))") auto
  with r have s: "isSpace16 s" by simp
  from m have "(upper_ascii a = 0x54 \<and> upper_ascii b = 0x43 \<and> upper_ascii c = 0x50)
      \<or> (upper_ascii a = 0x55 \<and> upper_ascii b = 0x44 \<and> upper_ascii c = 0x50)"
    unfolding line by (simp add: str16_def code_def)
  then have abc: "isAscii a \<and> \<not> isSpace16 a" "isAscii b \<and> \<not> isSpace16 b"
    "isAscii c \<and> \<not> isSpace16 c"
    using upper_ascii_letter [of a] upper_ascii_letter [of b] upper_ascii_letter [of c]
    by auto
  show ?thesis
    unfolding line using abc s by simp
qed

text \<open>A line whose state starts with a two-byte character, delivered in two Buffers of
  which the first ends inside that character, and delivered in one.\<close>

lemmas text16_defs = str16_def code_def isSpace16_def isDigit16_def isAscii_def
  isLineTerminator16_def upper_ascii_def toUpperCase16_def

lemma toString_utf8_cut_left:
  "toString_utf8 (''TCP 1.1.1.1:80 2.2.2.2:9 '' @ [CHR 0xC3])
     = str16 ''TCP 1.1.1.1:80 2.2.2.2:9 '' @ [0xFFFD]"
  by (simp add: toString_utf8_def utf16_units_def str16_def code_def)

lemma toString_utf8_cut_right:
  "toString_utf8 (CHR 0x89 # ''TABLIE 7'' @ [CHR 0x0D, CHR 0x0A])
     = 0xFFFD # str16 ''TABLIE 7'' @ [0x0D, 0x0A]"
  by (simp add: toString_utf8_def utf16_units_def str16_def code_def)

lemma toString_utf8_whole:
  "toString_utf8 ((''TCP 1.1.1.1:80 2.2.2.2:9 '' @ [CHR 0xC3])
                  @ (CHR 0x89 # ''TABLIE 7'' @ [CHR 0x0D, CHR 0x0A]))
     = str16 ''TCP 1.1.1.1:80 2.2.2.2:9 '' @ 0xC9 # str16 ''TABLIE 7'' @ [0x0D, 0x0A]"
  by (simp add: toString_utf8_def utf16_units_def str16_def code_def)

lemma parse_record16_tcp:
  assumes "split_ws16 line = [p0, local, foreign, st0, pd]"
    and "toUpperCase16 p0 = str16 ''TCP''"
    and "local \<noteq> []" "foreign \<noteq> []" "st0 \<noteq> []"
    and "ports_splitHostPort16 local = (la, Num lp)"
    and "ports_splitHostPort16 foreign = (fa, fp)"
    and "parseInt16 pd = Num n"
    and "lp \<le> mp"
  shows "parse_record16 mp Map.empty line st =
     st\<lparr>parsedCount16 := parsedCount16 st + 1,
         entries16 := entries16 st @
           [\<lparr> protocol16 = str16 ''TCP'', localAddress16 = la, localPort16 = Num lp,
               foreignAddress16 = fa, foreignPort16 = fp, state16 = st0,
               pid16 = Some (Num n), processName16 = [] \<rparr>]\<rparr>"
  unfolding parse_record16_def assms(1) Let_def
  using assms(2-) by (simp add: part_or16_def port_within_def isNaN_def)

lemma address16_80: "ports_splitHostPort16 (str16 ''1.1.1.1:80'') = (str16 ''1.1.1.1'', Num 80)"
  by (simp add: ports_splitHostPort16_def ports_match_bracket16_def lastIndexOf16_def
      Number16_def trim16_def text16_defs number_defs char_defs Let_def)

lemma address16_9: "ports_splitHostPort16 (str16 ''2.2.2.2:9'') = (str16 ''2.2.2.2'', Num 9)"
  by (simp add: ports_splitHostPort16_def ports_match_bracket16_def lastIndexOf16_def
      Number16_def trim16_def text16_defs number_defs char_defs Let_def)

lemma parseInt16_7: "parseInt16 (str16 ''7'') = Num 7"
  by (simp add: parseInt16_def text16_defs number_defs char_defs Let_def)

lemma clamp_maxPort_default: "clamp_maxPort (Num 65535) = 65535"
  by (simp add: clamp_maxPort_def)

lemma line16_replaced:
  "parse_record16 65535 Map.empty
     (str16 ''TCP 1.1.1.1:80 2.2.2.2:9 '' @ 0xFFFD # 0xFFFD # str16 ''TABLIE 7'') st =
   st\<lparr>parsedCount16 := parsedCount16 st + 1,
       entries16 := entries16 st @
         [\<lparr> protocol16 = str16 ''TCP'', localAddress16 = str16 ''1.1.1.1'', localPort16 = Num 80,
             foreignAddress16 = str16 ''2.2.2.2'', foreignPort16 = Num 9,
             state16 = 0xFFFD # 0xFFFD # str16 ''TABLIE'',
             pid16 = Some (Num 7), processName16 = [] \<rparr>]\<rparr>"
proof -
  have parts: "split_ws16 (str16 ''TCP 1.1.1.1:80 2.2.2.2:9 '' @ 0xFFFD # 0xFFFD # str16 ''TABLIE 7'')
      = [str16 ''TCP'', str16 ''1.1.1.1:80'', str16 ''2.2.2.2:9'',
         0xFFFD # 0xFFFD # str16 ''TABLIE'', str16 ''7'']"
    by (simp add: str16_def code_def isSpace16_def)
  have up: "toUpperCase16 (str16 ''TCP'') = str16 ''TCP''"
    by (simp add: text16_defs)
  show ?thesis
    by (rule parse_record16_tcp [OF parts up _ _ _ address16_80 address16_9 parseInt16_7])
       (simp_all add: str16_def)
qed

lemma line16_whole:
  "parse_record16 65535 Map.empty
     (str16 ''TCP 1.1.1.1:80 2.2.2.2:9 '' @ 0xC9 # str16 ''TABLIE 7'') st =
   st\<lparr>parsedCount16 := parsedCount16 st + 1,
       entries16 := entries16 st @
         [\<lparr> protocol16 = str16 ''TCP'', localAddress16 = str16 ''1.1.1.1'', localPort16 = Num 80,
             foreignAddress16 = str16 ''2.2.2.2'', foreignPort16 = Num 9,
             state16 = 0xC9 # str16 ''TABLIE'',
             pid16 = Some (Num 7), processName16 = [] \<rparr>]\<rparr>"
proof -
  have parts: "split_ws16 (str16 ''TCP 1.1.1.1:80 2.2.2.2:9 '' @ 0xC9 # str16 ''TABLIE 7'')
      = [str16 ''TCP'', str16 ''1.1.1.1:80'', str16 ''2.2.2.2:9'',
         0xC9 # str16 ''TABLIE'', str16 ''7'']"
    by (simp add: str16_def code_def isSpace16_def)
  have up: "toUpperCase16 (str16 ''TCP'') = str16 ''TCP''"
    by (simp add: text16_defs)
  show ?thesis
    by (rule parse_record16_tcp [OF parts up _ _ _ address16_80 address16_9 parseInt16_7])
       (simp_all add: str16_def)
qed

lemma scan16_two_buffers:
  "entries16 (scanPorts16 (Num 65535) Map.empty
     [''TCP 1.1.1.1:80 2.2.2.2:9 '' @ [CHR 0xC3],
      CHR 0x89 # ''TABLIE 7'' @ [CHR 0x0D, CHR 0x0A]]) =
   [\<lparr> protocol16 = str16 ''TCP'', localAddress16 = str16 ''1.1.1.1'', localPort16 = Num 80,
       foreignAddress16 = str16 ''2.2.2.2'', foreignPort16 = Num 9,
       state16 = 0xFFFD # 0xFFFD # str16 ''TABLIE'',
       pid16 = Some (Num 7), processName16 = [] \<rparr>]"
proof -
  let ?t = "str16 ''TCP 1.1.1.1:80 2.2.2.2:9 '' @ 0xFFFD # 0xFFFD # str16 ''TABLIE 7''"
  have s1: "on_data16 65535 Map.empty scan_init16 (''TCP 1.1.1.1:80 2.2.2.2:9 '' @ [CHR 0xC3])
      = scan_init16\<lparr>leftover16 := str16 ''TCP 1.1.1.1:80 2.2.2.2:9 '' @ [0xFFFD]\<rparr>"
    unfolding on_data16_def toString_utf8_cut_left
    by (simp add: scan_init16_def str16_def code_def)
  have lf: "leftover16 (scan_init16\<lparr>leftover16 := str16 ''TCP 1.1.1.1:80 2.2.2.2:9 '' @ [0xFFFD]\<rparr>)
      = str16 ''TCP 1.1.1.1:80 2.2.2.2:9 '' @ [0xFFFD]"
    by simp
  have ch: "(str16 ''TCP 1.1.1.1:80 2.2.2.2:9 '' @ [0xFFFD])
      @ (0xFFFD # str16 ''TABLIE 7'' @ [0x0D, 0x0A]) = ?t @ [0x0D, 0x0A]"
    by simp
  have sl: "split_lines16 (?t @ [0x0D, 0x0A]) = [?t, []]"
    by (simp add: str16_def code_def)
  have tr: "trim16 ?t = ?t"
    by (simp add: trim16_def str16_def code_def isSpace16_def)
  have ne: "?t \<noteq> []"
    by (simp add: str16_def)
  have pre: "test_proto_prefix16 ?t"
    by (simp add: test_proto_prefix16_def text16_defs)
  have s2: "on_data16 65535 Map.empty
       (scan_init16\<lparr>leftover16 := str16 ''TCP 1.1.1.1:80 2.2.2.2:9 '' @ [0xFFFD]\<rparr>)
       (CHR 0x89 # ''TABLIE 7'' @ [CHR 0x0D, CHR 0x0A])
      = \<lparr> entries16 =
            [\<lparr> protocol16 = str16 ''TCP'', localAddress16 = str16 ''1.1.1.1'',
                localPort16 = Num 80, foreignAddress16 = str16 ''2.2.2.2'',
                foreignPort16 = Num 9, state16 = 0xFFFD # 0xFFFD # str16 ''TABLIE'',
                pid16 = Some (Num 7), processName16 = [] \<rparr>],
          leftover16 = [], parsedCount16 = 1, estimateTotal16 = 200, progress16 = [] \<rparr>"
    unfolding on_data16_def toString_utf8_cut_right Let_def lf ch sl
    by (simp add: data_line16_def tr ne pre line16_replaced scan_init16_def)
  show ?thesis
    unfolding scanPorts16_def clamp_maxPort_default Let_def foldl.simps s1 s2
    by (simp add: on_end16_def trim16_def)
qed

lemma scan16_one_buffer:
  "entries16 (scanPorts16 (Num 65535) Map.empty
     [(''TCP 1.1.1.1:80 2.2.2.2:9 '' @ [CHR 0xC3])
      @ (CHR 0x89 # ''TABLIE 7'' @ [CHR 0x0D, CHR 0x0A])]) =
   [\<lparr> protocol16 = str16 ''TCP'', localAddress16 = str16 ''1.1.1.1'', localPort16 = Num 80,
       foreignAddress16 = str16 ''2.2.2.2'', foreignPort16 = Num 9,
       state16 = 0xC9 # str16 ''TABLIE'',
       pid16 = Some (Num 7), processName16 = [] \<rparr>]"
proof -
  let ?t = "str16 ''TCP 1.1.1.1:80 2.2.2.2:9 '' @ 0xC9 # str16 ''TABLIE 7''"
  have lf: "leftover16 scan_init16 = []"
    by (simp add: scan_init16_def)
  have ch: "[] @ str16 ''TCP 1.1.1.1:80 2.2.2.2:9 '' @ 0xC9 # str16 ''TABLIE 7'' @ [0x0D, 0x0A]
      = ?t @ [0x0D, 0x0A]"
    by simp
  have sl: "split_lines16 (?t @ [0x0D, 0x0A]) = [?t, []]"
    by (simp add: str16_def code_def)
  have tr: "trim16 ?t = ?t"
    by (simp add: trim16_def str16_def code_def isSpace16_def)
  have ne: "?t \<noteq> []"
    by (simp add: str16_def)
  have pre: "test_proto_prefix16 ?t"
    by (simp add: test_proto_prefix16_def text16_defs)
  have s1: "on_data16 65535 Map.empty scan_init16
       ((''TCP 1.1.1.1:80 2.2.2.2:9 '' @ [CHR 0xC3])
        @ (CHR 0x89 # ''TABLIE 7'' @ [CHR 0x0D, CHR 0x0A]))
      = \<lparr> entries16 =
            [\<lparr> protocol16 = str16 ''TCP'', localAddress16 = str16 ''1.1.1.1'',
                localPort16 = Num 80, foreignAddress16 = str16 ''2.2.2.2'',
                foreignPort16 = Num 9, state16 = 0xC9 # str16 ''TABLIE'',
                pid16 = Some (Num 7), processName16 = [] \<rparr>],
          leftover16 = [], parsedCount16 = 1, estimateTotal16 = 200, progress16 = [] \<rparr>"
    unfolding on_data16_def toString_utf8_whole Let_def lf ch sl
    by (simp add: data_line16_def tr ne pre line16_whole scan_init16_def)
  show ?thesis
    unfolding scanPorts16_def clamp_maxPort_default Let_def foldl.simps s1
    by (simp add: on_end16_def trim16_def)
qed

section \<open>The claims\<close>

text \<open>
  C1. However the output of the subprocess is cut into chunks, the scan engine is to
  resolve to the same records: a line that arrives in two chunks is to give the record it
  gives when it arrives whole. The handler decodes each Buffer on its own, so a cut inside
  a character of several bytes leaves two replacement characters in the line: here the
  state of the record is U+FFFD U+FFFD \<open>TABLIE\<close> when the line arrives in two Buffers
  and U+00C9 \<open>TABLIE\<close> when it arrives in one. On the decoded texts the left-over buffer
  is exact (lemma \<open>scanPorts16_reassembly\<close>).
\<close>

theorem split_inside_character:
  "entries16 (scanPorts16 (Num 65535) Map.empty
     [''TCP 1.1.1.1:80 2.2.2.2:9 '' @ [CHR 0xC3],
      CHR 0x89 # ''TABLIE 7'' @ [CHR 0x0D, CHR 0x0A]]) =
   [\<lparr> protocol16 = str16 ''TCP'', localAddress16 = str16 ''1.1.1.1'', localPort16 = Num 80,
       foreignAddress16 = str16 ''2.2.2.2'', foreignPort16 = Num 9,
       state16 = 0xFFFD # 0xFFFD # str16 ''TABLIE'',
       pid16 = Some (Num 7), processName16 = [] \<rparr>]
   \<and> entries16 (scanPorts16 (Num 65535) Map.empty
     [(''TCP 1.1.1.1:80 2.2.2.2:9 '' @ [CHR 0xC3])
      @ (CHR 0x89 # ''TABLIE 7'' @ [CHR 0x0D, CHR 0x0A])]) =
   [\<lparr> protocol16 = str16 ''TCP'', localAddress16 = str16 ''1.1.1.1'', localPort16 = Num 80,
       foreignAddress16 = str16 ''2.2.2.2'', foreignPort16 = Num 9,
       state16 = 0xC9 # str16 ''TABLIE'',
       pid16 = Some (Num 7), processName16 = [] \<rparr>]"
  by (simp only: scan16_two_buffers scan16_one_buffer)

text \<open>
  C2. The Windows netstat extractor maps the single line
  \<open>"  TCP    0.0.0.0:135            0.0.0.0:0              LISTENING       900"\<close>
  to exactly one record: protocol TCP, local address 0.0.0.0, local port 135, remote
  address 0.0.0.0, remote port 0, state LISTENING, pid 900, process name and owner null.
\<close>

theorem windows_netstat_example: "parseWindowsNetstat ''  TCP    0.0.0.0:135            0.0.0.0:0              LISTENING       900'' = 
  [\<lparr> key = ''TCP|0.0.0.0:135|0.0.0.0:0|900'', protocol = ''TCP'',
     localAddress = ''0.0.0.0'', localPort = Some (Num 135),
     remoteAddress = ''0.0.0.0'', remotePort = Some (Num 0),
     state = ''LISTENING'', pid = Some (Num 900), processName = None,
     owner = None\<rparr>]"
proof -
  let ?L = "''  TCP    0.0.0.0:135            0.0.0.0:0              LISTENING       900''"
  let ?T = "''TCP    0.0.0.0:135            0.0.0.0:0              LISTENING       900''"
  have lines: "split_lines ?L = [?L]"
    by simp
  have trimmed: "trim ?L = ?T"
    by (simp add: trim_def isSpace_def)
  have p1: "replace_prefix (lit ''Connexions actives'') ''Active Connections'' ?T = ?T"
    by (simp add: replace_prefix_def lit_def canonicalize_def code_def)
  have p2: "replace_wb (lit ''Adresse locale'') r ?T = ?T" for r
    by (simp add: replace_wb_def lit_def search_wb_no_first canonicalize_def code_def)
  have p3: "replace_wb (lit ''Adresse distante'') r ?T = ?T" for r
    by (simp add: replace_wb_def lit_def search_wb_no_first canonicalize_def code_def)
  have p4: "replace_wb ([[E_acute, CHR ''E'']] @ lit ''tat'') r ?T = ?T" for r
    by (simp add: replace_wb_def lit_def search_wb_no_pair canonicalize_def code_def E_acute_def)
  have p5: "replace_wb ([[E_acute]] @ lit ''COUTE'') r ?T = ?T" for r
    by (simp add: replace_wb_def lit_def search_wb_no_first canonicalize_def code_def E_acute_def)
  have p6: "replace_wb (lit ''ECOUTE'') r ?T = ?T" for r
    by (simp add: replace_wb_def lit_def search_wb_no_pair canonicalize_def code_def)
  have p7: "replace_wb (lit ''FERM'' @ [[E_acute, CHR ''E'']] @ lit ''E'') r ?T = ?T" for r
    by (simp add: replace_wb_def lit_def search_wb_no_first canonicalize_def code_def)
  have norm: "normalize_line ?T = ?T"
    unfolding normalize_line_def by (simp only: p1 p2 p3 p4 p5 p6 p7)
  have tok: "has_proto_token ?T"
    by (simp add: has_proto_token_def lit_def word_boundary_def char_at_def canonicalize_def
        isWordChar_def code_def)
  have parts: "split_on (CHR '' '') (collapse_ws ?T)
               = [''TCP'', ''0.0.0.0:135'', ''0.0.0.0:0'', ''LISTENING'', ''900'']"
    by (simp add: isSpace_def)
  have up: "toUpperCase ''TCP'' = ''TCP''" "toUpperCase ''LISTENING'' = ''LISTENING''"
    by (simp_all add: toUpperCase_def char_defs)
  have a1: "splitHostPort ''0.0.0.0:135'' = (''0.0.0.0'', Some (Num 135))"
    by (simp add: splitHostPort_def match_bracket_def indexOf_def lastIndexOf_def number_defs
        char_defs Let_def)
  have a2: "splitHostPort ''0.0.0.0:0'' = (''0.0.0.0'', Some (Num 0))"
    by (simp add: splitHostPort_def match_bracket_def indexOf_def lastIndexOf_def number_defs
        char_defs Let_def)
  have n: "or_null (Number_js ''900'') = Some (Num 900)"
    by (simp add: number_defs char_defs Let_def)
  have line: "windows_line ?T =
    [\<lparr> key = ''TCP|0.0.0.0:135|0.0.0.0:0|900'', protocol = ''TCP'',
       localAddress = ''0.0.0.0'', localPort = Some (Num 135),
       remoteAddress = ''0.0.0.0'', remotePort = Some (Num 0),
       state = ''LISTENING'', pid = Some (Num 900), processName = None,
       owner = None\<rparr>]"
    unfolding windows_line_def parts by (simp add: up a1 a2 n)
  show ?thesis
    unfolding parseWindowsNetstat_def lines by (simp add: trimmed norm tok line)
qed

text \<open>
  C3. A Windows netstat line whose state is in French is to give the record of the
  English line. The state \<open>ETABLIE\<close> with its accent has no replacement in
  \<open>normalize_line\<close> and is kept, where the English line gives \<open>ESTABLISHED\<close>; and
  \<open>ECOUTE\<close> with its accent is kept as well when a space precedes it, since \<open>\b\<close>
  does not hold between a space and an accented capital.
\<close>

theorem french_state_not_normalized:
  "map state (parseWindowsNetstat (''TCP 10.0.0.5:50000 1.1.1.1:443 '' @ [E_acute] @ ''TABLIE 1234''))
     = [[E_acute] @ ''TABLIE'']
   \<and> map state (parseWindowsNetstat ''TCP 10.0.0.5:50000 1.1.1.1:443 ESTABLISHED 1234'')
     = [''ESTABLISHED'']
   \<and> map state (parseWindowsNetstat (''TCP 0.0.0.0:135 0.0.0.0:0 '' @ [E_acute] @ ''COUTE 900''))
     = [[E_acute] @ ''COUTE'']"
  unfolding windows_etablie windows_established windows_ecoute by simp

text \<open>
  C4. A port that is present is to be an integer from 0 to 65535. No extractor checks the
  range: the text \<open>99999\<close> after the colon gives the port 99999.
\<close>

theorem port_out_of_range:
  "map localPort (parseWindowsNetstat ''TCP 1.2.3.4:99999 0.0.0.0:0 LISTENING 4'')
     = [Some (Num 99999)]"
  by (simp add: windows_port_99999)

text \<open>
  C4, as amended. In every record of the three extractors a port that is present is a
  number and not \<open>NaN\<close>. It is the value of the text after the colon, so on a token
  with one colon it is an integer from 0 to 65535 when that text is a run of decimal
  digits of a value up to 65535.
\<close>

theorem ports_are_numbers:
  "(r \<in> set (parseWindowsNetstat t1) \<union> set (parseLinuxSS t2) \<union> set (parseLsof t3) \<longrightarrow>
      localPort r \<noteq> Some NaN \<and> remotePort r \<noteq> Some NaN)
   \<and> (d \<noteq> [] \<and> list_all isDigit d \<and> digits_val 10 0 d \<le> 65535 \<and> CHR '':'' \<notin> set h \<longrightarrow>
      (\<exists>n. snd (splitHostPort (h @ '':'' @ d)) = Some (Num (of_int n)) \<and> 0 \<le> n \<and> n \<le> 65535))"
proof (intro conjI impI)
  assume "r \<in> set (parseWindowsNetstat t1) \<union> set (parseLinuxSS t2) \<union> set (parseLsof t3)"
  then consider (w) "r \<in> set (parseWindowsNetstat t1)" | (s) "r \<in> set (parseLinuxSS t2)"
    | (l) "r \<in> set (parseLsof t3)" by blast
  then obtain a b where "localPort r = snd (splitHostPort a)" "remotePort r = snd (splitHostPort b)"
  proof cases
    case w
    then show ?thesis using that by (blast dest: parseWindowsNetstat_lines windows_line_record)
  next
    case s
    then show ?thesis using that by (blast dest: parseLinuxSS_lines ss_line_record)
  next
    case l
    then show ?thesis using that by (blast dest: parseLsof_lines lsof_line_record)
  qed
  then show "localPort r \<noteq> Some NaN" "remotePort r \<noteq> Some NaN"
    using splitHostPort_not_NaN [of a] splitHostPort_not_NaN [of b] by simp_all
next
  assume a: "d \<noteq> [] \<and> list_all isDigit d \<and> digits_val 10 0 d \<le> 65535 \<and> CHR '':'' \<notin> set h"
  then have "snd (splitHostPort (h @ '':'' @ d)) = Some (Num (of_int (digits_val 10 0 d)))"
    by (intro splitHostPort_decimal) simp_all
  moreover have "0 \<le> digits_val 10 0 d" using a by (simp add: digits_val_nonneg)
  ultimately show "\<exists>n. snd (splitHostPort (h @ '':'' @ d)) = Some (Num (of_int n)) \<and> 0 \<le> n \<and> n \<le> 65535"
    using a by blast
qed

theorem ports_are_numbers_witness:
  "\<lparr> key = ''TCP|1.2.3.4:99999|0.0.0.0:0|4'', protocol = ''TCP'',
      localAddress = ''1.2.3.4'', localPort = Some (Num 99999),
      remoteAddress = ''0.0.0.0'', remotePort = Some (Num 0),
      state = ''LISTENING'', pid = Some (Num 4), processName = None, owner = None \<rparr>
     \<in> set (parseWindowsNetstat ''TCP 1.2.3.4:99999 0.0.0.0:0 LISTENING 4'')
   \<and> Some (Num 99999) \<noteq> Some NaN \<and> Some (Num 0) \<noteq> Some NaN
   \<and> ''135'' \<noteq> [] \<and> list_all isDigit ''135'' \<and> digits_val 10 0 ''135'' \<le> 65535
   \<and> CHR '':'' \<notin> set ''0.0.0.0''
   \<and> (\<exists>n. snd (splitHostPort (''0.0.0.0'' @ '':'' @ ''135'')) = Some (Num (of_int n))
          \<and> 0 \<le> n \<and> n \<le> 65535)"
  using ports_are_numbers [of
      "\<lparr> key = ''TCP|1.2.3.4:99999|0.0.0.0:0|4'', protocol = ''TCP'',
         localAddress = ''1.2.3.4'', localPort = Some (Num 99999),
         remoteAddress = ''0.0.0.0'', remotePort = Some (Num 0),
         state = ''LISTENING'', pid = Some (Num 4), processName = None, owner = None \<rparr>"
      "''TCP 1.2.3.4:99999 0.0.0.0:0 LISTENING 4''" "[]" "[]" "''135''" "''0.0.0.0''"]
  unfolding windows_port_99999 by (simp add: isDigit_def code_def)

text \<open>
  C5. For a bound \<open>maxPort\<close> from 1 to 65535, every record the scan engine resolves to
  has a finite local port that is at most the bound; a record whose local port is absent
  or not a number is left out, and nothing fails.
\<close>

theorem scanPorts_bound:
  assumes "1 \<le> q" "q \<le> 65535" "e \<in> set (entries (scanPorts (Num q) pidMap chunks))"
  shows "\<exists>p. entry_localPort e = Num p \<and> p \<le> q"
proof -
  from scanPorts_entries [of "Num q" pidMap chunks] assms(3)
  have "good_entry (clamp_maxPort (Num q)) e" by (simp add: list_all_iff)
  then obtain p where "entry_localPort e = Num p" "p \<le> clamp_maxPort (Num q)"
    by (auto simp: good_entry_def port_within_def split: jsnum.splits)
  with clamp_maxPort_le [OF assms(1)] show ?thesis by auto
qed

theorem scanPorts_bound_witness:
  "(1::rat) \<le> 1024 \<and> (1024::rat) \<le> 65535
   \<and> \<lparr> entry_protocol = ''UDP'', entry_localAddress = ''0.0.0.0'', entry_localPort = Num 500,
         entry_foreignAddress = ''*'', entry_foreignPort = NaN,
         entry_state = [], entry_pid = Some (Num 4), entry_processName = [] \<rparr>
     \<in> set (entries (scanPorts (Num 1024) Map.empty
     [''TCP 0.0.0.0:13'',
      ''5 0.0.0.0:0 LISTENING 900'' @ [CHR 0x0D, CHR 0x0A]
      @ ''TCP 1.1.1.1:5000 2.2.2.2:80 ESTABLISHED 7'' @ [CHR 0x0D, CHR 0x0A]
      @ ''UDP *:* *:* 8'' @ [CHR 0x0D, CHR 0x0A]
      @ ''UDP 0.0.0.0:500 *:* 4'']))
   \<and> (\<exists>p. entry_localPort
       \<lparr> entry_protocol = ''UDP'', entry_localAddress = ''0.0.0.0'', entry_localPort = Num 500,
         entry_foreignAddress = ''*'', entry_foreignPort = NaN,
         entry_state = [], entry_pid = Some (Num 4), entry_processName = [] \<rparr> = Num p \<and> p \<le> 1024)"
proof -
  have m: "\<lparr> entry_protocol = ''UDP'', entry_localAddress = ''0.0.0.0'', entry_localPort = Num 500,
         entry_foreignAddress = ''*'', entry_foreignPort = NaN,
         entry_state = [], entry_pid = Some (Num 4), entry_processName = [] \<rparr>
     \<in> set (entries (scanPorts (Num 1024) Map.empty
     [''TCP 0.0.0.0:13'',
      ''5 0.0.0.0:0 LISTENING 900'' @ [CHR 0x0D, CHR 0x0A]
      @ ''TCP 1.1.1.1:5000 2.2.2.2:80 ESTABLISHED 7'' @ [CHR 0x0D, CHR 0x0A]
      @ ''UDP *:* *:* 8'' @ [CHR 0x0D, CHR 0x0A]
      @ ''UDP 0.0.0.0:500 *:* 4'']))"
    unfolding scan_example by simp
  from scanPorts_bound [OF _ _ m] m show ?thesis by simp
qed

text \<open>
  C6. The \<open>current\<close> values of the progress notifications of a scan never decrease,
  and the last notification, sent at the end of the stream, has \<open>current = total\<close>.
\<close>

theorem progress_monotone:
  "sorted (map fst (progress (scanPorts maxPort pidMap chunks)))
   \<and> progress (scanPorts maxPort pidMap chunks) \<noteq> []
   \<and> fst (last (progress (scanPorts maxPort pidMap chunks)))
       = snd (last (progress (scanPorts maxPort pidMap chunks)))"
  using scanPorts_progress [of maxPort pidMap chunks] by auto

text \<open>
  C7. Every UDP record, of the three extractors and of the scan engine, is to have the
  state \<open>UNSPECIFIED\<close>. The \<open>ss\<close> extractor copies the state column of the line, which
  for a UDP socket reads \<open>UNCONN\<close>; the \<open>lsof\<close> extractor takes a parenthesised group at
  the end of the line as the state, for either protocol; and the scan engine gives a UDP
  entry the empty state.
\<close>

theorem udp_state_not_unspecified:
  "parseLinuxSS ''udp UNCONN 0 0 0.0.0.0:68 0.0.0.0:*'' =
     [\<lparr> key = ''UDP|0.0.0.0:68|0.0.0.0:*|'', protocol = ''UDP'',
        localAddress = ''0.0.0.0'', localPort = Some (Num 68),
        remoteAddress = ''0.0.0.0'', remotePort = None,
        state = ''UNCONN'', pid = None, processName = None, owner = None \<rparr>]
   \<and> parseLsof ''nc 77 bob 3u IPv4 0x1 0t0 UDP 1.1.1.1:5->2.2.2.2:6 (CLOSED)'' =
     [\<lparr> key = ''UDP|1.1.1.1:5|2.2.2.2:6|77'', protocol = ''UDP'',
        localAddress = ''1.1.1.1'', localPort = Some (Num 5),
        remoteAddress = ''2.2.2.2'', remotePort = Some (Num 6),
        state = ''CLOSED'', pid = Some (Num 77), processName = Some ''nc'',
        owner = Some ''bob'' \<rparr>]
   \<and> entries (scanPorts (Num 1024) Map.empty [''UDP 0.0.0.0:500 *:* 4'']) =
     [\<lparr> entry_protocol = ''UDP'', entry_localAddress = ''0.0.0.0'', entry_localPort = Num 500,
         entry_foreignAddress = ''*'', entry_foreignPort = NaN,
         entry_state = [], entry_pid = Some (Num 4), entry_processName = [] \<rparr>]"
  by (simp only: ss_udp_unconn lsof_udp_closed scan_udp_500)

text \<open>
  C7, as amended. A UDP record of the Windows extractor has the state \<open>UNSPECIFIED\<close>.
  The records of the \<open>lsof\<close> and \<open>ss\<close> extractors are those of the lines of the input, in
  order. The UDP record of an \<open>lsof\<close> line has the state \<open>UNSPECIFIED\<close>, unless the text
  after the protocol token ends with a parenthesised group, which is then its state in
  upper case; it is \<open>UNSPECIFIED\<close> in particular when the line has no opening
  parenthesis. The record of an \<open>ss\<close> line has as protocol and state the first and second
  columns of that line in upper case. A UDP entry of the scan engine has the empty state.
\<close>

theorem udp_state:
  "(rw \<in> set (parseWindowsNetstat w) \<and> protocol rw = ''UDP'' \<longrightarrow> state rw = ''UNSPECIFIED'')
   \<and> parseLsof l = concat (map lsof_line (split_lines l))
   \<and> (rl \<in> set (lsof_line ll) \<and> protocol rl = ''UDP'' \<longrightarrow>
        (\<exists>i n. search_wb [lit ''TCP'', lit ''UDP''] None ll 0 = Some (i, n)
           \<and> state rl = (case state_search (after_proto ll (take n (drop i ll))) 0 of
                           None \<Rightarrow> ''UNSPECIFIED''
                         | Some (j, g) \<Rightarrow> toUpperCase g)))
   \<and> (rl \<in> set (lsof_line ll) \<and> protocol rl = ''UDP'' \<and> CHR 0x28 \<notin> set ll
        \<longrightarrow> state rl = ''UNSPECIFIED'')
   \<and> parseLinuxSS s = concat (map ss_line (split_lines s))
   \<and> (rs \<in> set (ss_line ls) \<longrightarrow>
        (\<exists>m1 m2 m3 m4 m5. ss_match ls = Some (m1, m2, m3, m4, m5)
           \<and> protocol rs = toUpperCase m1 \<and> state rs = toUpperCase m2))
   \<and> (e \<in> set (entries (scanPorts maxPort pidMap chunks)) \<and> entry_protocol e = ''UDP''
        \<longrightarrow> entry_state e = [])"
proof -
  have a: "state rw = ''UNSPECIFIED''" if "rw \<in> set (parseWindowsNetstat w)" "protocol rw = ''UDP''"
    using windows_record_shape [OF that(1)] that(2) by simp
  have c: "\<exists>m1 m2 m3 m4 m5. ss_match ls = Some (m1, m2, m3, m4, m5)
           \<and> protocol rs = toUpperCase m1 \<and> state rs = toUpperCase m2"
    if rs: "rs \<in> set (ss_line ls)"
    using ss_line_record [OF rs] by blast
  have d: "entry_state e = []"
    if "e \<in> set (entries (scanPorts maxPort pidMap chunks))" "entry_protocol e = ''UDP''"
  proof -
    from scanPorts_entries [of maxPort pidMap chunks] that(1)
    have "good_entry (clamp_maxPort maxPort) e" by (simp add: list_all_iff)
    with that(2) show ?thesis by (simp add: good_entry_def)
  qed
  show ?thesis
    using a c d lsof_udp_record [of rl ll] lsof_udp_plain [of rl ll]
      parseLsof_concat [of l] parseLinuxSS_concat [of s]
    by blast
qed

theorem udp_state_witness:
  "hd (parseWindowsNetstat ''UDP 0.0.0.0:500 *:* 4'')
     \<in> set (parseWindowsNetstat ''UDP 0.0.0.0:500 *:* 4'')
   \<and> protocol (hd (parseWindowsNetstat ''UDP 0.0.0.0:500 *:* 4'')) = ''UDP''
   \<and> state (hd (parseWindowsNetstat ''UDP 0.0.0.0:500 *:* 4'')) = ''UNSPECIFIED''
   \<and> hd (lsof_line ''dnsmasq 77 root 4u IPv4 0x1 0t0 UDP *:53'')
     \<in> set (lsof_line ''dnsmasq 77 root 4u IPv4 0x1 0t0 UDP *:53'')
   \<and> protocol (hd (lsof_line ''dnsmasq 77 root 4u IPv4 0x1 0t0 UDP *:53'')) = ''UDP''
   \<and> CHR 0x28 \<notin> set ''dnsmasq 77 root 4u IPv4 0x1 0t0 UDP *:53''
   \<and> state (hd (lsof_line ''dnsmasq 77 root 4u IPv4 0x1 0t0 UDP *:53'')) = ''UNSPECIFIED''
   \<and> hd (ss_line ''udp UNCONN 0 0 0.0.0.0:68 0.0.0.0:*'')
     \<in> set (ss_line ''udp UNCONN 0 0 0.0.0.0:68 0.0.0.0:*'')
   \<and> state (hd (ss_line ''udp UNCONN 0 0 0.0.0.0:68 0.0.0.0:*'')) = toUpperCase ''UNCONN''
   \<and> hd (entries (scanPorts (Num 1024) Map.empty [''UDP 0.0.0.0:500 *:* 4'']))
     \<in> set (entries (scanPorts (Num 1024) Map.empty [''UDP 0.0.0.0:500 *:* 4'']))
   \<and> entry_protocol (hd (entries (scanPorts (Num 1024) Map.empty [''UDP 0.0.0.0:500 *:* 4''])))
       = ''UDP''
   \<and> entry_state (hd (entries (scanPorts (Num 1024) Map.empty [''UDP 0.0.0.0:500 *:* 4''])))
       = []"
  using udp_state [of "hd (parseWindowsNetstat ''UDP 0.0.0.0:500 *:* 4'')"
      "''UDP 0.0.0.0:500 *:* 4''"
      "''dnsmasq 77 root 4u IPv4 0x1 0t0 UDP *:53''"
      "hd (lsof_line ''dnsmasq 77 root 4u IPv4 0x1 0t0 UDP *:53'')"
      "''dnsmasq 77 root 4u IPv4 0x1 0t0 UDP *:53''"
      "''udp UNCONN 0 0 0.0.0.0:68 0.0.0.0:*''"
      "hd (ss_line ''udp UNCONN 0 0 0.0.0.0:68 0.0.0.0:*'')"
      "''udp UNCONN 0 0 0.0.0.0:68 0.0.0.0:*''"
      "hd (entries (scanPorts (Num 1024) Map.empty [''UDP 0.0.0.0:500 *:* 4'']))"
      "Num 1024" Map.empty "[''UDP 0.0.0.0:500 *:* 4'']"]
  unfolding windows_udp_500 lsof_line_udp_53 ss_line_udp_unconn scan_udp_500
  by (simp add: upper_literals)

text \<open>
  C8. On a token with exactly one colon whose text after the colon is not an integer, the
  address splitter is to return an absent port. For the empty text after the colon it
  returns the number 0: \<open>Number('')\<close> is 0, which \<open>Number.isFinite\<close> accepts.
\<close>

theorem splitHostPort_empty_port:
  "splitHostPort ''127.0.0.1:'' = (''127.0.0.1'', Some (Num 0))"
  by (simp add: splitHostPort_def match_bracket_def indexOf_def lastIndexOf_def number_defs
      char_defs Let_def)

text \<open>
  C9. Every record of the three extractors has the protocol \<open>TCP\<close> or \<open>UDP\<close>, and a
  TCP record has a non-empty state. A TCP record of the \<open>lsof\<close> extractor whose input
  has no opening parenthesis, hence no state suffix, has the default state
  \<open>UNKNOWN\<close>.
\<close>

theorem extractors_protocol_state:
  assumes "r \<in> set (parseWindowsNetstat w) \<union> set (parseLinuxSS s) \<union> set (parseLsof l)"
  shows "(protocol r = ''TCP'' \<or> protocol r = ''UDP'')
         \<and> (protocol r = ''TCP'' \<longrightarrow> state r \<noteq> [])
         \<and> (r \<in> set (parseLsof l) \<and> CHR 0x28 \<notin> set l \<and> protocol r = ''TCP''
              \<longrightarrow> state r = ''UNKNOWN'')"
proof -
  have tu: "''TCP'' \<noteq> ''UDP''" by simp
  from assms consider "r \<in> set (parseWindowsNetstat w)" | "r \<in> set (parseLinuxSS s)"
    | "r \<in> set (parseLsof l)" "r \<notin> set (parseWindowsNetstat w)" "r \<notin> set (parseLinuxSS s)"
    by blast
  then have a: "(protocol r = ''TCP'' \<or> protocol r = ''UDP'') \<and> (protocol r = ''TCP'' \<longrightarrow> state r \<noteq> [])"
  proof cases
    case 1
    from windows_record_shape [OF 1] show ?thesis by auto
  next
    case 2
    from ss_record_shape [OF 2] show ?thesis by simp
  next
    case 3
    from lsof_record_shape [OF 3(1)] show ?thesis by simp
  qed
  have b: "state r = ''UNKNOWN''"
    if "r \<in> set (parseLsof l)" "CHR 0x28 \<notin> set l" "protocol r = ''TCP''"
    using lsof_record_shape [OF that(1)] that(2,3) by simp
  from a b show ?thesis by blast
qed

theorem extractors_protocol_state_witness:
  "(let r = \<lparr> key = ''TCP|*:3000|*:*|77'', protocol = ''TCP'',
               localAddress = ''*'', localPort = Some (Num 3000),
               remoteAddress = ''*'', remotePort = None,
               state = ''UNKNOWN'', pid = Some (Num 77), processName = Some ''node'',
               owner = Some ''bob'' \<rparr>;
        l = ''node 77 bob 12u IPv4 0x1 0t0 TCP *:3000''
    in r \<in> set (parseWindowsNetstat []) \<union> set (parseLinuxSS []) \<union> set (parseLsof l)
       \<and> CHR 0x28 \<notin> set l \<and> protocol r = ''TCP'' \<and> state r = ''UNKNOWN'' \<and> state r \<noteq> [])"
  using extractors_protocol_state [of
      "\<lparr> key = ''TCP|*:3000|*:*|77'', protocol = ''TCP'',
               localAddress = ''*'', localPort = Some (Num 3000),
               remoteAddress = ''*'', remotePort = None,
               state = ''UNKNOWN'', pid = Some (Num 77), processName = Some ''node'',
               owner = Some ''bob'' \<rparr>" "[]" "[]" "''node 77 bob 12u IPv4 0x1 0t0 TCP *:3000''"]
  unfolding lsof_tcp_3000 Let_def by simp

text \<open>
  C10. The Linux owner resolver should map a process id to the account name of the
  real uid read from its status file. The two patterns of the resolver are written with
  doubled backslashes, so the line separator it splits the account database on is the
  text backslash-n and the uid it extracts starts with a backslash: the uid is never a
  number and the mapping returned is empty (lemma \<open>ownersLinux_empty\<close>). Here
  process 4321 runs as uid 1000, the account \<open>alice\<close>, and gets no owner.
\<close>

theorem owner_of_pid_missing:
  "ownersLinux
     \<lparr> files = [''/etc/passwd'' \<mapsto>
                  ''root:x:0:0:root:/root:/bin/bash'' @ [CHR 0x0A]
                  @ ''alice:x:1000:1000::/home/alice:/bin/sh'' @ [CHR 0x0A],
                ''/proc/4321/status'' \<mapsto>
                  ''Name:'' @ [CHR 0x09] @ ''node'' @ [CHR 0x0A]
                  @ ''Uid:'' @ [CHR 0x09] @ ''1000'' @ [CHR 0x09] @ ''1000'' @ [CHR 0x0A]],
        proc_dir = Some [''1'', ''4321'', ''self''] \<rparr>
     (Num 4321) = None"
  by (simp only: ownersLinux_empty)

end
